(* ===== verification/Nebula_Prelude.thy ===== *)
theory Nebula_Prelude
  imports Main "HOL-Library.Word" "HOL-Library.Sublist"
begin

text \<open>
  Vocabulary shared by every component of the development.

  \<^item> Machine types: bytes (\<open>char\<close> in a \<open>std::string\<close> or a \<open>std::vector<char>\<close>) are \<open>8 word\<close>s,
    fixed width integers are words of their width, \<open>size_t\<close> counters of in-memory containers are
    natural numbers.
  \<^item> Big-endian byte order, as \<open>htons\<close>/\<open>htonl\<close> followed by a copy of the object representation
    produce it, with its inverse.
  \<^item> The outcome of a call to an external system (data base, cache, broker, peer process): it may
    succeed, fail, or take effect while its reply is lost.
  \<^item> The collections \<open>wire_simps\<close>, \<open>store_simps\<close> and \<open>inv_intros\<close> that the component theories fill.
\<close>

unbundle bit_operations_syntax

named_theorems wire_simps
  \<open>unfolding rules of the byte level codecs\<close>

named_theorems store_simps
  \<open>lookup and update rules of tables and key-value stores\<close>

named_theorems inv_intros
  \<open>preservation rules of the component invariants\<close>

type_synonym byte = "8 word"
type_synonym bytes = "byte list"
type_synonym u16 = "16 word"
type_synonym u32 = "32 word"
type_synonym u64 = "64 word"

section \<open>Outcomes of external calls\<close>

datatype outcome =
    Succeeds  \<comment> \<open>the call took effect and the caller saw success\<close>
  | Fails     \<comment> \<open>the call had no effect and the caller saw an error\<close>
  | Lost      \<comment> \<open>the call took effect and the caller saw an error\<close>

primrec takes_effect :: "outcome \<Rightarrow> bool" where
  "takes_effect Succeeds = True"
| "takes_effect Fails = False"
| "takes_effect Lost = True"

primrec seen_ok :: "outcome \<Rightarrow> bool" where
  "seen_ok Succeeds = True"
| "seen_ok Fails = False"
| "seen_ok Lost = False"

lemma seen_ok_takes_effect [simp]: "seen_ok x \<Longrightarrow> takes_effect x"
  by (cases x) simp_all

section \<open>Big-endian integers\<close>

definition be16 :: "16 word \<Rightarrow> bytes" where
  "be16 v = [ucast (drop_bit 8 v), ucast v]"

definition be32 :: "32 word \<Rightarrow> bytes" where
  "be32 v = [ucast (drop_bit 24 v), ucast (drop_bit 16 v), ucast (drop_bit 8 v), ucast v]"

definition of_be16 :: "bytes \<Rightarrow> 16 word" where
  "of_be16 d = (push_bit 8 (ucast (d ! 0)) OR ucast (d ! 1))"

definition of_be32 :: "bytes \<Rightarrow> 32 word" where
  "of_be32 d = (push_bit 24 (ucast (d ! 0)) OR push_bit 16 (ucast (d ! 1))
     OR push_bit 8 (ucast (d ! 2)) OR ucast (d ! 3))"

lemma length_be16 [simp]: "length (be16 v) = 2"
  by (simp add: be16_def)

lemma length_be32 [simp]: "length (be32 v) = 4"
  by (simp add: be32_def)

lemma of_be16_be16: "of_be16 (be16 v @ ds) = v"
  unfolding of_be16_def be16_def
  by (rule bit_word_eqI) (auto simp: bit_simps)

lemma of_be32_be32: "of_be32 (be32 v @ ds) = v"
proof (rule bit_word_eqI)
  fix n
  assume "n < LENGTH(32)"
  then consider "n < 8" | "8 \<le> n" "n < 16" | "16 \<le> n" "n < 24" | "24 \<le> n" "n < 32"
    by fastforce
  then show "bit (of_be32 (be32 v @ ds)) n = bit v n"
    unfolding of_be32_def be32_def
    by cases (auto simp: bit_simps)
qed

section \<open>Lists\<close>

lemma take_append_eq [simp]: "n = length xs \<Longrightarrow> take n (xs @ ys) = xs"
  by simp

lemma drop_append_eq [simp]: "n = length xs \<Longrightarrow> drop n (xs @ ys) = ys"
  by simp

end
