(* ===== verification/Net_Buffer.thy ===== *)
theory Net_Buffer
  imports Nebula_Prelude
begin

text \<open>
  The growable receive/send buffer of \<^verbatim>\<open>common/net/Buffer.{h,cpp}\<close>: a byte vector with a reader and a
  writer index and eight bytes of prepend space. An \<open>assert\<close> that would fire is the value
  \<open>None\<close>. The abstract specification is a byte queue (\<open>queue_of\<close>); the locale \<open>byte_queue\<close> is the
  contract the packet and frame decoders rely on, interpreted on the buffer at the end of the theory.
\<close>

section \<open>State and operations\<close>

record Buffer =
  buffer_data :: bytes
  reader_index :: nat
  writer_index :: nat

definition kCheapPrepend :: nat where
  "kCheapPrepend = 8"

definition kInitialSize :: nat where
  "kInitialSize = 1024"

definition new_buffer :: Buffer where
  "new_buffer = \<lparr>buffer_data = replicate (kCheapPrepend + kInitialSize) 0,
     reader_index = kCheapPrepend, writer_index = kCheapPrepend\<rparr>"

definition readableBytes :: "Buffer \<Rightarrow> nat" where
  "readableBytes b = writer_index b - reader_index b"

definition writableBytes :: "Buffer \<Rightarrow> nat" where
  "writableBytes b = length (buffer_data b) - writer_index b"

definition prependableBytes :: "Buffer \<Rightarrow> nat" where
  "prependableBytes b = reader_index b"

text \<open>\<open>peek n\<close> is what a caller reads through the returned pointer: the \<open>n\<close> bytes from the reader index.\<close>

definition peek :: "nat \<Rightarrow> Buffer \<Rightarrow> bytes" where
  "peek n b = take n (drop (reader_index b) (buffer_data b))"

definition retrieveAll :: "Buffer \<Rightarrow> Buffer" where
  "retrieveAll b = b\<lparr>reader_index := kCheapPrepend, writer_index := kCheapPrepend\<rparr>"

definition retrieve :: "nat \<Rightarrow> Buffer \<Rightarrow> Buffer option" where
  "retrieve len b =
     (if \<not> len \<le> readableBytes b then None
      else if len < readableBytes b then Some (b\<lparr>reader_index := reader_index b + len\<rparr>)
      else Some (retrieveAll b))"

definition retrieveAsString :: "nat \<Rightarrow> Buffer \<Rightarrow> (bytes \<times> Buffer) option" where
  "retrieveAsString len b =
     (if \<not> len \<le> readableBytes b then None
      else (let result = peek len b in map_option (\<lambda>b'. (result, b')) (retrieve len b)))"

definition retrieveAllAsString :: "Buffer \<Rightarrow> (bytes \<times> Buffer) option" where
  "retrieveAllAsString b = retrieveAsString (readableBytes b) b"

definition makeSpace :: "nat \<Rightarrow> Buffer \<Rightarrow> Buffer" where
  "makeSpace len b =
     (if writableBytes b + prependableBytes b < len + kCheapPrepend
      then b\<lparr>buffer_data := take (writer_index b + len) (buffer_data b)
               @ replicate (writer_index b + len - length (buffer_data b)) 0\<rparr>
      else (let readable = readableBytes b;
                moved = take readable (drop (reader_index b) (buffer_data b))
            in b\<lparr>buffer_data := take kCheapPrepend (buffer_data b) @ moved
                    @ drop (kCheapPrepend + readable) (buffer_data b),
                 reader_index := kCheapPrepend,
                 writer_index := kCheapPrepend + readable\<rparr>))"

definition ensureWritableBytes :: "nat \<Rightarrow> Buffer \<Rightarrow> Buffer option" where
  "ensureWritableBytes len b =
     (let b' = (if writableBytes b < len then makeSpace len b else b)
      in if writableBytes b' \<ge> len then Some b' else None)"

text \<open>\<open>beginWrite\<close> hands out the address of the writer index; \<open>write_at_writer\<close> is the copy through it.\<close>

definition write_at_writer :: "bytes \<Rightarrow> Buffer \<Rightarrow> Buffer" where
  "write_at_writer d b = b\<lparr>buffer_data := take (writer_index b) (buffer_data b) @ d
       @ drop (writer_index b + length d) (buffer_data b)\<rparr>"

definition hasWritten :: "nat \<Rightarrow> Buffer \<Rightarrow> Buffer option" where
  "hasWritten len b =
     (if len \<le> writableBytes b then Some (b\<lparr>writer_index := writer_index b + len\<rparr>) else None)"

definition append_bytes :: "bytes \<Rightarrow> Buffer \<Rightarrow> Buffer option" where
  "append_bytes d b =
     (case ensureWritableBytes (length d) b of
        None \<Rightarrow> None
      | Some b' \<Rightarrow> hasWritten (length d) (write_at_writer d b'))"

text \<open>
  \<open>readFd\<close> and \<open>writeFd\<close> take the result of the system call as an argument: \<open>Inl\<close> an \<open>errno\<close>, or
  \<open>Inr\<close> the bytes \<open>readv\<close> scattered over its two segments, respectively the number of bytes
  \<open>send\<close> accepted. \<open>readv_capacity\<close> is the total length of the segments that are offered.
\<close>

definition kExtraBuffer :: nat where
  "kExtraBuffer = 65536"

definition readv_capacity :: "Buffer \<Rightarrow> nat" where
  "readv_capacity b =
     (if writableBytes b < kExtraBuffer then writableBytes b + kExtraBuffer else writableBytes b)"

definition readFd :: "int + bytes \<Rightarrow> Buffer \<Rightarrow> (int + nat) \<times> Buffer option" where
  "readFd r b =
     (case r of
        Inl errno \<Rightarrow> (Inl errno, Some b)
      | Inr d \<Rightarrow>
          (Inr (length d),
           let writable = writableBytes b in
           if length d \<le> writable
           then Some ((write_at_writer d b)\<lparr>writer_index := writer_index b + length d\<rparr>)
           else append_bytes (drop writable d)
                  ((write_at_writer (take writable d) b)
                     \<lparr>writer_index := length (buffer_data b)\<rparr>)))"

definition writeFd :: "int + nat \<Rightarrow> Buffer \<Rightarrow> (int + nat) \<times> Buffer option" where
  "writeFd r b =
     (case r of
        Inl errno \<Rightarrow> (Inl errno, Some b)
      | Inr n \<Rightarrow> (Inr n, retrieve n b))"

section \<open>Invariant and abstraction\<close>

definition buffer_inv :: "Buffer \<Rightarrow> bool" where
  "buffer_inv b \<longleftrightarrow> kCheapPrepend \<le> reader_index b \<and> reader_index b \<le> writer_index b
     \<and> writer_index b \<le> length (buffer_data b)"

definition queue_of :: "Buffer \<Rightarrow> bytes" where
  "queue_of b = take (readableBytes b) (drop (reader_index b) (buffer_data b))"

lemmas buffer_defs = readableBytes_def writableBytes_def prependableBytes_def queue_of_def

lemma buffer_inv_new [inv_intros]: "buffer_inv new_buffer"
  by (simp add: buffer_inv_def new_buffer_def kCheapPrepend_def)

lemma queue_of_new [simp]: "queue_of new_buffer = []"
  by (simp add: buffer_defs new_buffer_def)

lemma length_queue_of [simp]: "buffer_inv b \<Longrightarrow> length (queue_of b) = readableBytes b"
  by (auto simp: buffer_inv_def buffer_defs min_def)

lemma peek_queue: "n \<le> readableBytes b \<Longrightarrow> peek n b = take n (queue_of b)"
  by (simp add: peek_def queue_of_def min_def)

lemma buffer_inv_retrieveAll [inv_intros]: "buffer_inv b \<Longrightarrow> buffer_inv (retrieveAll b)"
  by (simp add: buffer_inv_def retrieveAll_def)

lemma queue_of_retrieveAll [simp]: "queue_of (retrieveAll b) = []"
  by (simp add: buffer_defs retrieveAll_def)

lemma retrieve_spec:
  assumes "buffer_inv b" "n \<le> length (queue_of b)"
  shows "\<exists>b'. retrieve n b = Some b' \<and> buffer_inv b' \<and> queue_of b' = drop n (queue_of b)"
proof (cases "n < readableBytes b")
  case True
  then show ?thesis
    using assms by (auto simp: retrieve_def buffer_inv_def buffer_defs drop_take algebra_simps)
next
  case False
  then have "n = readableBytes b"
    using assms by simp
  then show ?thesis
    using assms by (simp add: retrieve_def inv_intros)
qed

lemma retrieve_assert: "buffer_inv b \<Longrightarrow> length (queue_of b) < n \<Longrightarrow> retrieve n b = None"
  by (simp add: retrieve_def)

lemma retrieveAsString_spec:
  assumes "buffer_inv b" "n \<le> length (queue_of b)"
  shows "\<exists>b'. retrieveAsString n b = Some (take n (queue_of b), b') \<and> buffer_inv b'
     \<and> queue_of b' = drop n (queue_of b)"
  using retrieve_spec [OF assms] assms by (auto simp: retrieveAsString_def peek_queue)

lemma makeSpace_spec:
  assumes "buffer_inv b" "writableBytes b < n"
  shows "buffer_inv (makeSpace n b) \<and> queue_of (makeSpace n b) = queue_of b
     \<and> n \<le> writableBytes (makeSpace n b)"
  using assms
  by (auto simp: makeSpace_def buffer_inv_def buffer_defs kCheapPrepend_def Let_def min_def)

lemma ensureWritableBytes_spec:
  assumes "buffer_inv b"
  shows "\<exists>b'. ensureWritableBytes n b = Some b' \<and> buffer_inv b' \<and> queue_of b' = queue_of b
     \<and> n \<le> writableBytes b'"
  using assms makeSpace_spec [of b n] by (auto simp: ensureWritableBytes_def Let_def)

lemma write_advance:
  assumes "buffer_inv b" "length d \<le> writableBytes b"
  shows "buffer_inv ((write_at_writer d b)\<lparr>writer_index := writer_index b + length d\<rparr>)
     \<and> queue_of ((write_at_writer d b)\<lparr>writer_index := writer_index b + length d\<rparr>) = queue_of b @ d"
proof -
  have "drop (reader_index b) (buffer_data (write_at_writer d b))
      = queue_of b @ d @ drop (writer_index b + length d) (buffer_data b)"
    using assms by (auto simp: write_at_writer_def buffer_inv_def buffer_defs drop_take)
  moreover have "writer_index b + length d - reader_index b = length (queue_of b @ d)"
    using assms by (simp add: buffer_inv_def readableBytes_def)
  ultimately show ?thesis
    using assms by (auto simp: queue_of_def [of "_\<lparr>writer_index := _\<rparr>"] readableBytes_def
        write_at_writer_def buffer_inv_def writableBytes_def)
qed

lemma append_bytes_spec:
  assumes "buffer_inv b"
  shows "\<exists>b'. append_bytes d b = Some b' \<and> buffer_inv b' \<and> queue_of b' = queue_of b @ d"
proof -
  obtain c where c: "ensureWritableBytes (length d) b = Some c" "buffer_inv c"
    "queue_of c = queue_of b" "length d \<le> writableBytes c"
    using ensureWritableBytes_spec [OF assms] by blast
  have "writableBytes (write_at_writer d c) = writableBytes c"
    using c by (auto simp: write_at_writer_def writableBytes_def buffer_inv_def)
  then show ?thesis
    using c write_advance [of c d]
    by (simp add: append_bytes_def hasWritten_def) (simp add: write_at_writer_def)
qed

text \<open>
  The arithmetic of \<open>readFd\<close>: filling the vector to its end and appending the rest of the bytes is
  appending all of them, whatever part of the data the vector can hold.
\<close>

lemma readFd_spec:
  assumes "buffer_inv b"
  shows "\<exists>b'. readFd (Inr d) b = (Inr (length d), Some b') \<and> buffer_inv b'
     \<and> queue_of b' = queue_of b @ d"
proof (cases "length d \<le> writableBytes b")
  case True
  then show ?thesis
    using write_advance [OF assms True] by (simp add: readFd_def)
next
  case False
  let ?h = "take (writableBytes b) d"
  let ?c = "(write_at_writer ?h b)\<lparr>writer_index := writer_index b + length ?h\<rparr>"
  have len: "length ?h = writableBytes b"
    using False by simp
  have c: "buffer_inv ?c" "queue_of ?c = queue_of b @ ?h"
    using write_advance [OF assms, of ?h] len by simp_all
  have "writer_index b + length ?h = length (buffer_data b)"
    using assms len by (simp add: buffer_inv_def writableBytes_def)
  then show ?thesis
    using append_bytes_spec [OF c(1), of "drop (writableBytes b) d"] c(2) False
    by (simp add: readFd_def Let_def)
qed

section \<open>The queue contract\<close>

text \<open>
  What the decoders rely on: a queue of bytes that is only read at its front and only extended at its
  back, in which reading beyond the content is refused.
\<close>

locale byte_queue =
  fixes ok :: "'b \<Rightarrow> bool"
    and content :: "'b \<Rightarrow> bytes"
    and fresh :: 'b
    and put :: "bytes \<Rightarrow> 'b \<Rightarrow> 'b option"
    and discard :: "nat \<Rightarrow> 'b \<Rightarrow> 'b option"
    and get :: "nat \<Rightarrow> 'b \<Rightarrow> (bytes \<times> 'b) option"
    and clear :: "'b \<Rightarrow> 'b"
  assumes fresh_ok: "ok fresh"
    and fresh_content: "content fresh = []"
    and put_law: "ok b \<Longrightarrow> \<exists>b'. put d b = Some b' \<and> ok b' \<and> content b' = content b @ d"
    and discard_law: "ok b \<Longrightarrow> n \<le> length (content b) \<Longrightarrow>
      \<exists>b'. discard n b = Some b' \<and> ok b' \<and> content b' = drop n (content b)"
    and discard_refused: "ok b \<Longrightarrow> length (content b) < n \<Longrightarrow> discard n b = None"
    and get_law: "ok b \<Longrightarrow> n \<le> length (content b) \<Longrightarrow>
      \<exists>b'. get n b = Some (take n (content b), b') \<and> ok b' \<and> content b' = drop n (content b)"
    and get_refused: "ok b \<Longrightarrow> length (content b) < n \<Longrightarrow> get n b = None"
    and clear_ok: "ok b \<Longrightarrow> ok (clear b)"
    and clear_content: "content (clear b) = []"
begin

primrec puts :: "bytes list \<Rightarrow> 'b \<Rightarrow> 'b option" where
  "puts [] b = Some b"
| "puts (d # ds) b = Option.bind (put d b) (puts ds)"

lemma puts_concat:
  "ok b \<Longrightarrow> \<exists>b'. puts ds b = Some b' \<and> ok b' \<and> content b' = content b @ concat ds"
proof (induction ds arbitrary: b)
  case Nil
  then show ?case by simp
next
  case (Cons d ds)
  then obtain c where "put d b = Some c" "ok c" "content c = content b @ d"
    using put_law by blast
  then show ?case
    using Cons.IH [of c] by auto
qed

lemma discard_then_get:
  assumes "ok b" "content b = h @ d @ rest"
  shows "\<exists>b1 b2. discard (length h) b = Some b1 \<and> get (length d) b1 = Some (d, b2)
     \<and> ok b2 \<and> content b2 = rest"
proof -
  obtain c where c: "discard (length h) b = Some c" "ok c" "content c = d @ rest"
    using discard_law [of b "length h"] assms by auto
  then show ?thesis
    using get_law [of c "length d"] by auto
qed

lemma get_total_iff: "ok b \<Longrightarrow> get n b \<noteq> None \<longleftrightarrow> n \<le> length (content b)"
  using get_law [of b n] get_refused [of b n] by (cases "n \<le> length (content b)") auto

end

interpretation bufq: byte_queue buffer_inv queue_of new_buffer append_bytes retrieve
  retrieveAsString retrieveAll
proof unfold_locales
  show "retrieveAsString n b = None" if "buffer_inv b" "length (queue_of b) < n" for n b
    using that by (simp add: retrieveAsString_def)
qed (simp_all add: inv_intros append_bytes_spec retrieve_spec retrieve_assert retrieveAsString_spec
      del: length_queue_of)

section \<open>Histories of operations\<close>

text \<open>
  A client performs a sequence of operations; each shows the client some bytes. The same history on a
  plain byte queue is the specification.
\<close>

datatype buffer_op =
    Op_append bytes
  | Op_retrieve nat
  | Op_retrieveAll
  | Op_retrieveAsString nat
  | Op_retrieveAllAsString
  | Op_ensureWritable nat
  | Op_readFd "int + bytes"
  | Op_writeFd "int + nat"

primrec buffer_step :: "buffer_op \<Rightarrow> Buffer \<Rightarrow> (bytes \<times> Buffer) option" where
  "buffer_step (Op_append d) b = map_option (Pair []) (append_bytes d b)"
| "buffer_step (Op_retrieve n) b = map_option (Pair []) (retrieve n b)"
| "buffer_step Op_retrieveAll b = Some ([], retrieveAll b)"
| "buffer_step (Op_retrieveAsString n) b = retrieveAsString n b"
| "buffer_step Op_retrieveAllAsString b = retrieveAllAsString b"
| "buffer_step (Op_ensureWritable n) b = map_option (Pair []) (ensureWritableBytes n b)"
| "buffer_step (Op_readFd r) b = map_option (Pair []) (snd (readFd r b))"
| "buffer_step (Op_writeFd r) b = map_option (Pair []) (snd (writeFd r b))"

primrec queue_step :: "buffer_op \<Rightarrow> bytes \<Rightarrow> (bytes \<times> bytes) option" where
  "queue_step (Op_append d) q = Some ([], q @ d)"
| "queue_step (Op_retrieve n) q = (if n \<le> length q then Some ([], drop n q) else None)"
| "queue_step Op_retrieveAll q = Some ([], [])"
| "queue_step (Op_retrieveAsString n) q = (if n \<le> length q then Some (take n q, drop n q) else None)"
| "queue_step Op_retrieveAllAsString q = Some (q, [])"
| "queue_step (Op_ensureWritable n) q = Some ([], q)"
| "queue_step (Op_readFd r) q = Some ([], case r of Inl _ \<Rightarrow> q | Inr d \<Rightarrow> q @ d)"
| "queue_step (Op_writeFd r) q =
     (case r of Inl _ \<Rightarrow> Some ([], q) | Inr n \<Rightarrow> if n \<le> length q then Some ([], drop n q) else None)"

fun run_history :: "('o \<Rightarrow> 's \<Rightarrow> (bytes \<times> 's) option) \<Rightarrow> 'o list \<Rightarrow> 's \<Rightarrow> (bytes list \<times> 's) option" where
  "run_history f [] s = Some ([], s)"
| "run_history f (x # xs) s =
     (case f x s of
        None \<Rightarrow> None
      | Some (out, s') \<Rightarrow> map_option (\<lambda>(outs, s''). (out # outs, s'')) (run_history f xs s'))"

lemma buffer_step_refines:
  assumes "buffer_inv b"
  shows "case buffer_step x b of
      None \<Rightarrow> queue_step x (queue_of b) = None
    | Some (out, b') \<Rightarrow> buffer_inv b' \<and> queue_step x (queue_of b) = Some (out, queue_of b')"
proof (cases x)
  case (Op_append d)
  then show ?thesis using append_bytes_spec [OF assms, of d] by auto
next
  case (Op_retrieve n)
  then show ?thesis
    using retrieve_spec [OF assms, of n] retrieve_assert [OF assms, of n]
    by (cases "n \<le> length (queue_of b)") auto
next
  case (Op_retrieveAsString n)
  then show ?thesis
    using retrieveAsString_spec [OF assms, of n] bufq.get_refused [OF assms, of n]
    by (cases "n \<le> length (queue_of b)") auto
next
  case Op_retrieveAllAsString
  then show ?thesis
    using retrieveAsString_spec [OF assms, of "readableBytes b"] assms
    by (auto simp: retrieveAllAsString_def)
next
  case (Op_ensureWritable n)
  then show ?thesis using ensureWritableBytes_spec [OF assms, of n] by auto
next
  case (Op_readFd r)
  then show ?thesis
  proof (cases r)
    case (Inl e)
    then show ?thesis using Op_readFd assms by (simp add: readFd_def)
  next
    case (Inr d)
    then show ?thesis using Op_readFd readFd_spec [OF assms, of d] by auto
  qed
next
  case (Op_writeFd r)
  then show ?thesis
  proof (cases r)
    case (Inl e)
    then show ?thesis using Op_writeFd assms by (simp add: writeFd_def)
  next
    case (Inr n)
    then show ?thesis
      using Op_writeFd retrieve_spec [OF assms, of n] retrieve_assert [OF assms, of n]
      by (cases "n \<le> length (queue_of b)") (auto simp: writeFd_def)
  qed
qed (simp add: assms inv_intros)

lemma run_history_refines:
  "buffer_inv b \<Longrightarrow> map_option (apsnd queue_of) (run_history buffer_step xs b)
     = run_history queue_step xs (queue_of b)"
proof (induction xs arbitrary: b)
  case Nil
  then show ?case by simp
next
  case (Cons x xs)
  show ?case
  proof (cases "buffer_step x b")
    case None
    then show ?thesis
      using buffer_step_refines [OF Cons.prems, of x] by simp
  next
    case (Some r)
    obtain out b' where r: "r = (out, b')"
      by (cases r)
    have step: "buffer_inv b'" "queue_step x (queue_of b) = Some (out, queue_of b')"
      using buffer_step_refines [OF Cons.prems, of x] Some r by simp_all
    show ?thesis
      using Some r step(2) Cons.IH [OF step(1), symmetric]
      by (cases "run_history buffer_step xs b'") auto
  qed
qed

text \<open>
  C18. The buffer is a byte queue: every history of appends, reads, retrievals and sends that starts
  with a fresh buffer shows the client the same bytes as the plain queue, leaves the same bytes queued,
  and trips an assertion exactly when the history asks the queue for more bytes than it holds.
\<close>

theorem buffer_refines_queue:
  "map_option (apsnd queue_of) (run_history buffer_step ops new_buffer) = run_history queue_step ops []"
  using run_history_refines [OF buffer_inv_new, of ops] by simp

end
