(* ===== verification/Packet_Protocol.thy ===== *)
theory Packet_Protocol
  imports Net_Buffer
begin

text \<open>
  The binary packet protocol of \<^verbatim>\<open>common/protocol\<close>: message types, the sixteen byte header, the codec
  and its error codes. The codec works on the buffer of \<open>Net_Buffer\<close>. The theorems show that decoding
  inverts encoding in both directions, that a partial packet is left in the buffer, that no buffer
  assertion fires, and that a malformed header empties the buffer.
  The null pointer tests of the C++ entry points have no counterpart: arguments are values here.
\<close>

section \<open>Message types\<close>

datatype MessageType =
    UNKNOWN
  | LOGIN_REQ | LOGIN_RESP | REGISTER_REQ | REGISTER_RESP
  | RESUME_SESSION_REQ | RESUME_SESSION_RESP
  | HEARTBEAT_REQ | HEARTBEAT_RESP
  | SEND_SINGLE_MSG_REQ | SEND_SINGLE_MSG_RESP
  | SEND_GROUP_MSG_REQ | SEND_GROUP_MSG_RESP
  | PUSH_MSG
  | ACK_REQ | ACK_RESP
  | PULL_OFFLINE_MSG_REQ | PULL_OFFLINE_MSG_RESP
  | ERROR_RESP

primrec messageTypeCode :: "MessageType \<Rightarrow> 16 word" where
  "messageTypeCode UNKNOWN = 0"
| "messageTypeCode LOGIN_REQ = 1001"
| "messageTypeCode LOGIN_RESP = 1002"
| "messageTypeCode REGISTER_REQ = 1003"
| "messageTypeCode REGISTER_RESP = 1004"
| "messageTypeCode RESUME_SESSION_REQ = 1005"
| "messageTypeCode RESUME_SESSION_RESP = 1006"
| "messageTypeCode HEARTBEAT_REQ = 1101"
| "messageTypeCode HEARTBEAT_RESP = 1102"
| "messageTypeCode SEND_SINGLE_MSG_REQ = 2001"
| "messageTypeCode SEND_SINGLE_MSG_RESP = 2002"
| "messageTypeCode SEND_GROUP_MSG_REQ = 2101"
| "messageTypeCode SEND_GROUP_MSG_RESP = 2102"
| "messageTypeCode PUSH_MSG = 3001"
| "messageTypeCode ACK_REQ = 4001"
| "messageTypeCode ACK_RESP = 4002"
| "messageTypeCode PULL_OFFLINE_MSG_REQ = 5001"
| "messageTypeCode PULL_OFFLINE_MSG_RESP = 5002"
| "messageTypeCode ERROR_RESP = 9001"

primrec messageTypeToString :: "MessageType \<Rightarrow> string" where
  "messageTypeToString UNKNOWN = ''UNKNOWN''"
| "messageTypeToString LOGIN_REQ = ''LOGIN_REQ''"
| "messageTypeToString LOGIN_RESP = ''LOGIN_RESP''"
| "messageTypeToString REGISTER_REQ = ''REGISTER_REQ''"
| "messageTypeToString REGISTER_RESP = ''REGISTER_RESP''"
| "messageTypeToString RESUME_SESSION_REQ = ''RESUME_SESSION_REQ''"
| "messageTypeToString RESUME_SESSION_RESP = ''RESUME_SESSION_RESP''"
| "messageTypeToString HEARTBEAT_REQ = ''HEARTBEAT_REQ''"
| "messageTypeToString HEARTBEAT_RESP = ''HEARTBEAT_RESP''"
| "messageTypeToString SEND_SINGLE_MSG_REQ = ''SEND_SINGLE_MSG_REQ''"
| "messageTypeToString SEND_SINGLE_MSG_RESP = ''SEND_SINGLE_MSG_RESP''"
| "messageTypeToString SEND_GROUP_MSG_REQ = ''SEND_GROUP_MSG_REQ''"
| "messageTypeToString SEND_GROUP_MSG_RESP = ''SEND_GROUP_MSG_RESP''"
| "messageTypeToString PUSH_MSG = ''PUSH_MSG''"
| "messageTypeToString ACK_REQ = ''ACK_REQ''"
| "messageTypeToString ACK_RESP = ''ACK_RESP''"
| "messageTypeToString PULL_OFFLINE_MSG_REQ = ''PULL_OFFLINE_MSG_REQ''"
| "messageTypeToString PULL_OFFLINE_MSG_RESP = ''PULL_OFFLINE_MSG_RESP''"
| "messageTypeToString ERROR_RESP = ''ERROR_RESP''"

text \<open>The case labels of the \<open>switch\<close> that returns the type it was given.\<close>

definition validMessageTypes :: "MessageType list" where
  "validMessageTypes =
     [LOGIN_REQ, LOGIN_RESP, REGISTER_REQ, REGISTER_RESP, RESUME_SESSION_REQ, RESUME_SESSION_RESP,
      HEARTBEAT_REQ, HEARTBEAT_RESP, SEND_SINGLE_MSG_REQ, SEND_SINGLE_MSG_RESP,
      SEND_GROUP_MSG_REQ, SEND_GROUP_MSG_RESP, PUSH_MSG, ACK_REQ, ACK_RESP,
      PULL_OFFLINE_MSG_REQ, PULL_OFFLINE_MSG_RESP, ERROR_RESP]"

definition messageTypeFromUint16 :: "16 word \<Rightarrow> MessageType" where
  "messageTypeFromUint16 v =
     (case find (\<lambda>t. messageTypeCode t = v) validMessageTypes of
        Some t \<Rightarrow> t
      | None \<Rightarrow> UNKNOWN)"

definition isValidMessageType :: "16 word \<Rightarrow> bool" where
  "isValidMessageType v \<longleftrightarrow> messageTypeFromUint16 v \<noteq> UNKNOWN"

section \<open>Header and packet\<close>

datatype ProtocolError =
    OK | INCOMPLETE_PACKET | INVALID_MAGIC | INVALID_VERSION | INVALID_MESSAGE_TYPE
  | BODY_TOO_LARGE | INVALID_HEADER | INTERNAL_ERROR

primrec protocolErrorToString :: "ProtocolError \<Rightarrow> string" where
  "protocolErrorToString OK = ''OK''"
| "protocolErrorToString INCOMPLETE_PACKET = ''INCOMPLETE_PACKET''"
| "protocolErrorToString INVALID_MAGIC = ''INVALID_MAGIC''"
| "protocolErrorToString INVALID_VERSION = ''INVALID_VERSION''"
| "protocolErrorToString INVALID_MESSAGE_TYPE = ''INVALID_MESSAGE_TYPE''"
| "protocolErrorToString BODY_TOO_LARGE = ''BODY_TOO_LARGE''"
| "protocolErrorToString INVALID_HEADER = ''INVALID_HEADER''"
| "protocolErrorToString INTERNAL_ERROR = ''INTERNAL_ERROR''"

definition kProtocolMagic :: "32 word" where
  "kProtocolMagic = 0x4E494D42"

definition kProtocolVersion :: "16 word" where
  "kProtocolVersion = 1"

definition kMaxBodyLength :: nat where
  "kMaxBodyLength = 1024 * 1024"

definition kPacketHeaderLength :: nat where
  "kPacketHeaderLength = 16"

record PacketHeader =
  magic :: "32 word"
  version :: "16 word"
  header_type :: "16 word"
  header_sequence_id :: "32 word"
  body_length :: "32 word"

definition default_header :: PacketHeader where
  "default_header = \<lparr>magic = kProtocolMagic, version = kProtocolVersion, header_type = 0,
     header_sequence_id = 0, body_length = 0\<rparr>"

record Packet =
  packet_type :: MessageType
  sequence_id :: "32 word"
  body :: bytes

definition encodeHeader :: "PacketHeader \<Rightarrow> bytes" where
  "encodeHeader h = be32 (magic h) @ be16 (version h) @ be16 (header_type h)
     @ be32 (header_sequence_id h) @ be32 (body_length h)"

definition decodeHeader :: "bytes \<Rightarrow> PacketHeader option" where
  "decodeHeader d =
     (if length d < kPacketHeaderLength then None
      else Some \<lparr>magic = of_be32 d, version = of_be16 (drop 4 d), header_type = of_be16 (drop 6 d),
                 header_sequence_id = of_be32 (drop 8 d), body_length = of_be32 (drop 12 d)\<rparr>)"

section \<open>Codec\<close>

text \<open>\<open>Inl\<close> is the message of the \<open>std::invalid_argument\<close> that is thrown.\<close>

definition encode :: "Packet \<Rightarrow> string + bytes" where
  "encode p =
     (if packet_type p = UNKNOWN \<or> \<not> isValidMessageType (messageTypeCode (packet_type p))
      then Inl ''invalid message type''
      else if length (body p) > kMaxBodyLength then Inl ''packet body too large''
      else Inr (encodeHeader (default_header\<lparr>header_type := messageTypeCode (packet_type p),
                  header_sequence_id := sequence_id p,
                  body_length := of_nat (length (body p))\<rparr>) @ body p))"

definition validateHeader :: "PacketHeader \<Rightarrow> ProtocolError" where
  "validateHeader h =
     (if magic h \<noteq> kProtocolMagic then INVALID_MAGIC
      else if version h \<noteq> kProtocolVersion then INVALID_VERSION
      else if unat (body_length h) > kMaxBodyLength then BODY_TOO_LARGE
      else if \<not> isValidMessageType (header_type h) then INVALID_MESSAGE_TYPE
      else OK)"

text \<open>
  The result is the returned error, the packet written through the out parameter when it is written,
  and the buffer; \<open>None\<close> stands for a failed assertion of the buffer.
\<close>

definition decode :: "Buffer \<Rightarrow> (ProtocolError \<times> Packet option \<times> Buffer) option" where
  "decode b =
     (if readableBytes b < kPacketHeaderLength then Some (INCOMPLETE_PACKET, None, b)
      else case decodeHeader (peek (readableBytes b) b) of
        None \<Rightarrow> Some (INVALID_HEADER, None, b)
      | Some h \<Rightarrow>
          (let validation = validateHeader h in
           if validation \<noteq> OK then Some (validation, None, retrieveAll b)
           else if readableBytes b < kPacketHeaderLength + unat (body_length h)
           then Some (INCOMPLETE_PACKET, None, b)
           else Option.bind (retrieve kPacketHeaderLength b) (\<lambda>b1.
                Option.bind (retrieveAsString (unat (body_length h)) b1) (\<lambda>(d, b2).
                Some (OK, Some \<lparr>packet_type = messageTypeFromUint16 (header_type h),
                                sequence_id = header_sequence_id h, body = d\<rparr>, b2)))))"

section \<open>Message type codes\<close>

lemma messageTypeFromUint16_code [wire_simps]: "messageTypeFromUint16 (messageTypeCode t) = t"
  by (cases t) (simp_all add: messageTypeFromUint16_def validMessageTypes_def)

lemma messageTypeCode_from: "isValidMessageType v \<Longrightarrow> messageTypeCode (messageTypeFromUint16 v) = v"
  by (auto simp: isValidMessageType_def messageTypeFromUint16_def split: option.splits
      dest: find_Some_iff [THEN iffD1])

lemma isValidMessageType_code [wire_simps]: "isValidMessageType (messageTypeCode t) \<longleftrightarrow> t \<noteq> UNKNOWN"
  by (simp add: isValidMessageType_def messageTypeFromUint16_code)

lemma messageTypeFromUint16_valid:
  "isValidMessageType v \<Longrightarrow> messageTypeFromUint16 v \<noteq> UNKNOWN"
  by (simp add: isValidMessageType_def)

section \<open>Header round trips\<close>

lemma length_encodeHeader [simp]: "length (encodeHeader h) = kPacketHeaderLength"
  by (simp add: encodeHeader_def kPacketHeaderLength_def)

lemma decodeHeader_encodeHeader: "decodeHeader (encodeHeader h @ ds) = Some h"
proof -
  have "drop 4 (encodeHeader h @ ds)
      = be16 (version h) @ be16 (header_type h) @ be32 (header_sequence_id h) @ be32 (body_length h) @ ds"
    "drop 6 (encodeHeader h @ ds)
      = be16 (header_type h) @ be32 (header_sequence_id h) @ be32 (body_length h) @ ds"
    "drop 8 (encodeHeader h @ ds) = be32 (header_sequence_id h) @ be32 (body_length h) @ ds"
    "drop 12 (encodeHeader h @ ds) = be32 (body_length h) @ ds"
    by (simp_all add: encodeHeader_def)
  then show ?thesis
    by (simp add: decodeHeader_def of_be16_be16 of_be32_be32)
       (simp add: encodeHeader_def of_be32_be32)
qed

lemma be16_of_be16: "2 \<le> length d \<Longrightarrow> be16 (of_be16 d) = take 2 d"
proof -
  assume "2 \<le> length d"
  then obtain x y r where d: "d = x # y # r"
    by (metis Suc_le_length_iff numeral_2_eq_2)
  have "ucast (drop_bit 8 (of_be16 d)) = x" "ucast (of_be16 d) = y"
    unfolding d of_be16_def by (rule bit_word_eqI; auto simp: bit_simps dest: bit_imp_le_length)+
  then show ?thesis
    by (simp add: be16_def d)
qed

lemma be32_of_be32: "4 \<le> length d \<Longrightarrow> be32 (of_be32 d) = take 4 d"
proof -
  assume "4 \<le> length d"
  then obtain x y z w r where d: "d = x # y # z # w # r"
    by (auto simp: numeral_eq_Suc Suc_le_length_iff)
  have "ucast (drop_bit 24 (of_be32 d)) = x" "ucast (drop_bit 16 (of_be32 d)) = y"
    "ucast (drop_bit 8 (of_be32 d)) = z" "ucast (of_be32 d) = w"
    unfolding d of_be32_def by (rule bit_word_eqI; auto simp: bit_simps dest: bit_imp_le_length)+
  then show ?thesis
    by (simp add: be32_def d)
qed

lemma encodeHeader_decodeHeader:
  assumes "decodeHeader d = Some h"
  shows "encodeHeader h = take kPacketHeaderLength d"
proof -
  have len: "16 \<le> length d"
    using assms by (auto simp: decodeHeader_def kPacketHeaderLength_def split: if_splits)
  have "encodeHeader h = take 4 d @ take 2 (drop 4 d) @ take 2 (drop 6 d) @ take 4 (drop 8 d)
      @ take 4 (drop 12 d)"
    using assms len
    by (auto simp: decodeHeader_def encodeHeader_def be16_of_be16 be32_of_be32 split: if_splits)
  also have "\<dots> = take 16 d"
    by (simp flip: take_add drop_drop append_assoc add: take_add [of 4 2] take_add [of 6 2]
        take_add [of 8 4] take_add [of 12 4])
  finally show ?thesis
    by (simp add: kPacketHeaderLength_def)
qed

section \<open>Codec correctness\<close>

lemma encode_InrD:
  assumes "encode p = Inr w"
  shows "packet_type p \<noteq> UNKNOWN" "length (body p) \<le> kMaxBodyLength"
    "w = encodeHeader (default_header\<lparr>header_type := messageTypeCode (packet_type p),
           header_sequence_id := sequence_id p, body_length := of_nat (length (body p))\<rparr>) @ body p"
  using assms by (auto simp: encode_def split: if_splits)

lemma unat_body_length: "n \<le> kMaxBodyLength \<Longrightarrow> unat (of_nat n :: 32 word) = n"
  by (simp add: unat_of_nat kMaxBodyLength_def take_bit_eq_mod)

lemma peek_all: "peek (readableBytes b) b = queue_of b"
  by (simp add: peek_def queue_of_def)

lemma retrieve_packet:
  assumes "buffer_inv b" "queue_of b = h @ d @ rest" "length h = kPacketHeaderLength"
    "length d = n"
  shows "\<exists>b1 b2. retrieve kPacketHeaderLength b = Some b1 \<and> retrieveAsString n b1 = Some (d, b2)
     \<and> buffer_inv b2 \<and> queue_of b2 = rest"
  using bufq.discard_then_get [OF assms(1,2)] assms(3,4) by simp

lemma decode_valid:
  assumes "buffer_inv b" "queue_of b = encodeHeader h @ d @ rest" "validateHeader h = OK"
    "length d = unat (body_length h)"
  shows "\<exists>b'. decode b = Some (OK, Some \<lparr>packet_type = messageTypeFromUint16 (header_type h),
            sequence_id = header_sequence_id h, body = d\<rparr>, b')
     \<and> buffer_inv b' \<and> queue_of b' = rest"
proof -
  have len: "kPacketHeaderLength + unat (body_length h) \<le> readableBytes b"
    using assms(2,4) length_queue_of [OF assms(1)] by simp
  have hd: "decodeHeader (queue_of b) = Some h"
    by (simp add: assms(2) decodeHeader_encodeHeader)
  show ?thesis
    using retrieve_packet [OF assms(1,2) length_encodeHeader assms(4)] len hd assms(3)
    by (auto simp: decode_def peek_all)
qed

lemma decode_stream_step:
  assumes "buffer_inv b" "encode p = Inr w" "queue_of b = w @ rest"
  shows "\<exists>b'. decode b = Some (OK, Some p, b') \<and> buffer_inv b' \<and> queue_of b' = rest"
proof -
  let ?h = "default_header\<lparr>header_type := messageTypeCode (packet_type p),
    header_sequence_id := sequence_id p, body_length := of_nat (length (body p))\<rparr>"
  note e = encode_InrD [OF assms(2)]
  have len: "length (body p) = unat (body_length ?h)"
    using unat_body_length [OF e(2)] by simp
  have "validateHeader ?h = OK"
    using e(1,2) len by (simp add: validateHeader_def default_header_def wire_simps)
  then show ?thesis
    using decode_valid [OF assms(1), of ?h "body p" rest] assms(3) e(3) len
    by (cases p) (simp add: wire_simps)
qed

lemma decode_OK_D:
  assumes "buffer_inv b" "decode b = Some (OK, po, b')"
  shows "\<exists>p w. po = Some p \<and> encode p = Inr w \<and> queue_of b = w @ queue_of b' \<and> buffer_inv b'"
proof -
  obtain h where h: "decodeHeader (queue_of b) = Some h" "validateHeader h = OK"
    "kPacketHeaderLength + unat (body_length h) \<le> readableBytes b"
    using assms(2) by (auto simp: decode_def peek_all Let_def split: if_splits option.splits)
  define d where "d = take (unat (body_length h)) (drop kPacketHeaderLength (queue_of b))"
  define rest where "rest = drop (kPacketHeaderLength + unat (body_length h)) (queue_of b)"
  have ld: "length d = unat (body_length h)"
    using h(3) length_queue_of [OF assms(1)] by (simp add: d_def)
  have q: "queue_of b = encodeHeader h @ d @ rest"
    unfolding encodeHeader_decodeHeader [OF h(1)] d_def rest_def
    by (metis append_take_drop_id drop_drop add.commute)
  have v: "magic h = kProtocolMagic" "version h = kProtocolVersion"
    "unat (body_length h) \<le> kMaxBodyLength" "isValidMessageType (header_type h)"
    using h(2) by (auto simp: validateHeader_def split: if_splits)
  define p where "p = \<lparr>packet_type = messageTypeFromUint16 (header_type h),
    sequence_id = header_sequence_id h, body = d\<rparr>"
  have "decode b = Some (OK, Some p, b')" "queue_of b' = rest" "buffer_inv b'"
    using decode_valid [OF assms(1) q h(2) ld] assms(2) by (auto simp: p_def)
  moreover have "encode p = Inr (encodeHeader h @ d)"
    using v by (cases h) (simp add: encode_def p_def messageTypeCode_from
        messageTypeFromUint16_valid default_header_def ld)
  ultimately show ?thesis
    using assms(2) q by auto
qed

lemma decode_incomplete_D:
  assumes "decode b = Some (INCOMPLETE_PACKET, po, b')"
  shows "po = None" "b' = b"
  using assms
  by (auto simp: decode_def validateHeader_def Let_def bind_eq_Some_conv
      split: if_splits option.splits)

lemma decode_error_D:
  assumes "decode b = Some (e, po, b')" "e \<noteq> OK" "e \<noteq> INCOMPLETE_PACKET" "buffer_inv b"
  shows "po = None \<and> b' = retrieveAll b"
  using assms peek_all [of b]
  by (auto simp: decode_def decodeHeader_def Let_def bind_eq_Some_conv split: if_splits option.splits)

lemma decode_total:
  assumes "buffer_inv b"
  shows "\<exists>e po b'. decode b = Some (e, po, b') \<and> buffer_inv b'"
proof (cases "decode b")
  case None
  then obtain h where h: "decodeHeader (queue_of b) = Some h" "validateHeader h = OK"
    "kPacketHeaderLength + unat (body_length h) \<le> readableBytes b"
    by (auto simp: decode_def peek_all Let_def not_less split: if_splits option.splits)
  let ?d = "drop kPacketHeaderLength (queue_of b)"
  have "queue_of b = encodeHeader h @ take (unat (body_length h)) ?d @ drop (unat (body_length h)) ?d"
    unfolding encodeHeader_decodeHeader [OF h(1)] by (simp only: append_take_drop_id)
  then show ?thesis
    using decode_valid [OF assms _ h(2)] h(3) length_queue_of [OF assms] by fastforce
next
  case (Some r)
  obtain e po b' where r: "decode b = Some (e, po, b')"
    using Some by (cases r) auto
  have "buffer_inv b'"
  proof (cases "e = OK \<or> e = INCOMPLETE_PACKET")
    case True
    then show ?thesis
      using decode_OK_D [OF assms] decode_incomplete_D r assms by blast
  next
    case False
    then show ?thesis
      using decode_error_D [OF r _ _ assms] assms by (simp add: inv_intros)
  qed
  then show ?thesis
    using r by blast
qed

lemma decode_partial:
  assumes "buffer_inv b" "encode p = Inr w" "strict_prefix (queue_of b) w"
  shows "decode b = Some (INCOMPLETE_PACKET, None, b)"
proof (cases "readableBytes b < kPacketHeaderLength")
  case True
  then show ?thesis by (simp add: decode_def)
next
  case False
  let ?h = "default_header\<lparr>header_type := messageTypeCode (packet_type p),
    header_sequence_id := sequence_id p, body_length := of_nat (length (body p))\<rparr>"
  note e = encode_InrD [OF assms(2)]
  obtain r where r: "w = queue_of b @ r" "r \<noteq> []"
    using assms(3) by (auto simp: strict_prefix_def prefix_def)
  have "prefix (encodeHeader ?h) (queue_of b)"
  proof (rule prefix_length_prefix)
    show "prefix (encodeHeader ?h) w"
      using e(3) by simp
    show "prefix (queue_of b) w"
      using r(1) by simp
    show "length (encodeHeader ?h) \<le> length (queue_of b)"
      using False length_queue_of [OF assms(1)] by simp
  qed
  then obtain d where d: "queue_of b = encodeHeader ?h @ d"
    by (auto simp: prefix_def)
  have "body p = d @ r"
    using r(1) e(3) d by simp
  then have "readableBytes b < kPacketHeaderLength + unat (body_length ?h)"
    using r(2) d length_queue_of [OF assms(1)] unat_body_length [OF e(2)] by (cases r) auto
  moreover have "validateHeader ?h = OK"
    using e(1,2) unat_body_length [OF e(2)]
    by (simp add: validateHeader_def default_header_def wire_simps)
  moreover have "decodeHeader (queue_of b) = Some ?h"
    by (simp add: d decodeHeader_encodeHeader)
  ultimately show ?thesis
    by (simp add: decode_def peek_all)
qed

section \<open>Properties\<close>

text \<open>
  C16. Decoding inverts encoding on a byte stream: whenever the bytes queued in a well-formed buffer
  begin with the encoding of a packet, decoding reports OK, returns exactly that packet and leaves
  exactly the bytes that follow it.
\<close>

theorem decode_encode_roundtrip:
  assumes "buffer_inv b" and "encode p = Inr w" and "queue_of b = w @ rest"
  shows "\<exists>b'. decode b = Some (OK, Some p, b') \<and> buffer_inv b' \<and> queue_of b' = rest"
  using assms by (rule decode_stream_step)

theorem decode_encode_roundtrip_witness:
  "let p = \<lparr>packet_type = HEARTBEAT_REQ, sequence_id = 7, body = [1, 2]\<rparr>;
       w = [0x4E, 0x49, 0x4D, 0x42, 0, 1, 4, 0x4D, 0, 0, 0, 7, 0, 0, 0, 2, 1, 2];
       b = \<lparr>buffer_data = replicate 8 0 @ w @ [0x4E], reader_index = 8, writer_index = 27\<rparr>
   in buffer_inv b \<and> encode p = Inr w \<and> queue_of b = w @ [0x4E]
     \<and> (\<exists>b'. decode b = Some (OK, Some p, b') \<and> buffer_inv b' \<and> queue_of b' = [0x4E])"
proof -
  define p :: Packet where "p = \<lparr>packet_type = HEARTBEAT_REQ, sequence_id = 7, body = [1, 2]\<rparr>"
  define w :: bytes where
    "w = [0x4E, 0x49, 0x4D, 0x42, 0, 1, 4, 0x4D, 0, 0, 0, 7, 0, 0, 0, 2, 1, 2]"
  define b where
    "b = \<lparr>buffer_data = replicate 8 0 @ w @ [0x4E], reader_index = 8, writer_index = 27\<rparr>"
  have "buffer_inv b" "encode p = Inr w" "queue_of b = w @ [0x4E]"
    by (simp_all add: b_def p_def w_def buffer_inv_def queue_of_def readableBytes_def
        kCheapPrepend_def encode_def isValidMessageType_def messageTypeFromUint16_def
        validMessageTypes_def kMaxBodyLength_def encodeHeader_def
        default_header_def kProtocolMagic_def kProtocolVersion_def be16_def be32_def)
  then show ?thesis
    using decode_encode_roundtrip [of b p w "[0x4E]"] by (simp add: Let_def b_def p_def w_def)
qed

text \<open>
  C17. Decoding classifies every queue of bytes and never trips a buffer assertion. It reports OK
  exactly for a queue that starts with the encoding of the packet it returns, and then it consumes
  that encoding; it reports an incomplete packet only when no complete packet is queued, and then it
  leaves the buffer as it is; any other error empties the buffer, and then the queue could not have
  been continued to, nor started with, any encoded packet.
\<close>

theorem decode_classification:
  assumes "buffer_inv b"
  shows "\<exists>e po b'. decode b = Some (e, po, b') \<and> buffer_inv b' \<and>
     (if e = OK
      then \<exists>p w. po = Some p \<and> encode p = Inr w \<and> queue_of b = w @ queue_of b'
      else if e = INCOMPLETE_PACKET
      then po = None \<and> b' = b \<and> (\<nexists>p w. encode p = Inr w \<and> prefix w (queue_of b))
      else po = None \<and> queue_of b' = []
         \<and> (\<nexists>p w. encode p = Inr w \<and> (prefix w (queue_of b) \<or> prefix (queue_of b) w)))"
proof -
  obtain e po b' where d: "decode b = Some (e, po, b')" "buffer_inv b'"
    using decode_total [OF assms] by blast
  have complete: "e = OK" if "encode p = Inr w" "prefix w (queue_of b)" for p w
    using decode_stream_step [OF assms that(1)] that(2) d by (fastforce simp: prefix_def)
  have partly: "e = INCOMPLETE_PACKET" if "encode p = Inr w" "strict_prefix (queue_of b) w" for p w
    using decode_partial [OF assms that] d by simp
  consider "e = OK" | "e = INCOMPLETE_PACKET" | "e \<noteq> OK" "e \<noteq> INCOMPLETE_PACKET"
    by blast
  then show ?thesis
  proof cases
    case 1
    then show ?thesis
      using decode_OK_D [OF assms, of po b'] d by auto
  next
    case 2
    then show ?thesis
      using decode_incomplete_D [of b po b'] complete d by auto
  next
    case 3
    then show ?thesis
      using decode_error_D [OF d(1) _ _ assms] complete partly d
      by (auto simp: strict_prefix_def)
  qed
qed

theorem decode_classification_witness:
  "buffer_inv new_buffer \<and> decode new_buffer = Some (INCOMPLETE_PACKET, None, new_buffer)
   \<and> (\<exists>e po b'. decode new_buffer = Some (e, po, b') \<and> buffer_inv b' \<and>
     (if e = OK
      then \<exists>p w. po = Some p \<and> encode p = Inr w \<and> queue_of new_buffer = w @ queue_of b'
      else if e = INCOMPLETE_PACKET
      then po = None \<and> b' = new_buffer \<and> (\<nexists>p w. encode p = Inr w \<and> prefix w (queue_of new_buffer))
      else po = None \<and> queue_of b' = []
         \<and> (\<nexists>p w. encode p = Inr w \<and> (prefix w (queue_of new_buffer) \<or> prefix (queue_of new_buffer) w))))"
proof (intro conjI)
  show "buffer_inv new_buffer"
    by (rule buffer_inv_new)
  then show "\<exists>e po b'. decode new_buffer = Some (e, po, b') \<and> buffer_inv b' \<and>
     (if e = OK
      then \<exists>p w. po = Some p \<and> encode p = Inr w \<and> queue_of new_buffer = w @ queue_of b'
      else if e = INCOMPLETE_PACKET
      then po = None \<and> b' = new_buffer \<and> (\<nexists>p w. encode p = Inr w \<and> prefix w (queue_of new_buffer))
      else po = None \<and> queue_of b' = []
         \<and> (\<nexists>p w. encode p = Inr w \<and> (prefix w (queue_of new_buffer) \<or> prefix (queue_of new_buffer) w)))"
    by (rule decode_classification)
qed (simp add: decode_def new_buffer_def readableBytes_def kPacketHeaderLength_def)

end
