(* ===== verification/WebSocket_Frame.thy ===== *)
theory WebSocket_Frame
  imports Net_Buffer
begin

text \<open>
  WebSocket framing of \<^verbatim>\<open>common/websocket/WebSocketFrame.cpp\<close> and the codec of \<^verbatim>\<open>WebSocketCodec.cpp\<close>
  that runs it on a connection's buffer. The random masking key is an argument of the encoder. The
  theorems: every frame a peer may send is decoded to its payload, whatever its length class and
  masking key; a proper prefix of such a frame is never rejected; an accepted frame is masked,
  final, and within the control frame limit.
\<close>

section \<open>Data\<close>

datatype WebSocketOpCode = CONTINUATION | TEXT | BINARY | CLOSE | PING | PONG

primrec opCodeValue :: "WebSocketOpCode \<Rightarrow> byte" where
  "opCodeValue CONTINUATION = 0x0"
| "opCodeValue TEXT = 0x1"
| "opCodeValue BINARY = 0x2"
| "opCodeValue CLOSE = 0x8"
| "opCodeValue PING = 0x9"
| "opCodeValue PONG = 0xA"

datatype WebSocketFrameStatus = FRAME_OK | FRAME_INCOMPLETE | FRAME_PROTOCOL_ERROR

record WebSocketFrame =
  fin :: bool
  opcode :: WebSocketOpCode
  masked :: bool
  payload :: bytes

definition isControlOpCode :: "WebSocketOpCode \<Rightarrow> bool" where
  "isControlOpCode c \<longleftrightarrow> c = CLOSE \<or> c = PING \<or> c = PONG"

text \<open>The cast of a raw opcode to the enumeration, when it is one of the case labels.\<close>

definition opCodeOf :: "byte \<Rightarrow> WebSocketOpCode option" where
  "opCodeOf v = find (\<lambda>c. opCodeValue c = v) [CONTINUATION, TEXT, BINARY, CLOSE, PING, PONG]"

definition isKnownOpCode :: "byte \<Rightarrow> bool" where
  "isKnownOpCode v \<longleftrightarrow> opCodeOf v \<noteq> None"

definition readBigEndian :: "bytes \<Rightarrow> 64 word" where
  "readBigEndian d = foldl (\<lambda>value c. push_bit 8 value OR ucast c) 0 d"

definition appendBigEndian :: "64 word \<Rightarrow> nat \<Rightarrow> bytes" where
  "appendBigEndian value len = map (\<lambda>i. ucast (drop_bit ((len - 1 - i) * 8) value AND 0xFF)) [0..<len]"

definition apply_mask :: "bytes \<Rightarrow> bytes \<Rightarrow> bytes" where
  "apply_mask key d = map (\<lambda>i. d ! i XOR key ! (i mod 4)) [0..<length d]"

section \<open>Frame codec\<close>

text \<open>
  The decoder in its three stages; \<open>Inl\<close> is an early return. First the two fixed bytes (the result is
  the final flag, the opcode and the mask flag), then the extended payload length (the result is the
  length and the new offset), then masking key and payload.
\<close>

definition ws_check_header ::
  "bytes \<Rightarrow> bool \<Rightarrow> WebSocketFrameStatus + (bool \<times> WebSocketOpCode \<times> bool)" where
  "ws_check_header d require_mask =
     (if length d < 2 then Inl FRAME_INCOMPLETE
      else
        let b0 = d ! 0; b1 = d ! 1;
            f = (b0 AND 0x80 \<noteq> 0); rsv = (b0 AND 0x70 \<noteq> 0); opcode_raw = b0 AND 0x0F in
        if rsv \<or> \<not> isKnownOpCode opcode_raw then Inl FRAME_PROTOCOL_ERROR
        else let oc = the (opCodeOf opcode_raw) in
        if \<not> f \<or> oc = CONTINUATION then Inl FRAME_PROTOCOL_ERROR
        else let m = (b1 AND 0x80 \<noteq> 0) in
        if require_mask \<and> \<not> m then Inl FRAME_PROTOCOL_ERROR
        else Inr (f, oc, m))"

definition ws_payload_length :: "bytes \<Rightarrow> WebSocketFrameStatus + (64 word \<times> nat)" where
  "ws_payload_length d =
     (let payload_len = d ! 1 AND 0x7F in
      if payload_len = 126 then
        (if length d < 2 + 2 then Inl FRAME_INCOMPLETE
         else Inr (readBigEndian (take 2 (drop 2 d)), 4))
      else if payload_len = 127 then
        (if length d < 2 + 8 then Inl FRAME_INCOMPLETE
         else let v = readBigEndian (take 8 (drop 2 d)) in
              if drop_bit 63 v \<noteq> 0 then Inl FRAME_PROTOCOL_ERROR else Inr (v, 10))
      else Inr (ucast payload_len, 2))"

definition ws_read_payload ::
  "bytes \<Rightarrow> bool \<times> WebSocketOpCode \<times> bool \<Rightarrow> 64 word \<times> nat \<Rightarrow> WebSocketFrameStatus + (WebSocketFrame \<times> nat)" where
  "ws_read_payload d = (\<lambda>(f, oc, m) (payload_len, offset).
     if isControlOpCode oc \<and> payload_len > 125 then Inl FRAME_PROTOCOL_ERROR
     else if m \<and> length d < offset + 4 then Inl FRAME_INCOMPLETE
     else
       let mask_key = (if m then take 4 (drop offset d) else [0, 0, 0, 0]);
           offset' = (if m then offset + 4 else offset) in
       if unat payload_len > length d - offset' then Inl FRAME_INCOMPLETE
       else if unat payload_len > 2 ^ 64 - 1 then Inl FRAME_PROTOCOL_ERROR
       else
         let pl = take (unat payload_len) (drop offset' d) in
         Inr (\<lparr>fin = f, opcode = oc, masked = m,
                payload = (if m then apply_mask mask_key pl else pl)\<rparr>,
              offset' + unat payload_len))"

text \<open>Status, the frame when it is written, and the number of bytes consumed.\<close>

definition ws_decode ::
  "bytes \<Rightarrow> bool \<Rightarrow> WebSocketFrameStatus \<times> WebSocketFrame option \<times> nat" where
  "ws_decode d require_mask =
     (case ws_check_header d require_mask of
        Inl st \<Rightarrow> (st, None, 0)
      | Inr hdr \<Rightarrow>
          (case ws_payload_length d of
             Inl st \<Rightarrow> (st, None, 0)
           | Inr len \<Rightarrow>
               (case ws_read_payload d hdr len of
                  Inl st \<Rightarrow> (st, None, 0)
                | Inr (frame, consumed) \<Rightarrow> (FRAME_OK, Some frame, consumed))))"

text \<open>\<open>Some key\<close> is \<open>mask_payload = true\<close> with the four bytes \<open>randomMask\<close> returned.\<close>

definition ws_encode :: "WebSocketOpCode \<Rightarrow> bytes \<Rightarrow> bytes option \<Rightarrow> bytes" where
  "ws_encode c pl key_opt =
     (let mask_bit = (if key_opt \<noteq> None then 0x80 else 0x00);
          n = length pl;
          len_field =
            (if n \<le> 125 then [mask_bit OR of_nat n]
             else if n \<le> 0xFFFF then (mask_bit OR 126) # appendBigEndian (of_nat n) 2
             else (mask_bit OR 127) # appendBigEndian (of_nat n) 8)
      in (0x80 OR opCodeValue c) # len_field
         @ (case key_opt of None \<Rightarrow> pl | Some key \<Rightarrow> key @ apply_mask key pl))"

section \<open>Codec on a buffer\<close>

datatype WebSocketCodecStatus = CODEC_OK | CODEC_INCOMPLETE | CODEC_PROTOCOL_ERROR

definition decodeFrame :: "Buffer \<Rightarrow> (WebSocketCodecStatus \<times> WebSocketFrame option \<times> Buffer) option" where
  "decodeFrame b =
     (case ws_decode (peek (readableBytes b) b) True of
        (FRAME_INCOMPLETE, _, _) \<Rightarrow> Some (CODEC_INCOMPLETE, None, b)
      | (FRAME_PROTOCOL_ERROR, _, _) \<Rightarrow> Some (CODEC_PROTOCOL_ERROR, None, retrieveAll b)
      | (FRAME_OK, fr, consumed) \<Rightarrow> map_option (\<lambda>b'. (CODEC_OK, fr, b')) (retrieve consumed b))"

definition encodeBinary :: "bytes \<Rightarrow> bytes" where
  "encodeBinary packet_bytes = ws_encode BINARY packet_bytes None"

definition encodeText :: "bytes \<Rightarrow> bytes" where
  "encodeText t = ws_encode TEXT t None"

definition encodePong :: "bytes \<Rightarrow> bytes" where
  "encodePong p = ws_encode PONG p None"

definition encodeClose :: "bytes \<Rightarrow> bytes" where
  "encodeClose reason = ws_encode CLOSE reason None"

section \<open>Big-endian lengths and masking\<close>

lemma length_appendBigEndian [simp]: "length (appendBigEndian v n) = n"
  by (simp add: appendBigEndian_def)

lemma appendBigEndian_Suc:
  "appendBigEndian v (Suc n) = appendBigEndian (drop_bit 8 v) n @ [ucast (v AND 0xFF)]"
proof -
  have "(n - i) * 8 = (n - 1 - i) * 8 + 8" if "i < n" for i
    using that by (simp add: algebra_simps)
  then show ?thesis
    by (auto simp: appendBigEndian_def drop_bit_drop_bit ac_simps)
qed

lemma readBigEndian_snoc: "readBigEndian (d @ [c]) = push_bit 8 (readBigEndian d) OR ucast c"
  by (simp add: readBigEndian_def)

lemma readBigEndian_append: "readBigEndian (appendBigEndian v n) = take_bit (8 * n) v"
proof (induction n arbitrary: v)
  case 0
  then show ?case by (simp add: readBigEndian_def appendBigEndian_def)
next
  case (Suc n)
  have "push_bit 8 (take_bit (8 * n) (drop_bit 8 v)) OR ucast (ucast (v AND 0xFF) :: byte)
      = take_bit (8 * Suc n) v"
  proof (rule bit_word_eqI)
    fix k
    have mask: "(0xFF :: 64 word) = mask 8"
      by (simp add: mask_eq_exp_minus_1)
    assume "k < LENGTH(64)"
    then show "bit (push_bit 8 (take_bit (8 * n) (drop_bit 8 v)) OR ucast (ucast (v AND 0xFF) :: byte)) k
        = bit (take_bit (8 * Suc n) v) k"
      unfolding mask by (cases "k < 8") (auto simp: bit_simps)
  qed
  then show ?case
    by (simp add: appendBigEndian_Suc readBigEndian_snoc Suc.IH)
qed

lemma length_apply_mask [simp]: "length (apply_mask key d) = length d"
  by (simp add: apply_mask_def)

lemma apply_mask_twice: "apply_mask key (apply_mask key d) = d"
  by (rule nth_equalityI) (simp_all add: apply_mask_def xor.assoc)

lemma opCodeOf_value [simp]: "opCodeOf (opCodeValue c) = Some c"
  by (cases c) (simp_all add: opCodeOf_def)

section \<open>Round trip\<close>

lemma first_byte [wire_simps]:
  "(0x80 OR opCodeValue c) AND 0x80 \<noteq> 0" "(0x80 OR opCodeValue c) AND 0x70 = 0"
  "(0x80 OR opCodeValue c) AND 0x0F = opCodeValue c"
  by (cases c; simp)+

lemma length_byte:
  assumes "n < 128"
  shows "(of_nat n :: byte) AND 0x7F = of_nat n" "(of_nat n :: byte) AND 0x80 = 0"
    "(0x80 OR of_nat n :: byte) AND 0x7F = of_nat n" "(0x80 OR of_nat n :: byte) AND 0x80 = 0x80"
proof -
  have m: "(0x7F :: byte) = mask 7"
    by (simp add: mask_eq_exp_minus_1)
  have e: "bit (0x80 :: int) k \<longleftrightarrow> k = 7" "bit (0x80 :: nat) k \<longleftrightarrow> k = 7" for k
    using bit_exp_iff [where 'a = int, of 7 k] bit_exp_iff [where 'a = nat, of 7 k] by auto
  have hi: "k < 7" if "bit n k" for k
  proof (rule ccontr)
    assume "\<not> k < 7"
    then have "n < 2 ^ k"
      using assms power_increasing [of 7 k "2 :: nat"] by simp
    then show False
      using that by (simp add: bit_iff_odd)
  qed
  show "(of_nat n :: byte) AND 0x7F = of_nat n" "(of_nat n :: byte) AND 0x80 = 0"
    "(0x80 OR of_nat n :: byte) AND 0x7F = of_nat n" "(0x80 OR of_nat n :: byte) AND 0x80 = 0x80"
    unfolding m by (rule bit_word_eqI; auto simp: bit_simps e dest: hi)+
qed

lemma of_nat_byte_ne:
  assumes "n \<le> 125"
  shows "(of_nat n :: byte) \<noteq> 126" "(of_nat n :: byte) \<noteq> 127"
proof -
  have u: "unat (of_nat n :: byte) = n"
    using assms by (simp add: unsigned_of_nat take_bit_nat_eq_self_iff)
  show "(of_nat n :: byte) \<noteq> 126" "(of_nat n :: byte) \<noteq> 127"
    using assms by (auto dest!: arg_cong [of _ _ unat] simp: u)
qed

lemma length_bytes_126_127 [wire_simps]:
  "(0x80 OR 126 :: byte) AND 0x7F = 126" "(0x80 OR 127 :: byte) AND 0x7F = 127"
  "(0x80 OR 126 :: byte) AND 0x80 \<noteq> 0" "(0x80 OR 127 :: byte) AND 0x80 \<noteq> 0"
  "(0 OR 126 :: byte) AND 0x7F = 126" "(0 OR 127 :: byte) AND 0x7F = 127"
  "(0 OR 126 :: byte) AND 0x80 = 0" "(0 OR 127 :: byte) AND 0x80 = 0"
  by simp_all

lemma unat_of_nat_63:
  assumes "n < 2 ^ 63"
  shows "unat (of_nat n :: 64 word) = n" "drop_bit 63 (of_nat n :: 64 word) = 0"
proof -
  show u: "unat (of_nat n :: 64 word) = n"
    using assms by (simp add: unsigned_of_nat take_bit_nat_eq_self_iff)
  have "unat (drop_bit 63 (of_nat n :: 64 word)) = 0"
    using assms unfolding unsigned_drop_bit_eq u by (simp add: drop_bit_eq_div take_bit_nat_eq_self)
  then show "drop_bit 63 (of_nat n :: 64 word) = 0"
    by (simp only: unat_eq_0)
qed

lemma read_length_field:
  "n \<le> 0xFFFF \<Longrightarrow> readBigEndian (appendBigEndian (of_nat n) 2) = of_nat n"
  "readBigEndian (appendBigEndian v 8) = v"
  by (simp_all add: readBigEndian_append take_bit_of_nat take_bit_nat_eq_self take_bit_word_eq_self)

lemma ws_encode_header:
  fixes c pl k rest
  defines "e \<equiv> ws_encode c pl k @ rest"
    and "tail \<equiv> (case k of None \<Rightarrow> pl | Some key \<Rightarrow> key @ apply_mask key pl) @ rest"
  assumes "length pl < 2 ^ 63"
  shows "e ! 0 = 0x80 OR opCodeValue c \<and> (e ! 1 AND 0x80 \<noteq> 0 \<longleftrightarrow> k \<noteq> None)
    \<and> (\<exists>off. ws_payload_length e = Inr (of_nat (length pl), off) \<and> 2 \<le> off \<and> drop off e = tail
         \<and> length e = off + length tail)"
proof -
  consider "length pl \<le> 125" | "125 < length pl" "length pl \<le> 0xFFFF" | "0xFFFF < length pl"
    by linarith
  then show ?thesis
  proof cases
    case 1
    then have l: "length pl < 128" and c: "ucast (of_nat (length pl) :: byte) = (of_nat (length pl) :: 64 word)"
      by (simp_all add: unsigned_ucast_eq word_eq_iff_unsigned unsigned_of_nat take_bit_nat_eq_self)
    show ?thesis
      using 1 c length_byte [OF l] of_nat_byte_ne [OF 1]
      by (auto simp: e_def tail_def ws_encode_def Let_def ws_payload_length_def)
  next
    case 2
    then show ?thesis
      by (auto simp: e_def tail_def ws_encode_def Let_def ws_payload_length_def read_length_field)
  next
    case 3
    then show ?thesis
      using assms(3)
      by (auto simp: e_def tail_def ws_encode_def Let_def ws_payload_length_def read_length_field
          unat_of_nat_63)
  qed
qed

lemma ws_decode_shape:
  assumes "2 \<le> length d" "d ! 0 = 0x80 OR opCodeValue c" "c \<noteq> CONTINUATION"
    "(d ! 1 AND 0x80 \<noteq> 0) = m" "require_mask \<longrightarrow> m" "ws_payload_length d = Inr (v, off)"
    "\<not> (isControlOpCode c \<and> v > 125)"
    "length d \<ge> off + (if m then 4 else 0) + unat v" "unat v < 2 ^ 63"
  shows "ws_decode d require_mask
     = (FRAME_OK, Some \<lparr>fin = True, opcode = c, masked = m,
          payload = (if m then apply_mask (take 4 (drop off d)) (take (unat v) (drop (off + 4) d))
                     else take (unat v) (drop off d))\<rparr>,
        off + (if m then 4 else 0) + unat v)"
proof -
  have "ws_check_header d require_mask = Inr (True, c, m)"
    using assms(1-5) by (simp add: ws_check_header_def wire_simps isKnownOpCode_def Let_def)
  moreover have "unat v \<le> 2 ^ 64 - 1"
    using assms(9) by simp
  ultimately show ?thesis
    using assms(6-8) by (cases m) (auto simp: ws_decode_def ws_read_payload_def Let_def)
qed

lemma ws_decode_encode:
  assumes "c \<noteq> CONTINUATION" "isControlOpCode c \<Longrightarrow> length pl \<le> 125" "length pl < 2 ^ 63"
    "\<And>key. k = Some key \<Longrightarrow> length key = 4" "require_mask \<Longrightarrow> k \<noteq> None"
  shows "ws_decode (ws_encode c pl k @ rest) require_mask
     = (FRAME_OK, Some \<lparr>fin = True, opcode = c, masked = (k \<noteq> None), payload = pl\<rparr>,
        length (ws_encode c pl k))"
proof -
  define e where "e = ws_encode c pl k @ rest"
  define t where "t = (case k of None \<Rightarrow> pl | Some key \<Rightarrow> key @ apply_mask key pl)"
  obtain off where h: "e ! 0 = 0x80 OR opCodeValue c" "(e ! 1 AND 0x80 \<noteq> 0) = (k \<noteq> None)"
    "ws_payload_length e = Inr (of_nat (length pl), off)" "2 \<le> off" "drop off e = t @ rest"
    "length e = off + length (t @ rest)"
    using ws_encode_header [OF assms(3), of c k rest] unfolding e_def t_def by blast
  note u = unat_of_nat_63(1) [OF assms(3)]
  have ctl: "\<not> (isControlOpCode c \<and> (of_nat (length pl) :: 64 word) > 125)"
    using assms(2) u by (auto simp: word_less_nat_alt)
  have lt: "length t = (if k \<noteq> None then 4 else 0) + length pl"
    using assms(4) by (cases k) (auto simp: t_def)
  have len: "length (ws_encode c pl k) = off + length t"
    using h(6) by (simp add: e_def)
  have "ws_decode e require_mask
     = (FRAME_OK, Some \<lparr>fin = True, opcode = c, masked = (k \<noteq> None),
          payload = (if k \<noteq> None
                     then apply_mask (take 4 (drop off e)) (take (length pl) (drop (off + 4) e))
                     else take (length pl) (drop off e))\<rparr>,
        off + length t)"
    using ws_decode_shape [OF _ h(1) assms(1) h(2) _ h(3) ctl] h(4,6) lt assms(3,5) u by simp
  moreover have "drop (off + 4) e = apply_mask key pl @ rest" if "k = Some key" for key
    using h(5) assms(4) that by (simp add: t_def add.commute [of off] flip: drop_drop)
  ultimately show ?thesis
    unfolding e_def [symmetric]
    using h(5) len assms(4) by (cases k) (simp_all add: t_def apply_mask_twice)
qed

section \<open>Decisions are stable under more input\<close>

lemma ws_check_header_more:
  assumes "ws_check_header d require_mask \<noteq> Inl FRAME_INCOMPLETE"
  shows "ws_check_header (d @ x) require_mask = ws_check_header d require_mask" "2 \<le> length d"
proof -
  show len: "2 \<le> length d"
    using assms by (auto simp: ws_check_header_def split: if_splits)
  then have "(d @ x) ! 0 = d ! 0" "(d @ x) ! 1 = d ! 1"
    by (auto simp: nth_append)
  then show "ws_check_header (d @ x) require_mask = ws_check_header d require_mask"
    using len by (simp add: ws_check_header_def)
qed

lemma ws_check_header_D:
  assumes "ws_check_header d require_mask = Inr (f, oc, m)"
  shows "f" "oc \<noteq> CONTINUATION" "require_mask \<longrightarrow> m"
  using assms by (simp_all add: ws_check_header_def Let_def split: if_splits)

lemma ws_payload_length_more:
  assumes "2 \<le> length d" "ws_payload_length d \<noteq> Inl FRAME_INCOMPLETE"
  shows "ws_payload_length (d @ x) = ws_payload_length d"
proof -
  have "(d @ x) ! 1 = d ! 1"
    using assms(1) by (simp add: nth_append)
  then show ?thesis
    using assms by (auto simp: ws_payload_length_def Let_def split: if_splits)
qed

lemma ws_payload_length_D:
  assumes "ws_payload_length d = Inr (v, off)" "2 \<le> length d"
  shows "2 \<le> off" "off \<le> length d"
  using assms by (auto simp: ws_payload_length_def Let_def split: if_splits)

lemma ws_payload_length_Inl:
  "ws_payload_length d = Inl st \<Longrightarrow> st = FRAME_INCOMPLETE \<or> st = FRAME_PROTOCOL_ERROR"
  by (auto simp: ws_payload_length_def Let_def split: if_splits)

lemma ws_read_payload_more:
  assumes "ws_read_payload d hdr (v, off) \<noteq> Inl FRAME_INCOMPLETE" "off \<le> length d"
  shows "ws_read_payload (d @ x) hdr (v, off) = ws_read_payload d hdr (v, off)"
  using assms by (cases hdr) (auto simp: ws_read_payload_def Let_def split: if_splits)

lemma ws_read_payload_D:
  assumes "ws_read_payload d (f, oc, m) (v, off) = Inr (fr, n)" "2 \<le> off" "off \<le> length d"
  shows "fin fr = f" "opcode fr = oc" "masked fr = m"
    "isControlOpCode oc \<longrightarrow> length (payload fr) \<le> 125"
    "length (payload fr) < n" "n \<le> length d"
  using assms
  by (auto simp: ws_read_payload_def Let_def word_less_nat_alt not_less split: if_splits)

lemma ws_decode_more:
  assumes "fst (ws_decode d require_mask) \<noteq> FRAME_INCOMPLETE"
  shows "ws_decode (d @ x) require_mask = ws_decode d require_mask"
proof -
  have h: "ws_check_header d require_mask \<noteq> Inl FRAME_INCOMPLETE"
    using assms by (auto simp: ws_decode_def)
  note hm = ws_check_header_more [OF h]
  show ?thesis
  proof (cases "ws_check_header d require_mask")
    case (Inl st)
    then show ?thesis by (simp add: ws_decode_def hm(1))
  next
    case hdr: (Inr hdr)
    have l: "ws_payload_length d \<noteq> Inl FRAME_INCOMPLETE"
      using assms hdr by (auto simp: ws_decode_def)
    note lm = ws_payload_length_more [OF hm(2) l]
    show ?thesis
    proof (cases "ws_payload_length d")
      case (Inl st)
      then show ?thesis by (simp add: ws_decode_def hm(1) hdr lm)
    next
      case (Inr r)
      obtain v off where r: "ws_payload_length d = Inr (v, off)"
        using Inr by (cases r) auto
      have "ws_read_payload d hdr (v, off) \<noteq> Inl FRAME_INCOMPLETE"
        using assms hdr r by (auto simp: ws_decode_def)
      then show ?thesis
        using ws_read_payload_more ws_payload_length_D(2) [OF r hm(2)]
        by (simp add: ws_decode_def hm(1) hdr lm r)
    qed
  qed
qed

lemma ws_decode_OK_D:
  assumes "ws_decode d require_mask = (FRAME_OK, fo, n)"
  shows "\<exists>f. fo = Some f \<and> fin f \<and> opcode f \<noteq> CONTINUATION \<and> (require_mask \<longrightarrow> masked f)
     \<and> (isControlOpCode (opcode f) \<longrightarrow> length (payload f) \<le> 125)
     \<and> length (payload f) < n \<and> n \<le> length d"
proof -
  have h: "ws_check_header d require_mask \<noteq> Inl FRAME_INCOMPLETE"
    "ws_check_header d require_mask \<noteq> Inl FRAME_OK"
    using assms by (auto simp: ws_decode_def ws_check_header_def Let_def split: if_splits)
  then obtain f oc m where hdr: "ws_check_header d require_mask = Inr (f, oc, m)"
    using assms by (cases "ws_check_header d require_mask") (auto simp: ws_decode_def)
  obtain v off where r: "ws_payload_length d = Inr (v, off)"
    using assms hdr ws_payload_length_Inl [of d]
    by (cases "ws_payload_length d") (auto simp: ws_decode_def)
  have "ws_read_payload d (f, oc, m) (v, off) \<noteq> Inl FRAME_OK"
    by (simp add: ws_read_payload_def Let_def)
  then obtain fr where fr: "ws_read_payload d (f, oc, m) (v, off) = Inr (fr, n)" "fo = Some fr"
    using assms hdr r
    by (cases "ws_read_payload d (f, oc, m) (v, off)") (auto simp: ws_decode_def)
  show ?thesis
    using ws_check_header_D [OF hdr] fr(2)
      ws_read_payload_D [OF fr(1) ws_payload_length_D [OF r ws_check_header_more(2) [OF h(1)]]]
    by auto
qed

lemma ws_decode_prefix:
  assumes "c \<noteq> CONTINUATION" "isControlOpCode c \<Longrightarrow> length pl \<le> 125" "length pl < 2 ^ 63"
    "\<And>key. k = Some key \<Longrightarrow> length key = 4" "require_mask \<Longrightarrow> k \<noteq> None"
    "strict_prefix d (ws_encode c pl k)"
  shows "fst (ws_decode d require_mask) = FRAME_INCOMPLETE"
proof (rule ccontr)
  assume ne: "fst (ws_decode d require_mask) \<noteq> FRAME_INCOMPLETE"
  obtain x where x: "ws_encode c pl k = d @ x" "x \<noteq> []"
    using assms(6) by (auto simp: strict_prefix_def prefix_def)
  have "ws_decode d require_mask = ws_decode (ws_encode c pl k) require_mask"
    using ws_decode_more [OF ne, of x] x by simp
  moreover have "ws_decode (ws_encode c pl k) require_mask
     = (FRAME_OK, Some \<lparr>fin = True, opcode = c, masked = (k \<noteq> None), payload = pl\<rparr>,
        length (ws_encode c pl k))"
    using ws_decode_encode [of c pl k require_mask "[]"] assms(1-5) by simp
  ultimately show False
    using ws_decode_OK_D [of d require_mask] x by fastforce
qed

section \<open>Properties\<close>

text \<open>
  C19. A masked frame sent by a client is decoded by the gateway's codec to exactly its opcode and
  payload, for every payload length class, every masking key and whatever follows it in the buffer;
  exactly the frame's bytes are consumed and no buffer assertion fires.
\<close>

theorem decodeFrame_roundtrip:
  assumes "buffer_inv b" and "length key = 4" and "c \<noteq> CONTINUATION"
    and "isControlOpCode c \<longrightarrow> length pl \<le> 125" and "length pl < 2 ^ 63"
    and "queue_of b = ws_encode c pl (Some key) @ rest"
  shows "\<exists>b'. decodeFrame b
       = Some (CODEC_OK, Some \<lparr>fin = True, opcode = c, masked = True, payload = pl\<rparr>, b')
     \<and> buffer_inv b' \<and> queue_of b' = rest"
proof -
  have "ws_decode (queue_of b) True
     = (FRAME_OK, Some \<lparr>fin = True, opcode = c, masked = True, payload = pl\<rparr>,
        length (ws_encode c pl (Some key)))"
    using ws_decode_encode [of c pl "Some key" True rest] assms by simp
  moreover have "peek (readableBytes b) b = queue_of b"
    by (simp add: peek_def queue_of_def)
  ultimately show ?thesis
    using bufq.discard_law [OF assms(1), of "length (ws_encode c pl (Some key))"] assms(6)
    by (auto simp: decodeFrame_def)
qed

theorem decodeFrame_roundtrip_witness:
  "\<exists>b'. decodeFrame \<lparr>buffer_data = replicate 8 0 @ ws_encode TEXT [72, 105] (Some [1, 2, 3, 4]) @ [0x81],
            reader_index = 8, writer_index = 17\<rparr>
       = Some (CODEC_OK, Some \<lparr>fin = True, opcode = TEXT, masked = True, payload = [72, 105]\<rparr>, b')
     \<and> buffer_inv b' \<and> queue_of b' = [0x81]"
proof -
  let ?b = "\<lparr>buffer_data = replicate 8 0 @ ws_encode TEXT [72, 105] (Some [1, 2, 3, 4]) @ [0x81],
            reader_index = 8, writer_index = 17\<rparr>"
  have "length (ws_encode TEXT [72, 105] (Some [1, 2, 3, 4])) = 8"
    by (simp add: ws_encode_def)
  then have "buffer_inv ?b" "queue_of ?b = ws_encode TEXT [72, 105] (Some [1, 2, 3, 4]) @ [0x81]"
    by (simp_all add: buffer_inv_def kCheapPrepend_def queue_of_def readableBytes_def)
  then show ?thesis
    using decodeFrame_roundtrip [of ?b "[1, 2, 3, 4]" TEXT "[72, 105]" "[0x81]"]
    by (simp add: isControlOpCode_def)
qed

text \<open>
  C20. A frame that has only partly arrived is never rejected and never consumed: on every proper
  prefix of a legal masked frame the codec reports an incomplete frame and leaves the buffer alone.
\<close>

theorem decodeFrame_partial:
  assumes "buffer_inv b" and "length key = 4" and "c \<noteq> CONTINUATION"
    and "isControlOpCode c \<longrightarrow> length pl \<le> 125" and "length pl < 2 ^ 63"
    and "strict_prefix (queue_of b) (ws_encode c pl (Some key))"
  shows "decodeFrame b = Some (CODEC_INCOMPLETE, None, b)"
proof -
  have "fst (ws_decode (queue_of b) True) = FRAME_INCOMPLETE"
    by (rule ws_decode_prefix [of c pl "Some key"]) (use assms in auto)
  moreover have "peek (readableBytes b) b = queue_of b"
    by (simp add: peek_def queue_of_def)
  ultimately show ?thesis
    by (cases "ws_decode (queue_of b) True") (simp add: decodeFrame_def)
qed

theorem decodeFrame_partial_witness:
  "decodeFrame new_buffer = Some (CODEC_INCOMPLETE, None, new_buffer)"
  using decodeFrame_partial [OF buffer_inv_new, of "[1, 2, 3, 4]" PING "[]"]
  by (simp add: ws_encode_def isControlOpCode_def)

text \<open>
  C21. Whatever bytes a peer sends, the codec accepts only final, masked, non-continuation frames with
  control payloads of at most 125 bytes, never trips a buffer assertion, keeps the buffer
  well-formed, and empties the buffer on a protocol error.
\<close>

theorem decodeFrame_safe:
  assumes "buffer_inv b"
  shows "\<exists>st fo b'. decodeFrame b = Some (st, fo, b') \<and> buffer_inv b' \<and>
     (case st of
        CODEC_OK \<Rightarrow> (\<exists>f. fo = Some f \<and> fin f \<and> masked f \<and> opcode f \<noteq> CONTINUATION
           \<and> (isControlOpCode (opcode f) \<longrightarrow> length (payload f) \<le> 125)
           \<and> (\<exists>n > length (payload f). queue_of b' = drop n (queue_of b) \<and> n \<le> length (queue_of b)))
      | CODEC_INCOMPLETE \<Rightarrow> fo = None \<and> b' = b
      | CODEC_PROTOCOL_ERROR \<Rightarrow> fo = None \<and> queue_of b' = [])"
proof -
  obtain st fo n where d: "ws_decode (queue_of b) True = (st, fo, n)"
    by (cases "ws_decode (queue_of b) True") auto
  have pk: "peek (readableBytes b) b = queue_of b"
    by (simp add: peek_def queue_of_def)
  show ?thesis
  proof (cases st)
    case FRAME_OK
    then obtain f where f: "fo = Some f" "fin f" "opcode f \<noteq> CONTINUATION" "masked f"
      "isControlOpCode (opcode f) \<longrightarrow> length (payload f) \<le> 125" "length (payload f) < n"
      "n \<le> length (queue_of b)"
      using ws_decode_OK_D [of "queue_of b" True fo n] d by auto
    then show ?thesis
      using bufq.discard_law [OF assms f(7)] FRAME_OK d pk by (auto simp: decodeFrame_def)
  qed (use assms d pk in \<open>simp_all add: decodeFrame_def inv_intros\<close>)
qed

theorem decodeFrame_safe_witness:
  "buffer_inv new_buffer \<and> (\<exists>st fo b'. decodeFrame new_buffer = Some (st, fo, b') \<and> buffer_inv b')"
  using decodeFrame_safe [OF buffer_inv_new] buffer_inv_new by blast

end
