(* ===== verification/Cpp_Text.thy ===== *)
theory Cpp_Text
  imports Nebula_Prelude
begin

text \<open>
  The part of the C++ standard library's text handling that the components use, in the default
  locale: \<open>isspace\<close>, \<open>tolower\<close>, trimming, \<open>std::getline\<close> with a delimiter, whitespace separated
  extraction, \<open>std::to_string\<close> on unsigned values, and the integer parsers \<open>std::stoi\<close>, \<open>std::stoll\<close>
  and \<open>std::stoull\<close> (which accept leading white space and a sign and report how much they consumed).
\<close>

section \<open>Characters\<close>

definition isspace :: "char \<Rightarrow> bool" where
  "isspace c \<longleftrightarrow> c \<in> set [CHR '' '', CHR 0x09, CHR 0x0A, CHR 0x0B, CHR 0x0C, CHR 0x0D]"

definition tolower :: "char \<Rightarrow> char" where
  "tolower c =
     (let n = of_char c :: nat in if 65 \<le> n \<and> n \<le> 90 then char_of (n + 32) else c)"

definition isdigit :: "char \<Rightarrow> bool" where
  "isdigit c \<longleftrightarrow> (let n = of_char c :: nat in 48 \<le> n \<and> n \<le> 57)"

definition digit_value :: "char \<Rightarrow> nat" where
  "digit_value c = of_char c - 48"

definition digit_char :: "nat \<Rightarrow> char" where
  "digit_char d = char_of (48 + d)"

section \<open>Strings\<close>

definition trim :: "string \<Rightarrow> string" where
  "trim s = rev (dropWhile isspace (rev (dropWhile isspace s)))"

definition lower :: "string \<Rightarrow> string" where
  "lower s = map tolower s"

text \<open>
  The successive results of \<open>std::getline(stream, part, delim)\<close>: the delimiter ends a part and is
  dropped; a delimiter at the very end of the input does not start another part.
\<close>

function getlines :: "char \<Rightarrow> string \<Rightarrow> string list" where
  "getlines delim s =
     (if s = [] then []
      else takeWhile (\<lambda>c. c \<noteq> delim) s # getlines delim (drop 1 (dropWhile (\<lambda>c. c \<noteq> delim) s)))"
  by pat_completeness auto
termination
proof (relation "measure (\<lambda>(_, s). length s)", goal_cases)
  case (2 delim s)
  then show ?case
    using length_dropWhile_le [of "\<lambda>c. c \<noteq> delim" s] by (cases s) (auto simp: le_imp_less_Suc)
qed simp

declare getlines.simps [simp del]

text \<open>The successive results of \<open>stream >> word\<close>.\<close>

function stream_words :: "string \<Rightarrow> string list" where
  "stream_words s =
     (let t = dropWhile isspace s in
      if t = [] then []
      else takeWhile (\<lambda>c. \<not> isspace c) t # stream_words (dropWhile (\<lambda>c. \<not> isspace c) t))"
  by pat_completeness auto
termination
proof (relation "measure length", goal_cases)
  case (2 s t)
  then have "t \<noteq> []" "\<not> isspace (hd t)"
    using hd_dropWhile [of isspace s] by auto
  then have "length (dropWhile (\<lambda>c. \<not> isspace c) t) < length t"
    using length_dropWhile_le [of "\<lambda>c. \<not> isspace c" "tl t"] by (cases t) (auto simp: le_imp_less_Suc)
  moreover have "length t \<le> length s"
    using 2 length_dropWhile_le [of isspace s] by simp
  ultimately show ?case by simp
qed simp

declare stream_words.simps [simp del]

text \<open>\<open>s.find(c)\<close> followed by the two \<open>substr\<close> calls around the position; \<open>None\<close> is \<open>npos\<close>.\<close>

definition split_at_char :: "char \<Rightarrow> string \<Rightarrow> (string \<times> string) option" where
  "split_at_char c s =
     (case dropWhile (\<lambda>x. x \<noteq> c) s of
        [] \<Rightarrow> None
      | _ # rest \<Rightarrow> Some (takeWhile (\<lambda>x. x \<noteq> c) s, rest))"

section \<open>Numbers\<close>

fun to_string :: "nat \<Rightarrow> string" where
  "to_string n = (if n < 10 then [digit_char n] else to_string (n div 10) @ [digit_char (n mod 10)])"

declare to_string.simps [simp del]

definition digits_value :: "string \<Rightarrow> nat" where
  "digits_value ds = foldl (\<lambda>n c. 10 * n + digit_value c) 0 ds"

text \<open>\<open>None\<close> is \<open>std::invalid_argument\<close>; the result is the value and the number of characters consumed.\<close>

definition parse_signed :: "string \<Rightarrow> (int \<times> nat) option" where
  "parse_signed s =
     (let ws = takeWhile isspace s; t = drop (length ws) s;
          neg = (t \<noteq> [] \<and> hd t = CHR ''-'');
          sgn = (t \<noteq> [] \<and> (hd t = CHR ''-'' \<or> hd t = CHR ''+''));
          ds = takeWhile isdigit (if sgn then tl t else t)
      in if ds = [] then None
         else Some (if neg then - int (digits_value ds) else int (digits_value ds),
                    length ws + (if sgn then 1 else 0) + length ds))"

text \<open>
  The three parsers throw \<open>std::out_of_range\<close> (also \<open>None\<close>) outside the range of their result type;
  \<open>stoull\<close> goes through \<open>strtoull\<close>, which negates a value with a minus sign modulo \<open>2 ^ 64\<close>.
\<close>

definition stoi :: "string \<Rightarrow> (int \<times> nat) option" where
  "stoi s = (case parse_signed s of
       None \<Rightarrow> None
     | Some (v, n) \<Rightarrow> if - (2 ^ 31) \<le> v \<and> v < 2 ^ 31 then Some (v, n) else None)"

definition stoll :: "string \<Rightarrow> (int \<times> nat) option" where
  "stoll s = (case parse_signed s of
       None \<Rightarrow> None
     | Some (v, n) \<Rightarrow> if - (2 ^ 63) \<le> v \<and> v < 2 ^ 63 then Some (v, n) else None)"

definition stoull :: "string \<Rightarrow> (nat \<times> nat) option" where
  "stoull s = (case parse_signed s of
       None \<Rightarrow> None
     | Some (v, n) \<Rightarrow> if \<bar>v\<bar> < 2 ^ 64 then Some (nat (v mod 2 ^ 64), n) else None)"

section \<open>Decimal round trip\<close>

lemma of_char_digit_char: "d < 10 \<Longrightarrow> (of_char (digit_char d) :: nat) = 48 + d"
  by (simp add: digit_char_def)

lemma isdigit_digit_char: "d < 10 \<Longrightarrow> isdigit (digit_char d)"
  by (simp add: isdigit_def of_char_digit_char)

lemma digit_value_digit_char: "d < 10 \<Longrightarrow> digit_value (digit_char d) = d"
  by (simp add: digit_value_def of_char_digit_char)

lemma to_string_digits: "c \<in> set (to_string n) \<Longrightarrow> isdigit c"
  by (induction n rule: to_string.induct)
     (subst (asm) (2) to_string.simps, auto simp: isdigit_digit_char split: if_splits)

lemma to_string_ne [simp]: "to_string n \<noteq> []"
  by (subst to_string.simps) simp

lemma digits_value_snoc: "digits_value (ds @ [c]) = 10 * digits_value ds + digit_value c"
  by (simp add: digits_value_def)

lemma digits_value_to_string [simp]: "digits_value (to_string n) = n"
proof (induction n rule: to_string.induct)
  case (1 n)
  then show ?case
    by (subst to_string.simps)
       (simp add: digits_value_snoc digit_value_digit_char, simp add: digits_value_def digit_value_digit_char)
qed

lemma to_string_inject [simp]: "to_string m = to_string n \<longleftrightarrow> m = n"
  using digits_value_to_string by metis

lemma isdigit_not_sign: "isdigit c \<Longrightarrow> \<not> isspace c \<and> c \<noteq> CHR ''-'' \<and> c \<noteq> CHR ''+'' \<and> c \<noteq> CHR '':''"
  by (auto simp: isdigit_def isspace_def Let_def)

lemma parse_signed_to_string [simp]: "parse_signed (to_string n) = Some (int n, length (to_string n))"
proof -
  obtain c cs where c: "to_string n = c # cs"
    by (cases "to_string n") auto
  have d: "isdigit c"
    using to_string_digits [of c n] c by simp
  have tw: "takeWhile isdigit cs = cs"
    using to_string_digits [of _ n] c by (simp add: takeWhile_eq_all_conv)
  have "digits_value (c # cs) = n"
    using digits_value_to_string [of n] c by simp
  then show ?thesis
    using d isdigit_not_sign [OF d] c by (simp add: parse_signed_def Let_def tw)
qed

lemma stoull_to_string: "n < 2 ^ 64 \<Longrightarrow> stoull (to_string n) = Some (n, length (to_string n))"
  by (simp add: stoull_def)

text \<open>Two numbers joined by a character that is no digit determine both numbers.\<close>

lemma to_string_sep_inject:
  assumes "\<not> isdigit x" "to_string a @ x # s = to_string b @ x # t"
  shows "a = b" "s = t"
proof -
  have tw: "takeWhile isdigit (to_string n @ x # r) = to_string n" for n r
    using assms(1) to_string_digits [of _ n] by (simp add: takeWhile_append2)
  have "to_string a = to_string b"
    using arg_cong [OF assms(2), of "takeWhile isdigit"] by (simp only: tw)
  then show "a = b" by simp
  then show "s = t"
    using assms(2) by simp
qed

end
