(* ===== verification/Rate_Limit.thy ===== *)
theory Rate_Limit
  imports Complex_Main Cpp_Text "HOL-Library.AList"
begin

text \<open>
  Rate limiting: \<^verbatim>\<open>common/ratelimit/TokenBucket.cpp\<close>, \<^verbatim>\<open>common/ratelimit/RateLimiter.cpp\<close> and the gateway's
  forwarding class \<^verbatim>\<open>gateway/src/GatewayRateLimiter.cpp\<close>. Readings of the steady clock are arguments,
  in nanoseconds; the \<open>double\<close>s of the bucket are rational numbers, so rounding is not modelled.
  The bucket table is an association list (its order is immaterial). Main result: whatever mix of
  requests arrives, and however often idle buckets are pruned, one key is granted at most its
  capacity plus its rate times the elapsed time.
\<close>

section \<open>Token bucket\<close>

record TokenBucket =
  capacity :: rat
  tokens :: rat
  refill_rate :: rat
  last_refill :: int

definition new_TokenBucket :: "nat \<Rightarrow> rat \<Rightarrow> int \<Rightarrow> TokenBucket" where
  "new_TokenBucket cap rate now =
     (let c = (if cap = 0 then 1 else of_nat cap) in
      \<lparr>capacity = c, tokens = c, refill_rate = (if rate > 0 then rate else 1), last_refill = now\<rparr>)"

definition seconds :: "int \<Rightarrow> rat" where
  "seconds ns = of_int ns / 1000000000"

definition refillLocked :: "int \<Rightarrow> TokenBucket \<Rightarrow> TokenBucket" where
  "refillLocked now b =
     (let elapsed = seconds (now - last_refill b) in
      if elapsed \<le> 0 then b
      else b\<lparr>tokens := min (capacity b) (tokens b + elapsed * refill_rate b), last_refill := now\<rparr>)"

definition bucket_allow :: "nat \<Rightarrow> int \<Rightarrow> TokenBucket \<Rightarrow> bool \<times> TokenBucket" where
  "bucket_allow n now b =
     (if n = 0 then (True, b)
      else let b' = refillLocked now b in
           if tokens b' < of_nat n then (False, b')
           else (True, b'\<lparr>tokens := tokens b' - of_nat n\<rparr>))"

section \<open>Rate limiter\<close>

record RateLimitConfig =
  enabled :: bool
  login_per_minute :: nat
  message_per_second :: nat
  connection_packet_per_second :: nat
  max_bucket_count :: nat
  bucket_idle_seconds :: nat

definition default_RateLimitConfig :: RateLimitConfig where
  "default_RateLimitConfig = \<lparr>enabled = True, login_per_minute = 20, message_per_second = 10,
     connection_packet_per_second = 50, max_bucket_count = 100000, bucket_idle_seconds = 600\<rparr>"

record BucketEntry =
  entry_bucket :: TokenBucket
  last_used :: int

record RateLimiter =
  rl_config :: RateLimitConfig
  buckets :: "(string \<times> BucketEntry) list"
  operation_count :: nat

definition new_RateLimiter :: "RateLimitConfig \<Rightarrow> RateLimiter" where
  "new_RateLimiter c = \<lparr>rl_config = c, buckets = [], operation_count = 0\<rparr>"

definition pruneLocked :: "int \<Rightarrow> RateLimiter \<Rightarrow> RateLimiter" where
  "pruneLocked now l =
     l\<lparr>buckets := filter (\<lambda>(k, e). \<not> now - last_used e \<ge> int (bucket_idle_seconds (rl_config l)) * 1000000000)
        (buckets l)\<rparr>"

text \<open>
  One call reads the steady clock on entry (\<open>now\<close>), again when it constructs a bucket (\<open>made\<close>) and
  again inside the bucket (\<open>later\<close>).
\<close>

definition limiter_allow ::
  "string \<Rightarrow> nat \<Rightarrow> rat \<Rightarrow> int \<times> int \<times> int \<Rightarrow> RateLimiter \<Rightarrow> bool \<times> RateLimiter" where
  "limiter_allow key cap rate = (\<lambda>(now, made, later) l0.
     let l1 = l0\<lparr>operation_count := operation_count l0 + 1\<rparr>;
         l2 = (if operation_count l1 mod 256 = 0 \<or> length (buckets l1) \<ge> max_bucket_count (rl_config l1)
               then pruneLocked now l1 else l1)
     in case map_of (buckets l2) key of
          None \<Rightarrow>
            if length (buckets l2) \<ge> max_bucket_count (rl_config l2) then (False, l2)
            else let (ok, b) = bucket_allow 1 later (new_TokenBucket cap rate made) in
                 (ok, l2\<lparr>buckets := AList.update key \<lparr>entry_bucket = b, last_used = now\<rparr> (buckets l2)\<rparr>)
        | Some e \<Rightarrow>
            let (ok, b) = bucket_allow 1 later (entry_bucket e) in
            (ok, l2\<lparr>buckets := AList.update key \<lparr>entry_bucket = b, last_used = now\<rparr> (buckets l2)\<rparr>))"

definition allowLogin :: "string \<Rightarrow> int \<times> int \<times> int \<Rightarrow> RateLimiter \<Rightarrow> bool \<times> RateLimiter" where
  "allowLogin ip ts l =
     (if \<not> enabled (rl_config l) then (True, l)
      else limiter_allow (''login:'' @ ip) (login_per_minute (rl_config l))
             (of_nat (login_per_minute (rl_config l)) / 60) ts l)"

definition allowMessage :: "u64 \<Rightarrow> int \<times> int \<times> int \<Rightarrow> RateLimiter \<Rightarrow> bool \<times> RateLimiter" where
  "allowMessage user_id ts l =
     (if \<not> enabled (rl_config l) then (True, l)
      else limiter_allow (''message:'' @ to_string (unat user_id)) (message_per_second (rl_config l))
             (of_nat (message_per_second (rl_config l))) ts l)"

definition allowPacket :: "string \<Rightarrow> int \<times> int \<times> int \<Rightarrow> RateLimiter \<Rightarrow> bool \<times> RateLimiter" where
  "allowPacket connection_id ts l =
     (if \<not> enabled (rl_config l) then (True, l)
      else limiter_allow (''packet:'' @ connection_id) (connection_packet_per_second (rl_config l))
             (of_nat (connection_packet_per_second (rl_config l))) ts l)"

definition clearConnection :: "string \<Rightarrow> RateLimiter \<Rightarrow> RateLimiter" where
  "clearConnection connection_id l =
     l\<lparr>buckets := AList.delete (''packet:'' @ connection_id) (buckets l)\<rparr>"

section \<open>Bucket invariant\<close>

definition bucket_inv :: "TokenBucket \<Rightarrow> bool" where
  "bucket_inv b \<longleftrightarrow> 1 \<le> capacity b \<and> 0 \<le> tokens b \<and> tokens b \<le> capacity b \<and> 0 < refill_rate b"

text \<open>What the bucket could hand out at a moment, were it refilled then.\<close>

definition available :: "int \<Rightarrow> TokenBucket \<Rightarrow> rat" where
  "available t b = tokens (refillLocked t b)"

lemma seconds_nonneg [simp]: "0 \<le> seconds d \<longleftrightarrow> 0 \<le> d" "seconds d \<le> 0 \<longleftrightarrow> d \<le> 0"
  "0 < seconds d \<longleftrightarrow> 0 < d"
  by (simp_all add: seconds_def field_simps)

lemma seconds_add: "seconds (a + b) = seconds a + seconds b"
  by (simp add: seconds_def add_divide_distrib)

lemma bucket_inv_new [inv_intros]: "bucket_inv (new_TokenBucket cap rate now)"
  by (simp add: bucket_inv_def new_TokenBucket_def Let_def)

lemma last_refill_new [simp]: "last_refill (new_TokenBucket cap rate now) = now"
  by (simp add: new_TokenBucket_def Let_def)

lemma bucket_inv_refill [inv_intros]: "bucket_inv b \<Longrightarrow> bucket_inv (refillLocked t b)"
  by (auto simp: bucket_inv_def refillLocked_def Let_def not_le)

lemma refillLocked_sel [simp]:
  "capacity (refillLocked t b) = capacity b" "refill_rate (refillLocked t b) = refill_rate b"
  "last_refill (refillLocked t b) = max t (last_refill b)"
  by (auto simp: refillLocked_def Let_def max_def)

lemma bucket_allow_sel [simp]:
  "capacity (snd (bucket_allow n t b)) = capacity b"
  "refill_rate (snd (bucket_allow n t b)) = refill_rate b"
  "n \<noteq> 0 \<Longrightarrow> last_refill (snd (bucket_allow n t b)) = max t (last_refill b)"
  by (auto simp: bucket_allow_def Let_def)

lemma bucket_inv_allow [inv_intros]: "bucket_inv b \<Longrightarrow> bucket_inv (snd (bucket_allow n t b))"
  using bucket_inv_refill [of b t] by (auto simp: bucket_inv_def bucket_allow_def Let_def)

lemma available_bounds:
  "bucket_inv b \<Longrightarrow> 0 \<le> available t b" "bucket_inv b \<Longrightarrow> available t b \<le> capacity b"
  using bucket_inv_refill [of b t] by (auto simp: bucket_inv_def available_def)

lemma available_eq:
  "last_refill b \<le> t \<Longrightarrow> bucket_inv b \<Longrightarrow>
   available t b = min (capacity b) (tokens b + seconds (t - last_refill b) * refill_rate b)"
  by (auto simp: available_def refillLocked_def Let_def bucket_inv_def seconds_def)

lemma available_grows:
  assumes "bucket_inv b" "last_refill b \<le> t" "t \<le> u"
  shows "available t b \<le> available u b" "available u b \<le> available t b + seconds (u - t) * refill_rate b"
proof -
  have s: "seconds (u - last_refill b) = seconds (t - last_refill b) + seconds (u - t)"
    by (simp flip: seconds_add)
  have "0 \<le> seconds (u - t) * refill_rate b"
    using assms by (simp add: bucket_inv_def)
  then show "available t b \<le> available u b" "available u b \<le> available t b + seconds (u - t) * refill_rate b"
    using assms by (simp_all add: available_eq s distrib_right min_def split: if_splits)
qed

lemma bucket_allow_available:
  assumes "bucket_inv b" "last_refill b \<le> t"
  shows "available t (snd (bucket_allow n t b)) + (if fst (bucket_allow n t b) then of_nat n else 0)
     = available t b"
  using assms by (auto simp: bucket_allow_def Let_def available_def refillLocked_def)

lemma bucket_allow_iff:
  "n \<noteq> 0 \<Longrightarrow> fst (bucket_allow n t b) \<longleftrightarrow> of_nat n \<le> available t b"
  by (auto simp: bucket_allow_def Let_def available_def)

section \<open>Histories of requests\<close>

datatype request = Req_login string | Req_message u64 | Req_packet string

primrec limiter_request :: "request \<Rightarrow> int \<times> int \<times> int \<Rightarrow> RateLimiter \<Rightarrow> bool \<times> RateLimiter" where
  "limiter_request (Req_login ip) ts l = allowLogin ip ts l"
| "limiter_request (Req_message u) ts l = allowMessage u ts l"
| "limiter_request (Req_packet c) ts l = allowPacket c ts l"

primrec req_key :: "request \<Rightarrow> string" where
  "req_key (Req_login ip) = ''login:'' @ ip"
| "req_key (Req_message u) = ''message:'' @ to_string (unat u)"
| "req_key (Req_packet c) = ''packet:'' @ c"

primrec req_cap :: "RateLimitConfig \<Rightarrow> request \<Rightarrow> nat" where
  "req_cap c (Req_login _) = login_per_minute c"
| "req_cap c (Req_message _) = message_per_second c"
| "req_cap c (Req_packet _) = connection_packet_per_second c"

primrec req_rate :: "RateLimitConfig \<Rightarrow> request \<Rightarrow> rat" where
  "req_rate c (Req_login _) = of_nat (login_per_minute c) / 60"
| "req_rate c (Req_message _) = of_nat (message_per_second c)"
| "req_rate c (Req_packet _) = of_nat (connection_packet_per_second c)"

text \<open>The bucket a request starts with: its burst size and its refill rate.\<close>

definition burst :: "RateLimitConfig \<Rightarrow> request \<Rightarrow> rat" where
  "burst c r = capacity (new_TokenBucket (req_cap c r) (req_rate c r) 0)"

definition refill :: "RateLimitConfig \<Rightarrow> request \<Rightarrow> rat" where
  "refill c r = refill_rate (new_TokenBucket (req_cap c r) (req_rate c r) 0)"

fun granted :: "request \<Rightarrow> (request \<times> int \<times> int \<times> int) list \<Rightarrow> RateLimiter \<Rightarrow> nat" where
  "granted r [] l = 0"
| "granted r ((q, ts) # evs) l =
     (let (ok, l') = limiter_request q ts l in (if ok \<and> q = r then 1 else 0) + granted r evs l')"

text \<open>Steady clock readings: they never go back, and one call takes at most \<open>D\<close> nanoseconds.\<close>

fun steady :: "int \<Rightarrow> int \<Rightarrow> (request \<times> int \<times> int \<times> int) list \<Rightarrow> bool" where
  "steady D T [] = True"
| "steady D T ((q, (now, made, later)) # evs) \<longleftrightarrow>
     T \<le> now \<and> now \<le> made \<and> made \<le> later \<and> later - now \<le> D \<and> steady D later evs"

fun end_time :: "int \<Rightarrow> (request \<times> int \<times> int \<times> int) list \<Rightarrow> int" where
  "end_time T [] = T"
| "end_time T ((q, (now, made, later)) # evs) = end_time later evs"

definition limiter_inv :: "int \<Rightarrow> int \<Rightarrow> RateLimiter \<Rightarrow> bool" where
  "limiter_inv D T l \<longleftrightarrow> (\<forall>k e. map_of (buckets l) k = Some e \<longrightarrow> bucket_inv (entry_bucket e)
      \<and> last_refill (entry_bucket e) \<le> T \<and> last_refill (entry_bucket e) \<le> last_used e + D)
     \<and> distinct (map fst (buckets l))"

definition key_params :: "rat \<Rightarrow> rat \<Rightarrow> string \<Rightarrow> RateLimiter \<Rightarrow> bool" where
  "key_params C R k l \<longleftrightarrow> (\<forall>e. map_of (buckets l) k = Some e \<longrightarrow>
     capacity (entry_bucket e) = C \<and> refill_rate (entry_bucket e) = R)"

definition key_available :: "rat \<Rightarrow> int \<Rightarrow> string \<Rightarrow> RateLimiter \<Rightarrow> rat" where
  "key_available C t k l =
     (case map_of (buckets l) k of None \<Rightarrow> C | Some e \<Rightarrow> available t (entry_bucket e))"

lemma limiter_request_eq:
  "limiter_request r ts l = (if \<not> enabled (rl_config l) then (True, l)
     else limiter_allow (req_key r) (req_cap (rl_config l) r) (req_rate (rl_config l) r) ts l)"
  by (cases r) (simp_all add: allowLogin_def allowMessage_def allowPacket_def)

lemma req_key_inject: "req_key r = req_key q \<longleftrightarrow> r = q"
  by (cases r; cases q) (auto simp: word_unat_eq_iff)

lemma map_of_filter:
  assumes "distinct (map fst xs)"
  shows "map_of (filter (\<lambda>(k, e). P e) xs) k
     = (case map_of xs k of None \<Rightarrow> None | Some e \<Rightarrow> if P e then Some e else None)"
  using assms
proof (induction xs)
  case Nil
  then show ?case by simp
next
  case (Cons x xs)
  have "map_of xs (fst x) = None"
    using Cons.prems by (simp add: map_of_eq_None_iff)
  then show ?case
    using Cons by (cases x) (auto split: option.splits)
qed

lemma distinct_filter_fst: "distinct (map fst xs) \<Longrightarrow> distinct (map fst (filter P xs))"
  by (rule distinct_map_filter)

lemma prune_lookup:
  assumes "distinct (map fst (buckets l))"
  shows "map_of (buckets (pruneLocked now l)) k =
     (case map_of (buckets l) k of
        None \<Rightarrow> None
      | Some e \<Rightarrow> if now - last_used e \<ge> int (bucket_idle_seconds (rl_config l)) * 1000000000 then None
                  else Some e)"
  using assms by (simp add: pruneLocked_def map_of_filter split: option.splits)

lemma limiter_inv_prune [inv_intros]: "limiter_inv D T l \<Longrightarrow> limiter_inv D T (pruneLocked now l)"
  by (auto simp: limiter_inv_def prune_lookup split: option.splits if_splits)
     (simp add: pruneLocked_def distinct_filter_fst)

text \<open>A bucket that is idle long enough to be pruned is full, so forgetting it changes nothing.\<close>

lemma prune_available:
  assumes "limiter_inv D T l" "key_params C R k l" "T \<le> t" "now \<le> t" "0 < R"
    and full: "C \<le> seconds (int (bucket_idle_seconds (rl_config l)) * 1000000000 - D) * R"
  shows "key_available C t k (pruneLocked now l) = key_available C t k l"
proof (cases "map_of (buckets l) k")
  case None
  then show ?thesis
    using assms(1) by (simp add: key_available_def prune_lookup limiter_inv_def)
next
  case (Some e)
  let ?b = "entry_bucket e"
  have b: "bucket_inv ?b" "last_refill ?b \<le> T" "last_refill ?b \<le> last_used e + D"
    "capacity ?b = C" "refill_rate ?b = R"
    using assms(1,2) Some by (auto simp: limiter_inv_def key_params_def)
  have "available t ?b = C" if "now - last_used e \<ge> int (bucket_idle_seconds (rl_config l)) * 1000000000"
  proof -
    have "seconds (int (bucket_idle_seconds (rl_config l)) * 1000000000 - D) \<le> seconds (t - last_refill ?b)"
      using that b(3) assms(4) by (simp add: seconds_def)
    then have "C \<le> seconds (t - last_refill ?b) * R"
      using order_trans [OF full] mult_right_mono less_imp_le [OF assms(5)] by blast
    then show ?thesis
      using b assms(3) by (simp add: available_eq bucket_inv_def)
  qed
  then show ?thesis
    using assms(1) Some by (auto simp: key_available_def prune_lookup limiter_inv_def)
qed

lemma limiter_inv_later: "limiter_inv D T l \<Longrightarrow> T \<le> t \<Longrightarrow> limiter_inv D t l"
  unfolding limiter_inv_def by (meson order_trans)

definition put_entry :: "string \<Rightarrow> BucketEntry \<Rightarrow> RateLimiter \<Rightarrow> RateLimiter" where
  "put_entry k e l = l\<lparr>buckets := AList.update k e (buckets l)\<rparr>"

lemma put_entry_lookup [store_simps]:
  "map_of (buckets (put_entry k e l)) q = (if q = k then Some e else map_of (buckets l) q)"
  by (simp add: put_entry_def update_conv')

lemma put_entry_config [simp]: "rl_config (put_entry k e l) = rl_config l"
  by (simp add: put_entry_def)

lemma limiter_inv_put [inv_intros]:
  "limiter_inv D T l \<Longrightarrow> bucket_inv (entry_bucket e) \<Longrightarrow> last_refill (entry_bucket e) \<le> T \<Longrightarrow>
   last_refill (entry_bucket e) \<le> last_used e + D \<Longrightarrow> limiter_inv D T (put_entry k e l)"
  by (auto simp: limiter_inv_def store_simps) (simp add: put_entry_def distinct_update)

text \<open>The bucket that serves a request: the stored one, or a new one.\<close>

definition serving_bucket :: "string \<Rightarrow> nat \<Rightarrow> rat \<Rightarrow> int \<Rightarrow> RateLimiter \<Rightarrow> TokenBucket" where
  "serving_bucket key cap rate made l =
     (case map_of (buckets l) key of
        None \<Rightarrow> new_TokenBucket cap rate made
      | Some e \<Rightarrow> entry_bucket e)"

lemma limiter_allow_cases:
  fixes key cap rate now made later l
  defines "l1 \<equiv> l\<lparr>operation_count := operation_count l + 1\<rparr>"
  obtains l2 where "l2 = l1 \<or> l2 = pruneLocked now l1"
    "limiter_allow key cap rate (now, made, later) l = (False, l2)
     \<or> limiter_allow key cap rate (now, made, later) l =
        (let r = bucket_allow 1 later (serving_bucket key cap rate made l2) in
         (fst r, put_entry key \<lparr>entry_bucket = snd r, last_used = now\<rparr> l2))"
proof -
  define l2 where "l2 = (if operation_count l1 mod 256 = 0
      \<or> length (buckets l1) \<ge> max_bucket_count (rl_config l1) then pruneLocked now l1 else l1)"
  have "limiter_allow key cap rate (now, made, later) l =
     (case map_of (buckets l2) key of
          None \<Rightarrow>
            if length (buckets l2) \<ge> max_bucket_count (rl_config l2) then (False, l2)
            else let (ok, b) = bucket_allow 1 later (new_TokenBucket cap rate made) in
                 (ok, put_entry key \<lparr>entry_bucket = b, last_used = now\<rparr> l2)
        | Some e \<Rightarrow>
            let (ok, b) = bucket_allow 1 later (entry_bucket e) in
            (ok, put_entry key \<lparr>entry_bucket = b, last_used = now\<rparr> l2))"
    unfolding limiter_allow_def l1_def l2_def put_entry_def Let_def by simp
  then have "limiter_allow key cap rate (now, made, later) l = (False, l2)
     \<or> limiter_allow key cap rate (now, made, later) l =
        (let r = bucket_allow 1 later (serving_bucket key cap rate made l2) in
         (fst r, put_entry key \<lparr>entry_bucket = snd r, last_used = now\<rparr> l2))"
    by (auto simp: serving_bucket_def Let_def case_prod_beta split: option.splits)
  moreover have "l2 = l1 \<or> l2 = pruneLocked now l1"
    by (simp add: l2_def)
  ultimately show ?thesis
    using that by blast
qed

lemma limiter_allow_step:
  fixes key k :: string
  assumes inv: "limiter_inv D T l" and params: "key_params C R k l" and R: "0 < R"
    and times: "T \<le> now" "now \<le> made" "made \<le> later" "later - now \<le> D"
    and full: "C \<le> seconds (int (bucket_idle_seconds (rl_config l)) * 1000000000 - D) * R"
    and same: "key = k \<Longrightarrow> capacity (new_TokenBucket cap rate made) = C
        \<and> refill_rate (new_TokenBucket cap rate made) = R"
    and res: "limiter_allow key cap rate (now, made, later) l = (ok, l')"
  shows "limiter_inv D later l' \<and> key_params C R k l' \<and> rl_config l' = rl_config l
     \<and> key_available C later k l' + (if ok \<and> key = k then 1 else 0) \<le> key_available C later k l"
proof -
  define l1 where "l1 = l\<lparr>operation_count := operation_count l + 1\<rparr>"
  have l1: "limiter_inv D T l1" "key_params C R k l1" "rl_config l1 = rl_config l"
    "key_available C later k l1 = key_available C later k l"
    using inv params by (simp_all add: l1_def limiter_inv_def key_params_def key_available_def)
  obtain l2 where l2: "l2 = l1 \<or> l2 = pruneLocked now l1"
    and r: "limiter_allow key cap rate (now, made, later) l = (False, l2)
     \<or> limiter_allow key cap rate (now, made, later) l =
        (let r = bucket_allow 1 later (serving_bucket key cap rate made l2) in
         (fst r, put_entry key \<lparr>entry_bucket = snd r, last_used = now\<rparr> l2))"
    by (rule limiter_allow_cases [of l now key cap rate made later]) (auto simp: l1_def)
  have "key_available C later k (pruneLocked now l1) = key_available C later k l1"
    by (rule prune_available [of D T]) (use l1 R full times in auto)
  moreover have "key_params C R k (pruneLocked now l1)"
    using l1(1,2) by (auto simp: key_params_def limiter_inv_def prune_lookup split: option.splits if_splits)
  ultimately have p2: "limiter_inv D later l2" "key_params C R k l2" "rl_config l2 = rl_config l"
    "key_available C later k l2 = key_available C later k l"
    using l2 l1 limiter_inv_prune [OF l1(1)] limiter_inv_later [of D T _ later] times
    by (auto simp: pruneLocked_def)
  let ?b = "serving_bucket key cap rate made l2"
  let ?r = "bucket_allow 1 later ?b"
  have b: "bucket_inv ?b" "last_refill ?b \<le> later"
    using p2(1) times
    by (auto simp: serving_bucket_def limiter_inv_def inv_intros split: option.splits)
  have bk: "capacity ?b = C" "refill_rate ?b = R" "available later ?b = key_available C later k l2"
    if "key = k"
    using same [OF that] p2(2) that b(1)
    by (auto simp: serving_bucket_def key_params_def key_available_def available_def refillLocked_def
        new_TokenBucket_def Let_def min_def split: option.splits)
  show ?thesis
  proof (cases "limiter_allow key cap rate (now, made, later) l = (False, l2)")
    case True
    then show ?thesis
      using res p2 by simp
  next
    case False
    then have l': "ok = fst ?r" "l' = put_entry key \<lparr>entry_bucket = snd ?r, last_used = now\<rparr> l2"
      using r res by (auto simp: Let_def)
    have "limiter_inv D later l'"
      unfolding l'(2) using p2(1) b times by (intro limiter_inv_put) (auto simp: inv_intros)
    moreover have "key_params C R k l'"
      using p2(2) bk by (auto simp: l'(2) key_params_def store_simps)
    moreover have "key_available C later k l' + (if ok \<and> key = k then 1 else 0)
        \<le> key_available C later k l2"
      using bucket_allow_available [OF b, of 1] bk by (auto simp: l' key_available_def store_simps)
    ultimately show ?thesis
      using p2(3,4) by (simp add: l'(2))
  qed
qed

lemma key_available_grows:
  assumes "limiter_inv D T l" "key_params C R k l" "0 < R" "T \<le> t"
  shows "key_available C t k l \<le> key_available C T k l + R * seconds (t - T)"
proof (cases "map_of (buckets l) k")
  case None
  then show ?thesis
    using assms by (simp add: key_available_def)
next
  case (Some e)
  then have "bucket_inv (entry_bucket e)" "last_refill (entry_bucket e) \<le> T"
    "refill_rate (entry_bucket e) = R"
    using assms by (auto simp: limiter_inv_def key_params_def)
  then show ?thesis
    using available_grows(2) [of "entry_bucket e" T t] assms(4) Some
    by (simp add: key_available_def mult.commute)
qed

lemma granted_bound:
  assumes "limiter_inv D T l" "key_params (burst c r) (refill c r) (req_key r) l" "rl_config l = c"
    "enabled c" "steady D T evs"
    "burst c r \<le> seconds (int (bucket_idle_seconds c) * 1000000000 - D) * refill c r"
  shows "of_nat (granted r evs l)
     \<le> key_available (burst c r) T (req_key r) l + refill c r * seconds (end_time T evs - T)"
  using assms
proof (induction evs arbitrary: T l)
  case Nil
  then show ?case
    by (auto simp: key_available_def seconds_def burst_def new_TokenBucket_def Let_def limiter_inv_def
        intro!: available_bounds(1) split: option.splits)
next
  case (Cons ev evs)
  obtain q now made later where ev: "ev = (q, now, made, later)"
    by (cases ev) auto
  have t: "T \<le> now" "now \<le> made" "made \<le> later" "later - now \<le> D" "steady D later evs"
    using Cons.prems(5) by (simp_all add: ev)
  have R: "0 < refill c r"
    by (simp add: refill_def new_TokenBucket_def Let_def)
  obtain ok l' where res: "limiter_allow (req_key q) (req_cap c q) (req_rate c q) (now, made, later) l = (ok, l')"
    by fastforce
  have "limiter_inv D later l' \<and> key_params (burst c r) (refill c r) (req_key r) l' \<and> rl_config l' = rl_config l
     \<and> key_available (burst c r) later (req_key r) l' + (if ok \<and> req_key q = req_key r then 1 else 0)
       \<le> key_available (burst c r) later (req_key r) l"
    by (rule limiter_allow_step [OF Cons.prems(1,2) R t(1-4) _ _ res])
       (use Cons.prems(3,6) in \<open>auto simp: req_key_inject burst_def refill_def new_TokenBucket_def Let_def\<close>)
  moreover have "granted r (ev # evs) l = (if ok \<and> q = r then 1 else 0) + granted r evs l'"
    using Cons.prems(3,4) res by (simp add: ev limiter_request_eq)
  moreover have "key_available (burst c r) later (req_key r) l
      \<le> key_available (burst c r) T (req_key r) l + refill c r * seconds (later - T)"
    by (rule key_available_grows [OF Cons.prems(1,2) R]) (use t in simp)
  moreover have "refill c r * seconds (end_time T (ev # evs) - T)
      = refill c r * seconds (later - T) + refill c r * seconds (end_time later evs - later)"
    by (simp add: ev flip: seconds_add distrib_left)
  ultimately show ?case
    using Cons.IH [of later l'] Cons.prems(3,4,6) t(5)
    by (auto simp: req_key_inject split: if_splits)
qed

section \<open>Properties\<close>



text \<open>
  C23. A bucket is never starved: a request for one token is granted as soon as the time since the last
  refill covers one token at the refill rate, whatever was spent before.
\<close>

theorem bucket_allow_eventually:
  assumes "bucket_inv b" and "last_refill b \<le> now" and "1 \<le> seconds (now - last_refill b) * refill_rate b"
  shows "fst (bucket_allow 1 now b)"
  using assms by (simp add: bucket_allow_iff available_eq bucket_inv_def)

theorem bucket_allow_eventually_witness:
  "fst (bucket_allow 1 500000000 \<lparr>capacity = 2, tokens = 0, refill_rate = 2, last_refill = 0\<rparr>)"
  by (rule bucket_allow_eventually) (simp_all add: bucket_inv_def seconds_def)

end
