(* ===== verification/Circuit_Breaker.thy ===== *)
theory Circuit_Breaker
  imports Nebula_Prelude
begin

text \<open>
  The circuit breaker of \<^verbatim>\<open>common/circuitbreaker\<close> and its manager. Readings of the steady clock (in
  milliseconds) are arguments. The theorems describe the breaker by its history: it is tripped exactly
  when the failures since the last success reach the threshold, and it refuses a request exactly when
  it is tripped, no probe has been let through since the last failure and the timeout has not passed.
\<close>

section \<open>Breaker\<close>

datatype CircuitBreakerState = CLOSED | OPEN | HALF_OPEN

record CircuitBreaker =
  failure_threshold :: nat
  open_timeout_ms :: int
  cb_state :: CircuitBreakerState
  failure_count :: nat
  opened_at_ms :: int

definition new_CircuitBreaker :: "nat \<Rightarrow> int \<Rightarrow> CircuitBreaker" where
  "new_CircuitBreaker threshold timeout =
     \<lparr>failure_threshold = (if threshold = 0 then 1 else threshold),
      open_timeout_ms = (if timeout > 0 then timeout else 30000),
      cb_state = CLOSED, failure_count = 0, opened_at_ms = 0\<rparr>"

definition allowRequest :: "int \<Rightarrow> CircuitBreaker \<Rightarrow> bool \<times> CircuitBreaker" where
  "allowRequest now b =
     (if cb_state b = CLOSED then (True, b)
      else if cb_state b = HALF_OPEN then (True, b)
      else if now - opened_at_ms b \<ge> open_timeout_ms b then (True, b\<lparr>cb_state := HALF_OPEN\<rparr>)
      else (False, b))"

definition recordSuccess :: "CircuitBreaker \<Rightarrow> CircuitBreaker" where
  "recordSuccess b = b\<lparr>cb_state := CLOSED, failure_count := 0, opened_at_ms := 0\<rparr>"

definition recordFailure :: "int \<Rightarrow> CircuitBreaker \<Rightarrow> CircuitBreaker" where
  "recordFailure now b =
     (let b' = b\<lparr>failure_count := failure_count b + 1\<rparr> in
      if cb_state b' = HALF_OPEN \<or> failure_count b' \<ge> failure_threshold b'
      then b'\<lparr>cb_state := OPEN, opened_at_ms := now\<rparr> else b')"

primrec circuitBreakerStateToString :: "CircuitBreakerState \<Rightarrow> string" where
  "circuitBreakerStateToString CLOSED = ''CLOSED''"
| "circuitBreakerStateToString OPEN = ''OPEN''"
| "circuitBreakerStateToString HALF_OPEN = ''HALF_OPEN''"

section \<open>Manager\<close>

text \<open>The manager keeps one breaker per name and creates it with the default arguments on first use.\<close>

type_synonym breakers = "string \<Rightarrow> CircuitBreaker option"

definition getBreaker :: "string \<Rightarrow> breakers \<Rightarrow> CircuitBreaker \<times> breakers" where
  "getBreaker name m =
     (case m name of
        Some b \<Rightarrow> (b, m)
      | None \<Rightarrow> let b = new_CircuitBreaker 5 30000 in (b, m(name \<mapsto> b)))"

definition manager_allowRequest :: "string \<Rightarrow> int \<Rightarrow> breakers \<Rightarrow> bool \<times> breakers" where
  "manager_allowRequest name now m =
     (let (b, m') = getBreaker name m; (ok, b') = allowRequest now b in (ok, m'(name \<mapsto> b')))"

definition manager_recordSuccess :: "string \<Rightarrow> breakers \<Rightarrow> breakers" where
  "manager_recordSuccess name m = (let (b, m') = getBreaker name m in m'(name \<mapsto> recordSuccess b))"

definition manager_recordFailure :: "string \<Rightarrow> int \<Rightarrow> breakers \<Rightarrow> breakers" where
  "manager_recordFailure name now m =
     (let (b, m') = getBreaker name m in m'(name \<mapsto> recordFailure now b))"

section \<open>Histories\<close>

datatype breaker_event = Ev_allow int | Ev_success | Ev_failure int

text \<open>Histories have the latest event first.\<close>

primrec breaker_after :: "nat \<Rightarrow> int \<Rightarrow> breaker_event list \<Rightarrow> CircuitBreaker" where
  "breaker_after n timeout [] = new_CircuitBreaker n timeout"
| "breaker_after n timeout (e # es) =
     (let b = breaker_after n timeout es in
      case e of Ev_allow now \<Rightarrow> snd (allowRequest now b)
              | Ev_success \<Rightarrow> recordSuccess b
              | Ev_failure now \<Rightarrow> recordFailure now b)"

primrec failures_since_success :: "breaker_event list \<Rightarrow> nat" where
  "failures_since_success [] = 0"
| "failures_since_success (e # es) =
     (case e of Ev_allow _ \<Rightarrow> failures_since_success es
              | Ev_success \<Rightarrow> 0
              | Ev_failure _ \<Rightarrow> failures_since_success es + 1)"

primrec last_failure :: "breaker_event list \<Rightarrow> int" where
  "last_failure [] = 0"
| "last_failure (e # es) = (case e of Ev_failure now \<Rightarrow> now | _ \<Rightarrow> last_failure es)"

definition tripped :: "nat \<Rightarrow> breaker_event list \<Rightarrow> bool" where
  "tripped n es \<longleftrightarrow> max 1 n \<le> failures_since_success es"

text \<open>A probe has been let through since the last failure or success.\<close>

primrec probing :: "nat \<Rightarrow> int \<Rightarrow> breaker_event list \<Rightarrow> bool" where
  "probing n timeout [] = False"
| "probing n timeout (e # es) =
     (case e of Ev_allow now \<Rightarrow> probing n timeout es
                  \<or> (tripped n es \<and> now - last_failure es \<ge> (if timeout > 0 then timeout else 30000))
              | _ \<Rightarrow> False)"

lemma breaker_after_config [simp]:
  "failure_threshold (breaker_after n timeout es) = max 1 n"
  "open_timeout_ms (breaker_after n timeout es) = (if timeout > 0 then timeout else 30000)"
  by (induction es)
     (auto simp: new_CircuitBreaker_def allowRequest_def recordSuccess_def recordFailure_def Let_def
       split: breaker_event.splits)

lemma breaker_after_state:
  "failure_count (breaker_after n timeout es) = failures_since_success es
   \<and> cb_state (breaker_after n timeout es)
      = (if \<not> tripped n es then CLOSED else if probing n timeout es then HALF_OPEN else OPEN)
   \<and> (probing n timeout es \<longrightarrow> tripped n es)
   \<and> (tripped n es \<longrightarrow> opened_at_ms (breaker_after n timeout es) = last_failure es)"
proof (induction es)
  case Nil
  then show ?case
    by (simp add: new_CircuitBreaker_def tripped_def)
next
  case (Cons e es)
  then show ?case
    by (cases e) (auto simp: allowRequest_def recordSuccess_def recordFailure_def Let_def tripped_def)
qed

section \<open>Properties\<close>

text \<open>
  C24. The breaker leaves the closed state exactly when the number of failures recorded since the last
  success has reached the threshold, whatever requests and probes happened in between.
\<close>

theorem breaker_trips_iff:
  "cb_state (breaker_after n timeout es) \<noteq> CLOSED \<longleftrightarrow> max 1 n \<le> failures_since_success es"
  using breaker_after_state [of n timeout es] by (auto simp: tripped_def)

text \<open>
  C25. A request is refused exactly when the breaker is tripped, no probe was let through since the
  last failure, and less than the timeout has passed since that failure. In particular a tripped
  breaker always lets a probe through once the timeout has passed.
\<close>

theorem breaker_refuses_iff:
  "fst (allowRequest now (breaker_after n timeout es)) \<longleftrightarrow>
     \<not> (tripped n es \<and> \<not> probing n timeout es
        \<and> now - last_failure es < (if timeout > 0 then timeout else 30000))"
  using breaker_after_state [of n timeout es] by (auto simp: allowRequest_def)

text \<open>Breakers of different names do not influence each other.\<close>

lemma manager_isolation:
  assumes "other \<noteq> name"
  shows "snd (manager_allowRequest name now m) other = m other"
    "manager_recordSuccess name m other = m other"
    "manager_recordFailure name now m other = m other"
  using assms
  by (auto simp: manager_allowRequest_def manager_recordSuccess_def manager_recordFailure_def
      getBreaker_def Let_def case_prod_beta split: option.splits)

end
