(* ===== verification/Message_Ids.thy ===== *)
theory Message_Ids
  imports Cpp_Text
begin

text \<open>
  Identifiers of messages and conversations: \<^verbatim>\<open>common/message/MessageIdGenerator.cpp\<close> and
  \<^verbatim>\<open>common/message/ConversationId.cpp\<close>. The wall clock is a list of readings that the generator
  consumes one by one; a call that is still waiting when the readings run out has the value \<open>None\<close>.
  The clock may jump back at any time. The theorems: ids of one generator strictly increase, ids of
  generators with different nodes differ, and a call returns as soon as the clock passes the last
  timestamp.
\<close>

section \<open>Message id generator\<close>

definition kEpochMs :: "64 word" where
  "kEpochMs = 1767225600000"

definition kMaxNodeId :: "16 word" where
  "kMaxNodeId = 1023"

definition kSequenceMask :: "16 word" where
  "kSequenceMask = 4095"

record MessageIdGenerator =
  node_id :: "16 word"
  last_timestamp_ms :: "64 word"
  sequence :: "16 word"

definition new_MessageIdGenerator :: "16 word \<Rightarrow> MessageIdGenerator" where
  "new_MessageIdGenerator n =
     \<lparr>node_id = (if n > kMaxNodeId then kMaxNodeId else n), last_timestamp_ms = 0, sequence = 0\<rparr>"

text \<open>One reading of the clock.\<close>

fun currentMs :: "64 word list \<Rightarrow> (64 word \<times> 64 word list) option" where
  "currentMs [] = None"
| "currentMs (t # ts) = Some (t, ts)"

fun waitNextMs :: "64 word \<Rightarrow> 64 word list \<Rightarrow> 64 word list option" where
  "waitNextMs last_ms [] = None"
| "waitNextMs last_ms (now # ts) =
     (if now < kEpochMs \<or> now > last_ms then Some ts else waitNextMs last_ms ts)"

text \<open>The reading after a wait, raised to the epoch and beyond the last timestamp.\<close>

definition timeAfterWait :: "64 word \<Rightarrow> 64 word list \<Rightarrow> (64 word \<times> 64 word list) option" where
  "timeAfterWait last_ms ts =
     Option.bind (waitNextMs last_ms ts) (\<lambda>ts1.
     Option.bind (currentMs ts1) (\<lambda>(t, ts2).
       let now = (if t < kEpochMs then kEpochMs else t) in
       Some (if now \<le> last_ms then last_ms + 1 else now, ts2)))"

definition nextId ::
  "MessageIdGenerator \<Rightarrow> 64 word list \<Rightarrow> (64 word \<times> MessageIdGenerator \<times> 64 word list) option" where
  "nextId g ts =
     Option.bind (currentMs ts) (\<lambda>(t, ts1).
     let now0 = (if t < kEpochMs then kEpochMs else t) in
     Option.bind (if now0 < last_timestamp_ms g then timeAfterWait (last_timestamp_ms g) ts1
                  else Some (now0, ts1)) (\<lambda>(now1, ts2).
     Option.bind (if now1 = last_timestamp_ms g
                  then let s = (sequence g + 1) AND kSequenceMask in
                       if s = 0
                       then map_option (\<lambda>(now, ts3). (now, s, ts3))
                              (timeAfterWait (last_timestamp_ms g) ts2)
                       else Some (now1, s, ts2)
                  else Some (now1, 0, ts2)) (\<lambda>(now, s, ts3).
     Some (push_bit 22 (now - kEpochMs) OR push_bit 12 (ucast (node_id g)) OR ucast s,
           g\<lparr>last_timestamp_ms := now, sequence := s\<rparr>, ts3))))"

section \<open>Conversation ids\<close>

definition fnv1a64 :: "string \<Rightarrow> 64 word" where
  "fnv1a64 input =
     foldl (\<lambda>hash c. (hash XOR of_nat (of_char c)) * 1099511628211) 1469598103934665603 input"

definition conversation_single :: "64 word \<Rightarrow> 64 word \<Rightarrow> 64 word" where
  "conversation_single user_a user_b =
     (let a = min user_a user_b; b = max user_a user_b in
      fnv1a64 (''single:'' @ to_string (unat a) @ '':'' @ to_string (unat b)))"

definition conversation_group :: "64 word \<Rightarrow> 64 word" where
  "conversation_group group_id = fnv1a64 (''group:'' @ to_string (unat group_id))"

section \<open>Layout of an id\<close>

text \<open>The three fields of an id: milliseconds since the epoch, node, sequence number.\<close>

definition id_layout :: "nat \<Rightarrow> nat \<Rightarrow> nat \<Rightarrow> nat" where
  "id_layout ms node seq = ms * 2 ^ 22 + node * 2 ^ 12 + seq"

definition gen_inv :: "MessageIdGenerator \<Rightarrow> bool" where
  "gen_inv g \<longleftrightarrow> node_id g \<le> kMaxNodeId \<and> sequence g \<le> kSequenceMask
     \<and> (last_timestamp_ms g = 0 \<or> kEpochMs \<le> last_timestamp_ms g)"

lemma or_disjoint_add:
  fixes a :: nat
  assumes "b < 2 ^ n"
  shows "push_bit n a OR b = a * 2 ^ n + b"
proof -
  have "push_bit n a AND b = 0"
  proof (rule bit_eqI)
    fix k
    have "\<not> bit b k" if "n \<le> k"
    proof -
      have "b < 2 ^ k"
        by (rule order_less_le_trans [OF assms]) (use that in simp)
      then show ?thesis
        by (simp add: bit_iff_odd)
    qed
    then show "bit (push_bit n a AND b) k \<longleftrightarrow> bit 0 k"
      by (auto simp: bit_simps)
  qed
  then show ?thesis
    by (simp add: disjunctive_add_eq_or push_bit_eq_mult flip: disjunctive_add_eq_or)
qed

lemma unat_id_word:
  fixes x :: "64 word" and n s :: "16 word"
  assumes "unat x < 2 ^ 42" "n \<le> kMaxNodeId" "s \<le> kSequenceMask"
  shows "unat (push_bit 22 x OR push_bit 12 (ucast n :: 64 word) OR ucast s)
     = id_layout (unat x) (unat n) (unat s)"
proof -
  have n: "unat n < 2 ^ 10" and s: "unat s < 2 ^ 12"
    using assms(2,3) by (simp_all add: word_le_nat_alt kMaxNodeId_def kSequenceMask_def)
  have u: "unat (ucast n :: 64 word) = unat n" "unat (ucast s :: 64 word) = unat s"
    by (simp_all add: unsigned_ucast_eq take_bit_nat_eq_self_iff order_less_trans [OF unsigned_less])
  have "unat (push_bit 12 (ucast n :: 64 word)) = push_bit 12 (unat n)"
    unfolding unsigned_push_bit_eq u using n by (simp add: push_bit_eq_mult take_bit_nat_eq_self_iff)
  moreover have "unat (push_bit 22 x) = push_bit 22 (unat x)"
    unfolding unsigned_push_bit_eq using assms(1) by (simp add: push_bit_eq_mult take_bit_nat_eq_self_iff)
  ultimately have "unat (push_bit 22 x OR push_bit 12 (ucast n :: 64 word) OR ucast s)
      = push_bit 22 (unat x) OR (push_bit 12 (unat n) OR unat s)"
    by (simp add: unsigned_or_eq u or.assoc)
  also have "\<dots> = id_layout (unat x) (unat n) (unat s)"
    using n s by (simp add: or_disjoint_add id_layout_def)
  finally show ?thesis .
qed

lemma id_layout_inject:
  assumes "n < 2 ^ 10" "s < 2 ^ 12" "n' < 2 ^ 10" "s' < 2 ^ 12" "id_layout m n s = id_layout m' n' s'"
  shows "m = m'" "n = n'" "s = s'"
proof -
  show m: "m = m'"
    using assms by (simp add: id_layout_def)
  show n: "n = n'"
    using assms m by (simp add: id_layout_def)
  show "s = s'"
    using assms m n by (simp add: id_layout_def)
qed

lemma id_layout_less:
  assumes "n < 2 ^ 10" "s < 2 ^ 12" "s' < 2 ^ 12" "m < m' \<or> (m = m' \<and> s < s')"
  shows "id_layout m n s < id_layout m' n s'"
  using assms by (auto simp: id_layout_def)

section \<open>One call\<close>

text \<open>
  The outcome of a call: a later timestamp with sequence number zero, or the same timestamp with the
  next sequence number, or (after a full wrap of the sequence) a later timestamp again.
\<close>

lemma unat_plus_one: "unat (w :: 64 word) + 1 < 2 ^ 64 \<Longrightarrow> unat (w + 1) = unat w + 1"
  by (simp add: unat_word_ariths)

lemma timeAfterWait_D:
  assumes "timeAfterWait last_ms ts = Some (now, ts')" "unat last_ms + 1 < 2 ^ 64"
  shows "last_ms < now" "kEpochMs \<le> now \<or> now = last_ms + 1"
proof -
  have "last_ms < last_ms + 1"
    using unat_plus_one [OF assms(2)] by (simp add: word_less_nat_alt)
  then show "last_ms < now"
    using assms(1) by (auto simp: timeAfterWait_def Let_def bind_eq_Some_conv not_le split: if_splits)
  show "kEpochMs \<le> now \<or> now = last_ms + 1"
    using assms(1) by (auto simp: timeAfterWait_def Let_def bind_eq_Some_conv split: if_splits)
qed

lemma kEpoch_le_after_wait:
  assumes "timeAfterWait last_ms ts = Some (now, ts')" "unat last_ms + 1 < 2 ^ 64"
    "last_ms = 0 \<or> kEpochMs \<le> last_ms"
  shows "kEpochMs \<le> now"
  using assms(1,3) timeAfterWait_D [OF assms(1,2)]
  by (auto simp: timeAfterWait_def Let_def bind_eq_Some_conv kEpochMs_def split: if_splits)

lemma masked_sequence:
  fixes s :: "16 word"
  assumes "s \<le> kSequenceMask" "(s + 1) AND kSequenceMask \<noteq> 0"
  shows "(s + 1) AND kSequenceMask = s + 1" "unat (s + 1) = unat s + 1"
proof -
  have m: "kSequenceMask = mask 12"
    by (simp add: kSequenceMask_def mask_eq_exp_minus_1)
  have le: "unat s \<le> 4095"
    using assms(1) by (simp add: word_le_nat_alt kSequenceMask_def)
  show u: "unat (s + 1) = unat s + 1"
    using le by (simp add: unat_word_ariths)
  have "unat ((s + 1) AND kSequenceMask) = unat (take_bit 12 (s + 1))"
    by (simp only: m take_bit_eq_mask)
  also have "\<dots> = (unat s + 1) mod 4096"
    by (simp only: unsigned_take_bit_eq u) (simp add: take_bit_eq_mod)
  finally have md: "unat ((s + 1) AND kSequenceMask) = (unat s + 1) mod 4096" .
  then have "unat s \<noteq> 4095"
    using assms(2) by (auto simp: unat_eq_0)
  then have "unat ((s + 1) AND kSequenceMask) = unat (s + 1)"
    using le u md by simp
  then show "(s + 1) AND kSequenceMask = s + 1"
    by (simp only: word_unat_eq_iff)
qed

text \<open>
  A successful call advances the pair of timestamp and sequence number and returns their encoding.
\<close>

lemma nextId_D:
  assumes "gen_inv g" "nextId g ts = Some (i, g', ts')" "unat (last_timestamp_ms g) + 1 < 2 ^ 64"
  shows "gen_inv g' \<and> node_id g' = node_id g \<and> kEpochMs \<le> last_timestamp_ms g'
     \<and> i = push_bit 22 (last_timestamp_ms g' - kEpochMs) OR push_bit 12 (ucast (node_id g'))
            OR ucast (sequence g')
     \<and> (last_timestamp_ms g < last_timestamp_ms g'
        \<or> (last_timestamp_ms g = last_timestamp_ms g' \<and> unat (sequence g') = unat (sequence g) + 1))"
proof -
  obtain t ts1 where t: "currentMs ts = Some (t, ts1)"
    using assms(2) by (auto simp: nextId_def bind_eq_Some_conv)
  define now0 where "now0 = (if t < kEpochMs then kEpochMs else t)"
  obtain now1 ts2 where n1: "(if now0 < last_timestamp_ms g then timeAfterWait (last_timestamp_ms g) ts1
      else Some (now0, ts1)) = Some (now1, ts2)"
    using assms(2) t by (auto simp: nextId_def bind_eq_Some_conv Let_def simp flip: now0_def cong: if_cong)
  define s where "s = (sequence g + 1) AND kSequenceMask"
  obtain now q ts3 where n2: "(if now1 = last_timestamp_ms g
                  then if s = 0
                       then map_option (\<lambda>(now, ts3). (now, s, ts3))
                              (timeAfterWait (last_timestamp_ms g) ts2)
                       else Some (now1, s, ts2)
                  else Some (now1, 0, ts2)) = Some (now, q, ts3)"
    and g': "g' = g\<lparr>last_timestamp_ms := now, sequence := q\<rparr>"
      "i = push_bit 22 (now - kEpochMs) OR push_bit 12 (ucast (node_id g)) OR ucast q"
    using assms(2) t n1
    by (auto simp: nextId_def bind_eq_Some_conv Let_def simp flip: now0_def s_def cong: if_cong)
  have ge: "last_timestamp_ms g \<le> now1" "kEpochMs \<le> now1"
    using n1 timeAfterWait_D(1) [OF _ assms(3)] kEpoch_le_after_wait [OF _ assms(3)] assms(1)
    by (auto simp: gen_inv_def now0_def not_less split: if_splits intro: less_imp_le)
  have seq: "sequence g \<le> kSequenceMask" and node: "node_id g \<le> kMaxNodeId"
    and ep: "last_timestamp_ms g = 0 \<or> kEpochMs \<le> last_timestamp_ms g"
    using assms(1) by (auto simp: gen_inv_def)
  consider "now1 = last_timestamp_ms g" "s = 0" "last_timestamp_ms g < now" "kEpochMs \<le> now" "q = 0"
    | "now1 = last_timestamp_ms g" "s \<noteq> 0" "now = last_timestamp_ms g" "q = s"
    | "now1 \<noteq> last_timestamp_ms g" "now = now1" "q = 0"
    using n2 timeAfterWait_D(1) [OF _ assms(3)] kEpoch_le_after_wait [OF _ assms(3) ep]
    by (auto split: if_splits)
  then show ?thesis
  proof cases
    case 1
    then show ?thesis
      using node by (simp add: g' gen_inv_def)
  next
    case 2
    then have "q = sequence g + 1" "unat q = unat (sequence g) + 1"
      using masked_sequence [OF seq] by (auto simp: s_def)
    moreover have "q \<le> kSequenceMask"
      using 2(4) by (simp add: s_def word_and_le1)
    ultimately show ?thesis
      using 2 ge node by (simp add: g' gen_inv_def)
  next
    case 3
    then show ?thesis
      using ge node by (auto simp: g' gen_inv_def order.strict_iff_order)
  qed
qed

section \<open>Many calls\<close>

fun nextIds :: "nat \<Rightarrow> MessageIdGenerator \<Rightarrow> 64 word list \<Rightarrow> (64 word list \<times> MessageIdGenerator) option" where
  "nextIds 0 g ts = Some ([], g)"
| "nextIds (Suc n) g ts =
     (case nextId g ts of
        None \<Rightarrow> None
      | Some (i, g', ts') \<Rightarrow> map_option (\<lambda>(is, g''). (i # is, g'')) (nextIds n g' ts'))"

definition state_id :: "MessageIdGenerator \<Rightarrow> nat" where
  "state_id g = id_layout (unat (last_timestamp_ms g - kEpochMs)) (unat (node_id g)) (unat (sequence g))"

lemma waitNextMs_subset: "waitNextMs l ts = Some ts' \<Longrightarrow> set ts' \<subseteq> set ts"
  by (induction l ts rule: waitNextMs.induct) (auto split: if_splits)

lemma currentMs_D: "currentMs ts = Some (t, ts') \<Longrightarrow> t \<in> set ts \<and> set ts' \<subseteq> set ts"
  by (cases ts) auto

lemma timeAfterWait_bound:
  assumes "timeAfterWait l ts = Some (now, ts')" "\<forall>t \<in> set ts. unat t \<le> B" "unat kEpochMs \<le> B"
    "unat l + 1 < 2 ^ 64"
  shows "unat now \<le> max B (unat l + 1)" "set ts' \<subseteq> set ts"
  using assms unat_plus_one [OF assms(4)]
  by (fastforce simp: timeAfterWait_def Let_def bind_eq_Some_conv max_def split: if_splits
      dest!: waitNextMs_subset currentMs_D)+

lemma nextId_bound:
  assumes "nextId g ts = Some (i, g', ts')" "\<forall>t \<in> set ts. unat t \<le> B" "unat kEpochMs \<le> B"
    "unat (last_timestamp_ms g) \<le> C" "B \<le> C" "C + 1 < 2 ^ 64"
  shows "unat (last_timestamp_ms g') \<le> C + 1 \<and> set ts' \<subseteq> set ts"
proof -
  let ?l = "last_timestamp_ms g"
  have l: "unat ?l + 1 < 2 ^ 64"
    using assms(4,6) by simp
  have w: "unat now \<le> C + 1 \<and> set us' \<subseteq> set ts"
    if "timeAfterWait ?l us = Some (now, us')" "set us \<subseteq> set ts" for us us' now
  proof -
    have "\<forall>t \<in> set us. unat t \<le> B"
      using assms(2) that(2) by blast
    then show ?thesis
      using timeAfterWait_bound [OF that(1) _ assms(3) l] assms(4,5) that(2) by (auto simp: max_def split: if_splits)
  qed
  obtain t ts1 where t: "currentMs ts = Some (t, ts1)"
    using assms(1) by (auto simp: nextId_def bind_eq_Some_conv)
  define now0 where "now0 = (if t < kEpochMs then kEpochMs else t)"
  have t': "unat now0 \<le> C + 1" "set ts1 \<subseteq> set ts"
    using currentMs_D [OF t] assms(2,3,5) by (auto simp: now0_def)
  obtain now1 ts2 where n1: "(if now0 < ?l then timeAfterWait ?l ts1 else Some (now0, ts1)) = Some (now1, ts2)"
    using assms(1) t by (auto simp: nextId_def bind_eq_Some_conv Let_def simp flip: now0_def cong: if_cong)
  have n1': "unat now1 \<le> C + 1" "set ts2 \<subseteq> set ts"
    using n1 t' w by (auto split: if_splits)
  obtain now where "last_timestamp_ms g' = now"
    "(\<exists>us'. timeAfterWait ?l ts2 = Some (now, us') \<and> ts' = us') \<or> (now = now1 \<and> ts' = ts2)"
    using assms(1) t n1
    by (auto simp: nextId_def bind_eq_Some_conv Let_def simp flip: now0_def cong: if_cong split: if_splits)
  then show ?thesis
    using n1' w [of ts2] by auto
qed

lemma nextId_state_id:
  assumes "gen_inv g" "nextId g ts = Some (i, g', ts')" "unat (last_timestamp_ms g) + 1 < 2 ^ 64"
    "unat (last_timestamp_ms g') < unat kEpochMs + 2 ^ 42"
  shows "unat i = state_id g'" "kEpochMs \<le> last_timestamp_ms g \<Longrightarrow> state_id g < unat i"
proof -
  note d = nextId_D [OF assms(1-3)]
  have sub: "unat (t - kEpochMs) = unat t - unat kEpochMs" if "kEpochMs \<le> t" for t
    using that by (simp add: unat_sub word_le_nat_alt)
  have fits: "unat (last_timestamp_ms g' - kEpochMs) < 2 ^ 42"
    using sub d assms(4) by (auto simp: word_le_nat_alt)
  show i: "unat i = state_id g'"
    using d unat_id_word [OF fits, of "node_id g'" "sequence g'"]
    by (auto simp: gen_inv_def state_id_def)
  assume ep: "kEpochMs \<le> last_timestamp_ms g"
  have b: "unat (node_id g) < 2 ^ 10" "unat (sequence g) < 2 ^ 12" "unat (sequence g') < 2 ^ 12"
    using assms(1) d by (auto simp: gen_inv_def word_le_nat_alt kMaxNodeId_def kSequenceMask_def)
  have "unat (last_timestamp_ms g - kEpochMs) < unat (last_timestamp_ms g' - kEpochMs)
      \<or> (unat (last_timestamp_ms g - kEpochMs) = unat (last_timestamp_ms g' - kEpochMs)
         \<and> unat (sequence g) < unat (sequence g'))"
    using d ep sub by (auto simp: word_le_nat_alt word_less_nat_alt)
  then have "state_id g < state_id g'"
    using id_layout_less [OF b] d by (simp add: state_id_def)
  then show "state_id g < unat i"
    by (simp add: i)
qed

lemma nextIds_increasing:
  assumes "nextIds n g ts = Some (is, g')" "gen_inv g" "\<forall>t \<in> set ts. unat t \<le> B"
    "unat kEpochMs \<le> B" "unat (last_timestamp_ms g) \<le> C" "B \<le> C" "C + n < unat kEpochMs + 2 ^ 42"
  shows "sorted_wrt (<) is
     \<and> (\<forall>i \<in> set is. \<exists>m s. s < 2 ^ 12 \<and> unat i = id_layout m (unat (node_id g)) s)
     \<and> (kEpochMs \<le> last_timestamp_ms g \<longrightarrow> (\<forall>i \<in> set is. state_id g < unat i))"
  using assms
proof (induction n arbitrary: g ts "is" C)
  case 0
  then show ?case by simp
next
  case (Suc n)
  obtain i h ts' "is'" where c: "nextId g ts = Some (i, h, ts')" "nextIds n h ts' = Some (is', g')"
    "is = i # is'"
    using Suc.prems(1) by (auto split: option.splits)
  have lim: "C + 1 < 2 ^ 64"
    using Suc.prems(7) by (simp add: kEpochMs_def)
  have b: "unat (last_timestamp_ms h) \<le> C + 1" "set ts' \<subseteq> set ts"
    using nextId_bound [OF c(1) Suc.prems(3-6) lim] by auto
  have l: "unat (last_timestamp_ms g) + 1 < 2 ^ 64"
    using Suc.prems(5) lim by simp
  note d = nextId_D [OF Suc.prems(2) c(1) l]
  have i: "unat i = state_id h" "kEpochMs \<le> last_timestamp_ms g \<Longrightarrow> state_id g < unat i"
    using nextId_state_id [OF Suc.prems(2) c(1) l] b(1) Suc.prems(7) by auto
  have IH: "sorted_wrt (<) is'
     \<and> (\<forall>j \<in> set is'. \<exists>m s. s < 2 ^ 12 \<and> unat j = id_layout m (unat (node_id h)) s)
     \<and> (kEpochMs \<le> last_timestamp_ms h \<longrightarrow> (\<forall>j \<in> set is'. state_id h < unat j))"
    by (rule Suc.IH [of h ts' _ "C + 1"]) (use c d b Suc.prems in auto)
  have "unat (sequence h) < 2 ^ 12"
    using d by (auto simp: gen_inv_def word_le_nat_alt kSequenceMask_def)
  then have "\<exists>m s. s < 2 ^ 12 \<and> unat i = id_layout m (unat (node_id g)) s"
    using i(1) d by (auto simp: state_id_def)
  moreover have "\<forall>j \<in> set is'. i < j"
    using IH d i(1) by (simp add: word_less_nat_alt)
  moreover have "\<forall>j \<in> set is'. state_id g < unat j" if "kEpochMs \<le> last_timestamp_ms g"
    using i(2) [OF that] calculation(2) by (auto simp: word_less_nat_alt)
  ultimately show ?case
    using IH d i(2) by (simp add: c(3))
qed

lemma gen_inv_new: "gen_inv (new_MessageIdGenerator n)"
  by (auto simp: gen_inv_def new_MessageIdGenerator_def kSequenceMask_def not_less)

lemma waitNextMs_passes:
  "p < kEpochMs \<or> l < p \<Longrightarrow> \<exists>ts. waitNextMs l (ws @ p # r # rest) = Some ts \<and> ts \<noteq> []"
  by (induction ws) auto

section \<open>Properties\<close>

text \<open>
  C26. Ids are unique and ordered: the ids a node draws in any number of calls strictly increase,
  however the clock jumps, as long as its readings stay in the 42 bit range after the epoch.
\<close>

theorem ids_strictly_increase:
  assumes "nextIds n (new_MessageIdGenerator node) ts = Some (is, g)"
    and "\<forall>t \<in> set ts. unat t \<le> B" and "unat kEpochMs \<le> B" and "B + n < unat kEpochMs + 2 ^ 42"
  shows "sorted_wrt (<) is"
  using nextIds_increasing [OF assms(1) gen_inv_new assms(2,3), of B] assms(4)
  by (simp add: new_MessageIdGenerator_def)

theorem ids_strictly_increase_witness:
  "\<exists>is g. nextIds 3 (new_MessageIdGenerator 5) [1767225600007, 1767225600007, 3, 1767225600010, 1767225600011]
       = Some (is, g) \<and> length is = 3 \<and> sorted_wrt (<) is"
proof -
  let ?ts = "[1767225600007, 1767225600007, 3, 1767225600010, 1767225600011] :: 64 word list"
  obtain "is" g where r: "nextIds 3 (new_MessageIdGenerator 5) ?ts = Some (is, g)" "length is = 3"
    by (simp add: numeral_3_eq_3 nextId_def timeAfterWait_def new_MessageIdGenerator_def kEpochMs_def
        kMaxNodeId_def kSequenceMask_def)
  then show ?thesis
    using ids_strictly_increase [of 3 5 ?ts "is" g 1767225600011] by (auto simp: kEpochMs_def)
qed

text \<open>
  C27. Generators with different nodes never return the same id.
\<close>

theorem ids_of_nodes_disjoint:
  assumes "nextIds n (new_MessageIdGenerator a) ts = Some (is, g)"
    and "nextIds m (new_MessageIdGenerator b) us = Some (js, h)"
    and "node_id (new_MessageIdGenerator a) \<noteq> node_id (new_MessageIdGenerator b)"
    and "\<forall>t \<in> set ts \<union> set us. unat t \<le> B" and "unat kEpochMs \<le> B"
    and "B + n < unat kEpochMs + 2 ^ 42" and "B + m < unat kEpochMs + 2 ^ 42"
  shows "set is \<inter> set js = {}"
proof -
  have n: "unat (node_id (new_MessageIdGenerator x)) < 2 ^ 10" for x
    using gen_inv_new [of x] by (simp add: gen_inv_def word_le_nat_alt kMaxNodeId_def)
  have "\<forall>i \<in> set is. \<exists>m s. s < 2 ^ 12 \<and> unat i = id_layout m (unat (node_id (new_MessageIdGenerator a))) s"
    "\<forall>j \<in> set js. \<exists>m s. s < 2 ^ 12 \<and> unat j = id_layout m (unat (node_id (new_MessageIdGenerator b))) s"
    using nextIds_increasing [OF assms(1) gen_inv_new, of B B] nextIds_increasing [OF assms(2) gen_inv_new, of B B]
      assms(4-7) by (auto simp: new_MessageIdGenerator_def)
  then show ?thesis
    using id_layout_inject(2) [OF n _ n] assms(3) by (fastforce simp: word_unat_eq_iff)
qed

theorem ids_of_nodes_disjoint_witness:
  "\<exists>is g js h. nextIds 1 (new_MessageIdGenerator 1) [1767225600007] = Some (is, g)
     \<and> nextIds 1 (new_MessageIdGenerator 2) [1767225600007] = Some (js, h) \<and> is \<noteq> [] \<and> js \<noteq> []
     \<and> set is \<inter> set js = {}"
proof -
  obtain "is" g where r: "nextIds 1 (new_MessageIdGenerator 1) [1767225600007] = Some (is, g)" "is \<noteq> []"
    by (simp add: nextId_def new_MessageIdGenerator_def kEpochMs_def kMaxNodeId_def)
  obtain js h where q: "nextIds 1 (new_MessageIdGenerator 2) [1767225600007] = Some (js, h)" "js \<noteq> []"
    by (simp add: nextId_def new_MessageIdGenerator_def kEpochMs_def kMaxNodeId_def)
  show ?thesis
    using ids_of_nodes_disjoint [OF r(1) q(1), of 1767225600007] r q
    by (auto simp: kEpochMs_def new_MessageIdGenerator_def kMaxNodeId_def)
qed

text \<open>
  C28. A call never waits forever on a clock that moves: it returns as soon as a reading passes the
  last timestamp (or falls before the epoch) and one more reading follows, whatever came before.
\<close>

theorem nextId_returns:
  assumes "p < kEpochMs \<or> last_timestamp_ms g < p"
  shows "\<exists>i g' ts'. nextId g (t # ws @ p # r # rest) = Some (i, g', ts')"
proof -
  obtain u us where "waitNextMs (last_timestamp_ms g) (ws @ p # r # rest) = Some (u # us)"
    using waitNextMs_passes [OF assms, of ws r rest] by (metis neq_Nil_conv)
  then have w: "\<exists>now ts'. timeAfterWait (last_timestamp_ms g) (ws @ p # r # rest) = Some (now, ts')
      \<and> now \<noteq> last_timestamp_ms g"
    by (auto simp: timeAfterWait_def Let_def)
  then show ?thesis
    by (auto simp: nextId_def Let_def)
qed

theorem nextId_returns_witness:
  "\<exists>i g' ts'. nextId (new_MessageIdGenerator 1) (0 # [0] @ 7 # 8 # []) = Some (i, g', ts')"
  by (rule nextId_returns) (simp add: kEpochMs_def)

text \<open>A conversation between two users has one id, whichever of them it is computed for.\<close>

lemma conversation_single_commute: "conversation_single a b = conversation_single b a"
  by (simp add: conversation_single_def min.commute max.commute)

end
