(* ===== verification/Connection_Manager.thy ===== *)
theory Connection_Manager
  imports Cpp_Text "HOL-Library.AList"
begin

text \<open>
  The gateway's table of client connections, \<^verbatim>\<open>common/gateway/ConnectionManager.cpp\<close>. The hash maps are
  association lists with distinct keys; a connection object is a handle. The wall clock reading is
  an argument, and \<open>bindUser\<close> also returns the connection it force-closes. The abstract view is
  \<open>routes\<close>: which connection serves a device of a user. Every operation is shown to act on it as
  specified, and the tables stay consistent for every history of operations.
\<close>

section \<open>State\<close>

type_synonym handle = nat

record ConnectionContext =
  connection_id :: string
  ctx_user_id :: u64
  token :: string
  device_id :: string
  platform :: string
  authenticated :: bool
  websocket :: bool
  connected_at_ms :: int
  last_active_ms :: int
  peer_addr :: string

definition new_ConnectionContext :: ConnectionContext where
  "new_ConnectionContext = \<lparr>connection_id = [], ctx_user_id = 0, token = [], device_id = [], platform = [],
     authenticated = False, websocket = False, connected_at_ms = 0, last_active_ms = 0, peer_addr = []\<rparr>"

record ConnectionManager =
  gateway_id :: string
  connections :: "(string \<times> handle) list"
  contexts :: "(string \<times> ConnectionContext) list"
  user_device_to_connection :: "(u64 \<times> (string \<times> string) list) list"
  next_conn_id :: nat

definition new_ConnectionManager :: "string \<Rightarrow> ConnectionManager" where
  "new_ConnectionManager gid =
     \<lparr>gateway_id = gid, connections = [], contexts = [], user_device_to_connection = [], next_conn_id = 1\<rparr>"

section \<open>Operations\<close>

definition generateConnectionId :: "ConnectionManager \<Rightarrow> string \<times> ConnectionManager" where
  "generateConnectionId m =
     (gateway_id m @ ''-conn-'' @ to_string (next_conn_id m), m\<lparr>next_conn_id := next_conn_id m + 1\<rparr>)"

definition addConnection ::
  "handle \<Rightarrow> string \<Rightarrow> int \<Rightarrow> ConnectionManager \<Rightarrow> string \<times> ConnectionManager" where
  "addConnection conn peer now m =
     (let (i, m1) = generateConnectionId m;
          ctx = new_ConnectionContext\<lparr>connection_id := i, connected_at_ms := now, last_active_ms := now,
                  peer_addr := peer\<rparr>
      in (i, m1\<lparr>connections := AList.update i conn (connections m1),
               contexts := AList.update i ctx (contexts m1)\<rparr>))"

text \<open>
  The block both \<open>removeConnection\<close> and \<open>bindUser\<close> run on the user/device map: drop the device entry
  if it is this connection's, then the user entry if no device is left.
\<close>

definition unmapDevice ::
  "u64 \<Rightarrow> string \<Rightarrow> string \<Rightarrow> (u64 \<times> (string \<times> string) list) list
     \<Rightarrow> (u64 \<times> (string \<times> string) list) list" where
  "unmapDevice u d c ud =
     (case map_of ud u of
        None \<Rightarrow> ud
      | Some dm \<Rightarrow>
          let dm' = (if map_of dm d = Some c then AList.delete d dm else dm)
          in if dm' = [] then AList.delete u ud else AList.update u dm' ud)"

definition removeConnection :: "string \<Rightarrow> ConnectionManager \<Rightarrow> ConnectionManager" where
  "removeConnection c m =
     (let ud = (case map_of (contexts m) c of
                  Some ctx \<Rightarrow>
                    if ctx_user_id ctx \<noteq> 0
                    then unmapDevice (ctx_user_id ctx) (device_id ctx) c (user_device_to_connection m)
                    else user_device_to_connection m
                | None \<Rightarrow> user_device_to_connection m)
      in m\<lparr>user_device_to_connection := ud, contexts := AList.delete c (contexts m),
           connections := AList.delete c (connections m)\<rparr>)"

text \<open>The result: the returned value, the connection that is force-closed, and the new table.\<close>

definition bindUser ::
  "string \<Rightarrow> u64 \<Rightarrow> string \<Rightarrow> string \<Rightarrow> string \<Rightarrow> int \<Rightarrow> ConnectionManager
     \<Rightarrow> bool \<times> handle option \<times> ConnectionManager" where
  "bindUser c u tok d plat now m =
     (if u = 0 \<or> d = [] then (False, None, m)
      else case map_of (contexts m) c of
        None \<Rightarrow> (False, None, m)
      | Some ctx \<Rightarrow>
          let ud1 = (if ctx_user_id ctx \<noteq> 0 \<and> device_id ctx \<noteq> []
                     then unmapDevice (ctx_user_id ctx) (device_id ctx) c (user_device_to_connection m)
                     else user_device_to_connection m);
              device_map = (case map_of ud1 u of None \<Rightarrow> [] | Some dm \<Rightarrow> dm);
              replaced = (case map_of device_map d of
                            Some c' \<Rightarrow> if c' \<noteq> c then map_of (connections m) c' else None
                          | None \<Rightarrow> None);
              ctx' = ctx\<lparr>ctx_user_id := u, token := tok, device_id := d, platform := plat,
                         authenticated := True, last_active_ms := now\<rparr>
          in (True, replaced,
              m\<lparr>contexts := AList.update c ctx' (contexts m),
                user_device_to_connection := AList.update u (AList.update d c device_map) ud1\<rparr>))"

definition markWebSocket :: "string \<Rightarrow> bool \<Rightarrow> ConnectionManager \<Rightarrow> bool \<times> ConnectionManager" where
  "markWebSocket c ws m =
     (case map_of (contexts m) c of
        None \<Rightarrow> (False, m)
      | Some ctx \<Rightarrow> (True, m\<lparr>contexts := AList.update c (ctx\<lparr>websocket := ws\<rparr>) (contexts m)\<rparr>))"

definition updateActiveTime :: "string \<Rightarrow> int \<Rightarrow> ConnectionManager \<Rightarrow> bool \<times> ConnectionManager" where
  "updateActiveTime c now m =
     (case map_of (contexts m) c of
        None \<Rightarrow> (False, m)
      | Some ctx \<Rightarrow> (True, m\<lparr>contexts := AList.update c (ctx\<lparr>last_active_ms := now\<rparr>) (contexts m)\<rparr>))"

definition getContext :: "string \<Rightarrow> ConnectionManager \<Rightarrow> ConnectionContext option" where
  "getContext c m = map_of (contexts m) c"

definition getConnection :: "string \<Rightarrow> ConnectionManager \<Rightarrow> handle option" where
  "getConnection c m = map_of (connections m) c"

definition getConnectionsByUserId :: "u64 \<Rightarrow> ConnectionManager \<Rightarrow> handle list" where
  "getConnectionsByUserId u m =
     (case map_of (user_device_to_connection m) u of
        None \<Rightarrow> []
      | Some dm \<Rightarrow> List.map_filter (\<lambda>(d, c). map_of (connections m) c) dm)"

definition getContextsByUserId :: "u64 \<Rightarrow> ConnectionManager \<Rightarrow> ConnectionContext list" where
  "getContextsByUserId u m =
     (case map_of (user_device_to_connection m) u of
        None \<Rightarrow> []
      | Some dm \<Rightarrow> List.map_filter (\<lambda>(d, c). map_of (contexts m) c) dm)"

definition getTimeoutConnections :: "int \<Rightarrow> int \<Rightarrow> ConnectionManager \<Rightarrow> string list" where
  "getTimeoutConnections now_ms timeout_ms m =
     map fst (filter (\<lambda>(c, ctx). now_ms - last_active_ms ctx > timeout_ms) (contexts m))"

definition connectionCount :: "ConnectionManager \<Rightarrow> nat" where
  "connectionCount m = length (connections m)"

definition onlineUserCount :: "ConnectionManager \<Rightarrow> nat" where
  "onlineUserCount m = length (user_device_to_connection m)"

section \<open>Abstract view and invariant\<close>

definition routes_in :: "(u64 \<times> (string \<times> string) list) list \<Rightarrow> u64 \<Rightarrow> string \<Rightarrow> string option" where
  "routes_in ud u d = Option.bind (map_of ud u) (\<lambda>dm. map_of dm d)"

definition routes :: "ConnectionManager \<Rightarrow> u64 \<Rightarrow> string \<Rightarrow> string option" where
  "routes m = routes_in (user_device_to_connection m)"

definition ud_ok :: "(u64 \<times> (string \<times> string) list) list \<Rightarrow> bool" where
  "ud_ok ud \<longleftrightarrow> distinct (map fst ud) \<and> (\<forall>(u, dm) \<in> set ud. dm \<noteq> [] \<and> distinct (map fst dm))"

definition tables_ok :: "ConnectionManager \<Rightarrow> bool" where
  "tables_ok m \<longleftrightarrow> distinct (map fst (contexts m)) \<and> distinct (map fst (connections m))
     \<and> ud_ok (user_device_to_connection m)"

definition ids_ok :: "ConnectionManager \<Rightarrow> bool" where
  "ids_ok m \<longleftrightarrow>
     (\<forall>c. (map_of (contexts m) c = None) = (map_of (connections m) c = None)
        \<and> (\<forall>ctx. map_of (contexts m) c = Some ctx \<longrightarrow> connection_id ctx = c
             \<and> (\<exists>n < next_conn_id m. c = gateway_id m @ ''-conn-'' @ to_string n)))"

definition routes_ok :: "ConnectionManager \<Rightarrow> bool" where
  "routes_ok m \<longleftrightarrow>
     (\<forall>u d c. routes m u d = Some c \<longrightarrow>
        (\<exists>ctx. map_of (contexts m) c = Some ctx \<and> ctx_user_id ctx = u \<and> device_id ctx = d
           \<and> authenticated ctx \<and> u \<noteq> 0 \<and> d \<noteq> []))"

definition conn_inv :: "ConnectionManager \<Rightarrow> bool" where
  "conn_inv m \<longleftrightarrow> tables_ok m \<and> ids_ok m \<and> routes_ok m"

declare map_of_eq_Some_iff [simp del] Some_eq_map_of_iff [simp del]

lemma map_of_update [store_simps]: "map_of (AList.update k v al) q = (if q = k then Some v else map_of al q)"
  by (simp add: update_conv')

lemma map_of_delete [store_simps]: "map_of (AList.delete k al) q = (if q = k then None else map_of al q)"
  by (simp add: delete_conv')

lemma distinct_delete_fst: "distinct (map fst al) \<Longrightarrow> distinct (map fst (AList.delete k al))"
  by (rule distinct_delete)

lemma ud_ok_iff:
  "ud_ok ud \<longleftrightarrow> distinct (map fst ud) \<and> (\<forall>u dm. map_of ud u = Some dm \<longrightarrow> dm \<noteq> [] \<and> distinct (map fst dm))"
  by (fastforce simp: ud_ok_def map_of_eq_Some_iff)

lemma ud_ok_lookup: "ud_ok ud \<Longrightarrow> map_of ud u = Some dm \<Longrightarrow> dm \<noteq> [] \<and> distinct (map fst dm)"
  unfolding ud_ok_iff by blast

lemma ud_ok_delete: "ud_ok ud \<Longrightarrow> ud_ok (AList.delete u ud)"
  unfolding ud_ok_iff map_of_delete using distinct_delete [of ud u] by simp

lemma ud_ok_update:
  "ud_ok ud \<Longrightarrow> dm \<noteq> [] \<Longrightarrow> distinct (map fst dm) \<Longrightarrow> ud_ok (AList.update u dm ud)"
  unfolding ud_ok_iff map_of_update using distinct_update [of ud u dm] by simp

lemma delete_singleton_lookup: "AList.delete k al = [] \<Longrightarrow> q \<noteq> k \<Longrightarrow> map_of al q = None"
  using map_of_delete [of k al q] by simp

lemma unmapDevice_ok: "ud_ok ud \<Longrightarrow> ud_ok (unmapDevice u d c ud)"
proof (cases "map_of ud u")
  case None
  then show "ud_ok ud \<Longrightarrow> ?thesis" by (simp add: unmapDevice_def)
next
  case (Some dm)
  assume ok: "ud_ok ud"
  then have "distinct (map fst dm)"
    using ud_ok_lookup Some by blast
  then show ?thesis
    using Some ok by (simp add: unmapDevice_def Let_def ud_ok_delete ud_ok_update distinct_delete)
qed

lemma unmapDevice_routes:
  assumes "ud_ok ud"
  shows "routes_in (unmapDevice u d c ud) u' d'
     = (if u' = u \<and> d' = d \<and> routes_in ud u d = Some c then None else routes_in ud u' d')"
proof (cases "map_of ud u")
  case None
  then show ?thesis by (simp add: unmapDevice_def routes_in_def)
next
  case (Some dm)
  then have "dm \<noteq> []"
    using ud_ok_lookup [OF assms] by blast
  then show ?thesis
    using Some delete_singleton_lookup [of d dm d']
    by (auto simp: unmapDevice_def routes_in_def Let_def store_simps)
qed

lemma bind_device_routes:
  "routes_in (AList.update u (AList.update d c (case map_of ud u of None \<Rightarrow> [] | Some dm \<Rightarrow> dm)) ud) u' d'
     = (if u' = u \<and> d' = d then Some c else routes_in ud u' d')"
  by (auto simp: routes_in_def store_simps split: option.splits)

lemma bind_device_ok:
  assumes "ud_ok ud"
  shows "ud_ok (AList.update u (AList.update d c (case map_of ud u of None \<Rightarrow> [] | Some dm \<Rightarrow> dm)) ud)"
proof (rule ud_ok_update [OF assms])
  show "AList.update d c (case map_of ud u of None \<Rightarrow> [] | Some dm \<Rightarrow> dm) \<noteq> []"
    using map_of_update [of d c "case map_of ud u of None \<Rightarrow> [] | Some dm \<Rightarrow> dm" d] by auto
  show "distinct (map fst (AList.update d c (case map_of ud u of None \<Rightarrow> [] | Some dm \<Rightarrow> dm)))"
    using ud_ok_lookup [OF assms] by (auto simp: distinct_update split: option.splits)
qed

section \<open>Each operation on the abstract view\<close>

lemma conn_inv_route:
  assumes "conn_inv m" "routes m u d = Some c"
  shows "\<exists>ctx. map_of (contexts m) c = Some ctx \<and> ctx_user_id ctx = u \<and> device_id ctx = d
     \<and> authenticated ctx \<and> u \<noteq> 0 \<and> d \<noteq> []"
  using assms by (simp add: conn_inv_def routes_ok_def)

lemma routes_add: "routes (snd (addConnection h p now m)) = routes m"
  by (simp add: addConnection_def generateConnectionId_def routes_def Let_def)

lemma routes_markWebSocket: "routes (snd (markWebSocket c ws m)) = routes m"
  by (auto simp: markWebSocket_def routes_def split: option.splits)

lemma routes_updateActiveTime: "routes (snd (updateActiveTime c now m)) = routes m"
  by (auto simp: updateActiveTime_def routes_def split: option.splits)

lemma routes_remove:
  assumes "conn_inv m"
  shows "routes (removeConnection c m) u d = (if routes m u d = Some c then None else routes m u d)"
proof (cases "map_of (contexts m) c")
  case None
  then have "routes m u d \<noteq> Some c"
    using conn_inv_route [OF assms, of u d c] by auto
  then show ?thesis
    using None by (simp add: removeConnection_def routes_def)
next
  case (Some ctx)
  have ok: "ud_ok (user_device_to_connection m)"
    using assms by (simp add: conn_inv_def tables_ok_def)
  have r: "u = ctx_user_id ctx \<and> d = device_id ctx \<and> u \<noteq> 0" if "routes m u d = Some c"
    using conn_inv_route [OF assms that] Some by auto
  show ?thesis
  proof (cases "routes m u d = Some c")
    case True
    then show ?thesis
      using r [OF True] Some
      by (auto simp: removeConnection_def routes_def unmapDevice_routes [OF ok])
  next
    case False
    then show ?thesis
      using Some by (auto simp: removeConnection_def routes_def unmapDevice_routes [OF ok])
  qed
qed

lemma bindUser_routes:
  assumes "conn_inv m" "u \<noteq> 0" "d \<noteq> []" "map_of (contexts m) c = Some ctx"
  shows "routes (snd (snd (bindUser c u tok d plat now m))) u' d'
     = (if u' = u \<and> d' = d then Some c
        else if routes m u' d' = Some c then None else routes m u' d')"
proof -
  have ok: "ud_ok (user_device_to_connection m)"
    using assms by (simp add: conn_inv_def tables_ok_def)
  have r: "u' = ctx_user_id ctx \<and> d' = device_id ctx \<and> u' \<noteq> 0 \<and> d' \<noteq> []" if "routes m u' d' = Some c"
    using conn_inv_route [OF assms(1) that] assms(4) by auto
  show ?thesis
  proof (cases "routes m u' d' = Some c")
    case True
    then show ?thesis
      using r [OF True] assms(2-4)
      by (auto simp: bindUser_def routes_def Let_def bind_device_routes unmapDevice_routes [OF ok])
  next
    case False
    then show ?thesis
      using assms(2-4)
      by (auto simp: bindUser_def routes_def Let_def bind_device_routes unmapDevice_routes [OF ok])
  qed
qed

section \<open>The invariant is preserved\<close>

lemma conn_inv_new [inv_intros]: "conn_inv (new_ConnectionManager gid)"
  by (simp add: conn_inv_def tables_ok_def ids_ok_def routes_ok_def new_ConnectionManager_def
      routes_def routes_in_def ud_ok_def)

lemma conn_id_fresh:
  assumes "conn_inv m"
  shows "map_of (contexts m) (gateway_id m @ ''-conn-'' @ to_string (next_conn_id m)) = None"
proof (rule ccontr)
  assume "map_of (contexts m) (gateway_id m @ ''-conn-'' @ to_string (next_conn_id m)) \<noteq> None"
  then obtain n where "n < next_conn_id m"
    "gateway_id m @ ''-conn-'' @ to_string (next_conn_id m) = gateway_id m @ ''-conn-'' @ to_string n"
    using assms unfolding conn_inv_def ids_ok_def by blast
  then show False by simp
qed

lemma addConnection_sel:
  fixes h p now m
  defines "m' \<equiv> snd (addConnection h p now m)" and "i \<equiv> fst (addConnection h p now m)"
  shows "i = gateway_id m @ ''-conn-'' @ to_string (next_conn_id m)"
    "gateway_id m' = gateway_id m" "next_conn_id m' = next_conn_id m + 1"
    "connections m' = AList.update i h (connections m)"
    "user_device_to_connection m' = user_device_to_connection m"
    "\<exists>ctx. contexts m' = AList.update i ctx (contexts m) \<and> connection_id ctx = i"
  by (auto simp: m'_def i_def addConnection_def generateConnectionId_def Let_def)

lemma conn_inv_add [inv_intros]:
  assumes inv: "conn_inv m"
  shows "conn_inv (snd (addConnection h p now m))"
proof -
  let ?m = "snd (addConnection h p now m)"
  let ?i = "gateway_id m @ ''-conn-'' @ to_string (next_conn_id m)"
  note sel = addConnection_sel(2-5) [of h p now m, unfolded addConnection_sel(1)]
  obtain ctx where ctx: "contexts ?m = AList.update ?i ctx (contexts m)" "connection_id ctx = ?i"
    using addConnection_sel(6) [of h p now m, unfolded addConnection_sel(1)] by blast
  note old = inv [unfolded conn_inv_def]
  have "tables_ok ?m"
    using old by (simp add: tables_ok_def sel ctx distinct_update)
  moreover have "ids_ok ?m"
    using old ctx(2) by (auto simp: ids_ok_def sel ctx(1) store_simps less_Suc_eq)
  moreover have "routes_ok ?m"
    unfolding routes_ok_def routes_add
  proof (intro allI impI)
    fix u d c
    assume "routes m u d = Some c"
    then obtain x where "map_of (contexts m) c = Some x" "ctx_user_id x = u" "device_id x = d"
      "authenticated x" "u \<noteq> 0" "d \<noteq> []"
      using conn_inv_route [OF inv] by blast
    then show "\<exists>x. map_of (contexts ?m) c = Some x \<and> ctx_user_id x = u \<and> device_id x = d
        \<and> authenticated x \<and> u \<noteq> 0 \<and> d \<noteq> []"
      using conn_id_fresh [OF inv] by (auto simp: ctx(1) store_simps)
  qed
  ultimately show ?thesis
    by (simp add: conn_inv_def)
qed

lemma ids_ok_D:
  assumes "ids_ok m" "map_of (contexts m) c = Some ctx"
  shows "map_of (connections m) c \<noteq> None" "connection_id ctx = c"
    "\<exists>n < next_conn_id m. c = gateway_id m @ ''-conn-'' @ to_string n"
  using assms unfolding ids_ok_def by (metis option.distinct(1), blast, blast)

lemma ids_ok_update:
  assumes "ids_ok m" "map_of (contexts m) c = Some ctx" "connection_id ctx' = c"
    "contexts m' = AList.update c ctx' (contexts m)" "connections m' = connections m"
    "gateway_id m' = gateway_id m" "next_conn_id m' = next_conn_id m"
  shows "ids_ok m'"
  unfolding ids_ok_def
proof (intro allI)
  fix e
  show "(map_of (contexts m') e = None) = (map_of (connections m') e = None)
     \<and> (\<forall>x. map_of (contexts m') e = Some x \<longrightarrow> connection_id x = e
          \<and> (\<exists>n < next_conn_id m'. e = gateway_id m' @ ''-conn-'' @ to_string n))"
  proof (cases "e = c")
    case True
    then show ?thesis
      using ids_ok_D [OF assms(1,2)] assms(3-7) by (simp add: store_simps)
  next
    case False
    then show ?thesis
      using assms(1) unfolding ids_ok_def assms(4-7) by (simp add: store_simps)
  qed
qed

lemma conn_inv_contexts:
  assumes "conn_inv m" "map_of (contexts m) c = Some ctx" "connection_id ctx' = connection_id ctx"
    "ctx_user_id ctx' = ctx_user_id ctx" "device_id ctx' = device_id ctx"
    "authenticated ctx' = authenticated ctx"
  shows "conn_inv (m\<lparr>contexts := AList.update c ctx' (contexts m)\<rparr>)"
proof -
  note old = assms(1) [unfolded conn_inv_def]
  have "tables_ok (m\<lparr>contexts := AList.update c ctx' (contexts m)\<rparr>)"
    using old by (simp add: tables_ok_def distinct_update)
  moreover have "ids_ok (m\<lparr>contexts := AList.update c ctx' (contexts m)\<rparr>)"
    using old assms(2,3) ids_ok_D(2) [of m c ctx] by (auto intro: ids_ok_update)
  moreover have "routes_ok (m\<lparr>contexts := AList.update c ctx' (contexts m)\<rparr>)"
    unfolding routes_ok_def
  proof (intro allI impI)
    fix u d e
    assume "routes (m\<lparr>contexts := AList.update c ctx' (contexts m)\<rparr>) u d = Some e"
    then obtain x where "map_of (contexts m) e = Some x" "ctx_user_id x = u" "device_id x = d"
      "authenticated x" "u \<noteq> 0" "d \<noteq> []"
      using conn_inv_route [OF assms(1), of u d e] by (auto simp: routes_def)
    then show "\<exists>x. map_of (contexts (m\<lparr>contexts := AList.update c ctx' (contexts m)\<rparr>)) e = Some x
        \<and> ctx_user_id x = u \<and> device_id x = d \<and> authenticated x \<and> u \<noteq> 0 \<and> d \<noteq> []"
      using assms(2-6) by (cases "e = c") (simp_all add: store_simps)
  qed
  ultimately show ?thesis
    by (simp add: conn_inv_def)
qed

lemma conn_inv_markWebSocket [inv_intros]: "conn_inv m \<Longrightarrow> conn_inv (snd (markWebSocket c ws m))"
  by (auto simp: markWebSocket_def conn_inv_contexts split: option.splits)

lemma conn_inv_updateActiveTime [inv_intros]: "conn_inv m \<Longrightarrow> conn_inv (snd (updateActiveTime c now m))"
  by (auto simp: updateActiveTime_def conn_inv_contexts split: option.splits)

lemma removeConnection_sel [simp]:
  "contexts (removeConnection c m) = AList.delete c (contexts m)"
  "connections (removeConnection c m) = AList.delete c (connections m)"
  "gateway_id (removeConnection c m) = gateway_id m" "next_conn_id (removeConnection c m) = next_conn_id m"
  by (simp_all add: removeConnection_def Let_def)

lemma conn_inv_remove [inv_intros]:
  assumes "conn_inv m"
  shows "conn_inv (removeConnection c m)"
proof -
  note old = assms [unfolded conn_inv_def]
  have "ud_ok (user_device_to_connection (removeConnection c m))"
    using old by (auto simp: tables_ok_def removeConnection_def Let_def unmapDevice_ok split: option.splits)
  then have "tables_ok (removeConnection c m)"
    using old by (simp add: tables_ok_def distinct_delete)
  moreover have "ids_ok (removeConnection c m)"
    using old by (auto simp: ids_ok_def store_simps)
  moreover have "routes_ok (removeConnection c m)"
    using old by (auto simp: routes_ok_def routes_remove [OF assms] store_simps)
  ultimately show ?thesis
    by (simp add: conn_inv_def)
qed

lemma conn_inv_bind [inv_intros]:
  assumes "conn_inv m"
  shows "conn_inv (snd (snd (bindUser c u tok d plat now m)))"
proof (cases "u = 0 \<or> d = [] \<or> map_of (contexts m) c = None")
  case True
  then show ?thesis
    using assms by (auto simp: bindUser_def)
next
  case False
  then obtain ctx where ctx: "map_of (contexts m) c = Some ctx" "u \<noteq> 0" "d \<noteq> []"
    by auto
  let ?m = "snd (snd (bindUser c u tok d plat now m))"
  define ctx' where "ctx' = ctx\<lparr>ctx_user_id := u, token := tok, device_id := d, platform := plat,
    authenticated := True, last_active_ms := now\<rparr>"
  have sel: "contexts ?m = AList.update c ctx' (contexts m)" "connections ?m = connections m"
    "gateway_id ?m = gateway_id m" "next_conn_id ?m = next_conn_id m"
    using ctx by (simp_all add: bindUser_def Let_def ctx'_def)
  note old = assms [unfolded conn_inv_def]
  have "ud_ok (user_device_to_connection ?m)"
    using old ctx by (simp add: tables_ok_def bindUser_def Let_def bind_device_ok unmapDevice_ok)
  then have "tables_ok ?m"
    using old by (simp add: tables_ok_def sel distinct_update)
  moreover have "ids_ok ?m"
    using old ids_ok_D(2) [OF _ ctx(1)] by (intro ids_ok_update [OF _ ctx(1) _ sel]) (auto simp: ctx'_def)
  moreover have "routes_ok ?m"
    unfolding routes_ok_def
  proof (intro allI impI)
    fix v e k
    assume r: "routes ?m v e = Some k"
    show "\<exists>x. map_of (contexts ?m) k = Some x \<and> ctx_user_id x = v \<and> device_id x = e \<and> authenticated x
        \<and> v \<noteq> 0 \<and> e \<noteq> []"
    proof (cases "v = u \<and> e = d")
      case True
      then have "k = c"
        using r by (simp add: bindUser_routes [OF assms ctx(2,3,1)])
      then show ?thesis
        using True ctx(2,3) by (simp add: sel(1) store_simps ctx'_def)
    next
      case False
      then have "routes m v e = Some k" "k \<noteq> c"
        using r by (auto simp: bindUser_routes [OF assms ctx(2,3,1)] split: if_splits)
      then show ?thesis
        using conn_inv_route [OF assms, of v e k] by (simp add: sel(1) store_simps)
    qed
  qed
  ultimately show ?thesis
    by (simp add: conn_inv_def)
qed

section \<open>Histories\<close>

datatype conn_op =
    Op_add handle string int
  | Op_remove string
  | Op_bind string u64 string string string int
  | Op_markWebSocket string bool
  | Op_updateActiveTime string int

primrec conn_step :: "conn_op \<Rightarrow> ConnectionManager \<Rightarrow> ConnectionManager" where
  "conn_step (Op_add h p now) m = snd (addConnection h p now m)"
| "conn_step (Op_remove c) m = removeConnection c m"
| "conn_step (Op_bind c u tok d plat now) m = snd (snd (bindUser c u tok d plat now m))"
| "conn_step (Op_markWebSocket c ws) m = snd (markWebSocket c ws m)"
| "conn_step (Op_updateActiveTime c now) m = snd (updateActiveTime c now m)"

lemma conn_inv_step: "conn_inv m \<Longrightarrow> conn_inv (conn_step x m)"
  by (cases x) (simp_all add: inv_intros)

lemma conn_inv_history: "conn_inv (fold conn_step ops (new_ConnectionManager gid))"
proof -
  have "conn_inv m \<Longrightarrow> conn_inv (fold conn_step ops m)" for m
    by (induction ops arbitrary: m) (simp_all add: conn_inv_step)
  then show ?thesis
    by (simp add: conn_inv_new)
qed

section \<open>Properties\<close>

text \<open>
  C29. The tables stay consistent in every history: connections and contexts have the same keys, every
  connection id was issued by this gateway, and whenever a device of a user is routed to a connection,
  that connection is present, authenticated, and bound to exactly this user and device.
\<close>

theorem connection_tables_consistent:
  fixes ops :: "conn_op list" and gid :: string
  defines "m \<equiv> fold conn_step ops (new_ConnectionManager gid)"
  shows "(\<forall>c. (getContext c m = None) = (getConnection c m = None))
     \<and> (\<forall>c ctx. getContext c m = Some ctx \<longrightarrow> connection_id ctx = c)
     \<and> (\<forall>u d c. routes m u d = Some c \<longrightarrow> (\<exists>ctx h. getContext c m = Some ctx \<and> getConnection c m = Some h
          \<and> ctx_user_id ctx = u \<and> device_id ctx = d \<and> authenticated ctx \<and> u \<noteq> 0 \<and> d \<noteq> []))"
proof -
  have inv: "conn_inv m"
    unfolding m_def by (rule conn_inv_history)
  then have i: "ids_ok m"
    by (simp add: conn_inv_def)
  show ?thesis
    using i conn_inv_route [OF inv] ids_ok_D [OF i]
    unfolding getContext_def getConnection_def by (fastforce simp: ids_ok_def)
qed

theorem connection_tables_consistent_witness:
  "let m = fold conn_step [Op_add 3 ''10.0.0.1'' 5, Op_bind ''g-conn-1'' 9 ''t'' ''web'' ''web'' 6]
        (new_ConnectionManager ''g'')
   in routes m 9 ''web'' = Some ''g-conn-1'' \<and> (\<exists>ctx. getContext ''g-conn-1'' m = Some ctx \<and> authenticated ctx)"
proof -
  let ?ops = "[Op_add 3 ''10.0.0.1'' 5, Op_bind ''g-conn-1'' 9 ''t'' ''web'' ''web'' 6]"
  have "routes (fold conn_step ?ops (new_ConnectionManager ''g'')) 9 ''web'' = Some ''g-conn-1''"
    by code_simp
  then show ?thesis
    unfolding Let_def using connection_tables_consistent [where ops = ?ops and gid = "''g''"] by blast
qed

text \<open>
  C30. Binding a user takes over the device: after a successful bind in any history, the device is
  routed to this connection, the connection serves no other device, and every other route is as before.
  The connection that served the device before is the one that is force-closed.
\<close>

theorem bindUser_takes_over:
  fixes ops :: "conn_op list" and gid :: string
  defines "m \<equiv> fold conn_step ops (new_ConnectionManager gid)"
  assumes "bindUser c u tok d plat now m = (True, replaced, m')"
  shows "routes m' u d = Some c
     \<and> (\<forall>u' d'. (u', d') \<noteq> (u, d) \<longrightarrow>
          routes m' u' d' = (if routes m u' d' = Some c then None else routes m u' d'))
     \<and> replaced = (case routes m u d of None \<Rightarrow> None
                   | Some c' \<Rightarrow> if c' = c then None else getConnection c' m)"
proof -
  have inv: "conn_inv m"
    unfolding m_def by (rule conn_inv_history)
  obtain ctx where ctx: "u \<noteq> 0" "d \<noteq> []" "map_of (contexts m) c = Some ctx"
    using assms(2) by (auto simp: bindUser_def split: if_splits option.splits)
  have m': "m' = snd (snd (bindUser c u tok d plat now m))"
    using assms(2) by simp
  have ok: "ud_ok (user_device_to_connection m)"
    using inv by (simp add: conn_inv_def tables_ok_def)
  let ?ud = "if ctx_user_id ctx \<noteq> 0 \<and> device_id ctx \<noteq> []
     then unmapDevice (ctx_user_id ctx) (device_id ctx) c (user_device_to_connection m)
     else user_device_to_connection m"
  have l: "map_of (case map_of ?ud u of None \<Rightarrow> [] | Some dm \<Rightarrow> dm) d = routes_in ?ud u d"
    by (auto simp: routes_in_def split: option.splits)
  have "replaced = (case routes_in ?ud u d of Some c' \<Rightarrow> if c' \<noteq> c then map_of (connections m) c' else None
      | None \<Rightarrow> None)"
    using assms(2) ctx by (simp add: bindUser_def Let_def l cong: if_cong)
  moreover have "routes_in ?ud u d = None \<or> routes_in ?ud u d = routes m u d"
    "routes_in ?ud u d = None \<Longrightarrow> routes m u d \<noteq> None \<Longrightarrow> routes m u d = Some c"
    by (auto simp: unmapDevice_routes [OF ok] routes_def split: if_splits)
  ultimately show ?thesis
    using bindUser_routes [OF inv ctx, of tok plat now]
    by (auto simp: m' getConnection_def split: option.splits)
qed

theorem bindUser_takes_over_witness:
  "\<exists>m'. bindUser ''g-conn-2'' 9 ''t'' ''web'' ''web'' 8
        (fold conn_step [Op_add 3 ''a'' 5, Op_bind ''g-conn-1'' 9 ''t'' ''web'' ''web'' 6, Op_add 4 ''b'' 7]
           (new_ConnectionManager ''g'')) = (True, Some 3, m')
     \<and> routes m' 9 ''web'' = Some ''g-conn-2''"
proof -
  let ?ops = "[Op_add 3 ''a'' 5, Op_bind ''g-conn-1'' 9 ''t'' ''web'' ''web'' 6, Op_add 4 ''b'' 7]"
  let ?m = "fold conn_step ?ops (new_ConnectionManager ''g'')"
  let ?r = "bindUser ''g-conn-2'' 9 ''t'' ''web'' ''web'' 8 ?m"
  have "fst ?r" "fst (snd ?r) = Some 3"
    by code_simp+
  then have r: "?r = (True, Some 3, snd (snd ?r))"
    by (simp add: prod_eq_iff)
  then show ?thesis
    using bindUser_takes_over [OF r] by blast
qed

end
