(* ===== verification/Storage_Tables.thy ===== *)
theory Storage_Tables
  imports Nebula_Prelude "HOL-Library.Product_Lexorder" "HOL-Library.List_Lexorder" "HOL-Library.Char_ord"
begin

text \<open>
  The MySQL schema the services share (\<^verbatim>\<open>deploy/mysql/migration\<close>) and the statements SQL gives them.
  A table is the list of its rows in insertion order; a row is a record with the columns the services
  read (surrogate keys are kept only where a service reads them). A \<^verbatim>\<open>NULL\<close> client sequence is 0.
  Times are unbounded integers; a value that does not fit its column makes the statement fail, which
  the model has as one of the failures of an external call.
\<close>

section \<open>Rows\<close>

record User =
  user_id :: u64
  username :: string
  password_hash :: string
  nickname :: string
  avatar :: string
  user_created_at :: int
  user_updated_at :: int

record Friendship =
  fs_user_id :: u64
  fs_friend_id :: u64
  fs_status :: int
  fs_created_at :: int
  fs_updated_at :: int

record FriendRequest =
  fr_id :: u64
  fr_from_user_id :: u64
  fr_to_user_id :: u64
  fr_message :: string
  fr_status :: int
  fr_created_at :: int
  fr_updated_at :: int

record Group =
  group_row_id :: u64
  group_name :: string
  owner_id :: u64
  group_created_at :: int
  group_updated_at :: int

record GroupMember =
  gm_group_id :: u64
  gm_user_id :: u64
  gm_role :: int
  gm_created_at :: int
  gm_updated_at :: int

record MessageRecord =
  m_message_id :: u64
  m_conversation_id :: u64
  m_from_user_id :: u64
  m_client_sequence_id :: u32
  m_to_user_id :: u64
  m_group_id :: u64
  m_message_type :: int
  m_content :: string
  m_status :: int
  m_recalled :: bool
  m_recalled_at :: int
  m_created_at :: int
  m_updated_at :: int

record OfflineMessage =
  om_user_id :: u64
  om_message_id :: u64
  om_payload :: string
  om_status :: int
  om_created_at :: int
  om_updated_at :: int

record MessageReceipt =
  rc_message_id :: u64
  rc_user_id :: u64
  rc_delivered_at :: int
  rc_read_at :: int
  rc_created_at :: int
  rc_updated_at :: int

record Conversation =
  c_conversation_id :: u64
  c_conversation_type :: int
  c_owner_user_id :: u64
  c_peer_user_id :: u64
  c_group_id :: u64
  c_last_message_id :: u64
  c_last_message_preview :: string
  c_last_message_at :: int
  c_unread_count :: int
  c_pinned :: bool
  c_muted :: bool
  c_deleted :: bool
  c_created_at :: int
  c_updated_at :: int

record OutboxEvent =
  ev_id :: u64
  ev_event_id :: u64
  ev_aggregate_type :: string
  ev_aggregate_id :: u64
  ev_topic :: string
  ev_event_key :: string
  ev_payload :: string
  ev_status :: int
  ev_retry_count :: int
  ev_next_retry_at :: int
  ev_created_at :: int
  ev_updated_at :: int
  ev_trace_id :: string
  ev_claim_token :: string

record UserDevice =
  d_user_id :: u64
  d_device_id :: string
  d_platform :: string
  d_device_name :: string
  d_token_hash :: string
  d_last_login_at :: int
  d_last_active_at :: int
  d_created_at :: int
  d_updated_at :: int

record tables =
  users :: "User list"
  friendships :: "Friendship list"
  friend_requests :: "FriendRequest list"
  groups :: "Group list"
  group_members :: "GroupMember list"
  messages :: "MessageRecord list"
  offline_messages :: "OfflineMessage list"
  message_receipts :: "MessageReceipt list"
  conversations :: "Conversation list"
  outbox_events :: "OutboxEvent list"
  user_devices :: "UserDevice list"

definition empty_tables :: tables where
  "empty_tables = \<lparr>users = [], friendships = [], friend_requests = [], groups = [], group_members = [],
     messages = [], offline_messages = [], message_receipts = [], conversations = [],
     outbox_events = [], user_devices = []\<rparr>"

section \<open>Statements on one table\<close>

text \<open>\<^verbatim>\<open>UPDATE ... SET f WHERE P\<close> and the number of rows it changes, as \<^verbatim>\<open>mysql_affected_rows\<close> counts
  them (a row that already has the new values does not count).\<close>

definition update_where :: "('r \<Rightarrow> bool) \<Rightarrow> ('r \<Rightarrow> 'r) \<Rightarrow> 'r list \<Rightarrow> 'r list" where
  "update_where P f rows = map (\<lambda>r. if P r then f r else r) rows"

definition changed :: "('r \<Rightarrow> bool) \<Rightarrow> ('r \<Rightarrow> 'r) \<Rightarrow> 'r list \<Rightarrow> nat" where
  "changed P f rows = length (filter (\<lambda>r. P r \<and> f r \<noteq> r) rows)"

text \<open>\<^verbatim>\<open>INSERT ... ON DUPLICATE KEY UPDATE\<close>: \<open>dup\<close> recognises the row with the same unique key.\<close>

definition upsert :: "('r \<Rightarrow> bool) \<Rightarrow> 'r \<Rightarrow> ('r \<Rightarrow> 'r) \<Rightarrow> 'r list \<Rightarrow> 'r list" where
  "upsert dup new merge rows = (if list_ex dup rows then update_where dup merge rows else rows @ [new])"

text \<open>\<^verbatim>\<open>SELECT ... WHERE P LIMIT 1\<close>.\<close>

definition select_one :: "('r \<Rightarrow> bool) \<Rightarrow> 'r list \<Rightarrow> 'r option" where
  "select_one P rows = List.find P rows"

lemma update_where_simps [simp]:
  "update_where P f [] = []"
  "update_where P f (r # rs) = (if P r then f r else r) # update_where P f rs"
  "length (update_where P f rows) = length rows"
  "update_where P f (rs @ rs') = update_where P f rs @ update_where P f rs'"
  by (simp_all add: update_where_def)

lemma set_update_where: "set (update_where P f rows) = (\<lambda>r. if P r then f r else r) ` set rows"
  by (simp add: update_where_def)

lemma Bex_update_where: "(\<exists>r \<in> set (update_where P f rows). Q r) \<longleftrightarrow> (\<exists>r \<in> set rows. if P r then Q (f r) else Q r)"
  by (induction rows) auto

lemma Ball_update_where: "(\<forall>r \<in> set (update_where P f rows). Q r) \<longleftrightarrow> (\<forall>r \<in> set rows. if P r then Q (f r) else Q r)"
  by (induction rows) auto

lemma map_update_where_key [store_simps]:
  "(\<And>r. P r \<Longrightarrow> k (f r) = k r) \<Longrightarrow> map k (update_where P f rows) = map k rows"
  by (simp add: update_where_def)

lemma filter_update_where:
  "(\<And>r. P r \<Longrightarrow> \<not> Q r \<and> \<not> Q (f r)) \<Longrightarrow> filter Q (update_where P f rows) = filter Q rows"
  by (induction rows) auto

lemma changed_pos_iff: "0 < changed P f rows \<longleftrightarrow> (\<exists>r \<in> set rows. P r \<and> f r \<noteq> r)"
  by (auto simp: changed_def filter_empty_conv)

lemma upsert_keys:
  assumes "\<And>r. dup r \<longleftrightarrow> k r = k new" and "\<And>r. dup r \<Longrightarrow> k (merge r) = k r"
  shows "map k (upsert dup new merge rows)
     = (if k new \<in> set (map k rows) then map k rows else map k rows @ [k new])"
proof -
  have "list_ex dup rows \<longleftrightarrow> k new \<in> set (map k rows)"
    by (auto simp: list_ex_iff assms(1) image_iff intro: sym)
  moreover have "map k (update_where dup merge rows) = map k rows"
    by (rule map_update_where_key) (rule assms(2))
  ultimately show ?thesis by (simp add: upsert_def)
qed

lemma distinct_upsert:
  assumes "\<And>r. dup r \<longleftrightarrow> k r = k new" and "\<And>r. dup r \<Longrightarrow> k (merge r) = k r" and "distinct (map k rows)"
  shows "distinct (map k (upsert dup new merge rows))"
  using assms(3) by (simp add: upsert_keys [OF assms(1,2)])

lemma set_upsert:
  "r \<in> set (upsert dup new merge rows) \<Longrightarrow>
     r = new \<or> r \<in> set rows \<or> (\<exists>r0 \<in> set rows. dup r0 \<and> r = merge r0)"
  by (auto simp: upsert_def set_update_where split: if_splits)

lemma upsert_has:
  assumes "\<And>r. dup r \<longleftrightarrow> k r = k new" and "\<And>r. dup r \<Longrightarrow> k (merge r) = k r"
  shows "k new \<in> k ` set (upsert dup new merge rows)"
  using upsert_keys [OF assms, of rows] by (metis (no_types, lifting) in_set_conv_decomp list.set_map)

lemma select_one_Some:
  "select_one P rows = Some r \<Longrightarrow> r \<in> set rows \<and> P r"
  unfolding select_one_def by (metis find_Some_iff nth_mem)

lemma select_one_None: "select_one P rows = None \<longleftrightarrow> (\<forall>r \<in> set rows. \<not> P r)"
  by (auto simp: select_one_def find_None_iff)

lemma select_one_unique:
  assumes "distinct (map k rows)" and "\<And>r. P r \<longleftrightarrow> k r = x" and "r \<in> set rows" and "k r = x"
  shows "select_one P rows = Some r"
proof (cases "select_one P rows")
  case None
  then show ?thesis using assms(2-4) by (auto simp: select_one_None)
next
  case (Some s)
  with select_one_Some [OF Some] assms show ?thesis
    by (metis distinct_map inj_onD)
qed

end
