(* ===== verification/Service_World.thy ===== *)
theory Service_World
  imports Storage_Tables Cpp_Text Circuit_Breaker "HOL-Library.State_Monad"
begin

text \<open>
  The world the services act on and the calls they make: MySQL through \<^verbatim>\<open>MySqlConnectionPool\<close>,
  \<^verbatim>\<open>MySqlConnection\<close> and \<^verbatim>\<open>MySqlTransaction\<close>, Redis through \<^verbatim>\<open>RedisClient\<close>, Kafka through
  \<^verbatim>\<open>KafkaProducer\<close>, the clock, random tokens and the id generator; for the clients of the gateways, the
  circuit breaker of each and the messages a gateway took: gateway, user, connection and message id. A
  service operation is a state transformer in the library's state monad.

  Every external call takes its outcome from the world's script: it succeeds, it fails, or it takes
  effect while its answer is lost. An exhausted script means success, so the theorems quantify over
  all fault patterns and the executable examples need not spell the script out. Readings of the clock,
  random tokens and message ids are inputs in the same way.
\<close>

named_theorems wp_intros \<open>rules for what holds after a call\<close>
named_theorems keeps_intros \<open>rules for what a call keeps\<close>

section \<open>The world\<close>

record redis_store =
  kv :: "string \<Rightarrow> string option"
  smembers_of :: "string \<Rightarrow> string list"

record counters =
  user_seq :: u64
  request_seq :: u64
  group_seq :: u64
  outbox_seq :: u64

record world =
  db :: tables
  tx :: "tables option"
  seqs :: counters
  redis :: redis_store
  kafka :: "(string \<times> string \<times> string) list"
  script :: "outcome list"
  clock :: "int list"
  random :: "string list"
  ids :: "u64 list"
  gateways :: breakers
  pushed :: "(string \<times> u64 \<times> string \<times> u64) list"

type_synonym 'a io = "(world, 'a) state"

abbreviation return :: "'a \<Rightarrow> 'a io" where
  "return \<equiv> State_Monad.return"

definition andalso :: "bool io \<Rightarrow> bool io \<Rightarrow> bool io" where
  "andalso m n = do { b \<leftarrow> m; if b then n else return False }"

section \<open>Inputs\<close>

definition pop :: "(world \<Rightarrow> 'a list) \<Rightarrow> ('a list \<Rightarrow> world \<Rightarrow> world) \<Rightarrow> 'a \<Rightarrow> 'a io" where
  "pop sel put dflt = do { w \<leftarrow> State_Monad.get;
     case sel w of [] \<Rightarrow> return dflt
     | x # xs \<Rightarrow> do { _ \<leftarrow> State_Monad.set (put xs w); return x } }"

definition pop_outcome :: "outcome io" where
  "pop_outcome = pop script (\<lambda>xs w. w\<lparr>script := xs\<rparr>) Succeeds"

definition nowMs :: "int io" where
  "nowMs = pop clock (\<lambda>xs w. w\<lparr>clock := xs\<rparr>) 0"

definition random_token :: "string io" where
  "random_token = pop random (\<lambda>xs w. w\<lparr>random := xs\<rparr>) []"

definition next_message_id :: "u64 io" where
  "next_message_id = pop ids (\<lambda>xs w. w\<lparr>ids := xs\<rparr>) 0"

section \<open>MySQL\<close>

text \<open>\<^verbatim>\<open>MySqlConnectionPool::acquire\<close>: no connection, or one that may be used.\<close>

definition acquire :: "bool io" where
  "acquire = do { x \<leftarrow> pop_outcome; return (x = Succeeds) }"

text \<open>\<^verbatim>\<open>executeQuery\<close>: no result object, or the rows of the table at that moment.\<close>

definition executeQuery :: "(tables \<Rightarrow> 'a) \<Rightarrow> 'a option io" where
  "executeQuery q = do { x \<leftarrow> pop_outcome; w \<leftarrow> State_Monad.get;
     return (if x = Succeeds then Some (q (db w)) else None) }"

text \<open>\<^verbatim>\<open>executeUpdate\<close> and \<^verbatim>\<open>affectedRows\<close>: a statement is refused by the server (a duplicate key) or
  gives the number of changed rows and the new tables. \<open>None\<close> is the result \<open>false\<close>.\<close>

definition executeUpdate :: "(tables \<Rightarrow> (nat \<times> tables) option) \<Rightarrow> nat option io" where
  "executeUpdate stmt = do { x \<leftarrow> pop_outcome; w \<leftarrow> State_Monad.get;
     case stmt (db w) of None \<Rightarrow> return None
     | Some (n, t) \<Rightarrow>
         if x = Fails then return None
         else do { _ \<leftarrow> State_Monad.set (w\<lparr>db := t\<rparr>);
                   return (if x = Succeeds then Some n else None) } }"

definition execute :: "(tables \<Rightarrow> tables) \<Rightarrow> bool io" where
  "execute f = do { r \<leftarrow> executeUpdate (\<lambda>t. Some (0, f t)); return (r \<noteq> None) }"

text \<open>\<^verbatim>\<open>AUTO_INCREMENT\<close>: a counter per table that a rollback does not set back.\<close>

definition auto_increment :: "(counters \<Rightarrow> u64) \<Rightarrow> (u64 \<Rightarrow> counters \<Rightarrow> counters) \<Rightarrow> u64 io" where
  "auto_increment sel put = do { w \<leftarrow> State_Monad.get;
     let i = sel (seqs w) + 1 in
     do { _ \<leftarrow> State_Monad.set (w\<lparr>seqs := put i (seqs w)\<rparr>); return i } }"

text \<open>\<^verbatim>\<open>MySqlTransaction\<close>: the constructor begins, the destructor rolls an active transaction back. A
  commit that fails leaves it active; a commit whose answer is lost has ended it on the server, so
  that the destructor's rollback finds nothing to undo.\<close>

definition begin_tx :: "bool io" where
  "begin_tx = do { x \<leftarrow> pop_outcome; w \<leftarrow> State_Monad.get;
     if x = Succeeds then do { _ \<leftarrow> State_Monad.set (w\<lparr>tx := Some (db w)\<rparr>); return True }
     else return False }"

definition commit_tx :: "bool io" where
  "commit_tx = do { x \<leftarrow> pop_outcome; w \<leftarrow> State_Monad.get;
     if x = Fails then return False
     else do { _ \<leftarrow> State_Monad.set (w\<lparr>tx := None\<rparr>); return (x = Succeeds) } }"

definition rollback_tx :: "unit io" where
  "rollback_tx = do { w \<leftarrow> State_Monad.get;
     case tx w of None \<Rightarrow> return ()
     | Some t \<Rightarrow> State_Monad.set (w\<lparr>db := t, tx := None\<rparr>) }"

text \<open>The scope of a transaction object: its body sees whether the transaction is active, and the
  destructor runs on every way out of the scope.\<close>

definition with_tx :: "(bool \<Rightarrow> 'a io) \<Rightarrow> 'a io" where
  "with_tx body = do { active \<leftarrow> begin_tx; r \<leftarrow> body active; _ \<leftarrow> rollback_tx; return r }"

section \<open>Redis\<close>

definition redis_get :: "string \<Rightarrow> string option io" where
  "redis_get k = do { x \<leftarrow> pop_outcome; w \<leftarrow> State_Monad.get;
     return (if x = Succeeds then kv (redis w) k else None) }"

definition redis_exists :: "string \<Rightarrow> bool io" where
  "redis_exists k = do { x \<leftarrow> pop_outcome; w \<leftarrow> State_Monad.get;
     return (x = Succeeds \<and> kv (redis w) k \<noteq> None) }"

definition redis_smembers :: "string \<Rightarrow> string list io" where
  "redis_smembers k = do { x \<leftarrow> pop_outcome; w \<leftarrow> State_Monad.get;
     return (if x = Succeeds then smembers_of (redis w) k else []) }"

definition redis_write :: "(redis_store \<Rightarrow> redis_store) \<Rightarrow> bool io" where
  "redis_write f = do { x \<leftarrow> pop_outcome; w \<leftarrow> State_Monad.get;
     if x = Fails then return False
     else do { _ \<leftarrow> State_Monad.set (w\<lparr>redis := f (redis w)\<rparr>); return (x = Succeeds) } }"

definition redis_setEx :: "string \<Rightarrow> string \<Rightarrow> bool io" where
  "redis_setEx k v = redis_write (\<lambda>r. r\<lparr>kv := (kv r)(k := Some v)\<rparr>)"

definition redis_del :: "string \<Rightarrow> bool io" where
  "redis_del k = redis_write (\<lambda>r. r\<lparr>kv := (kv r)(k := None), smembers_of := (smembers_of r)(k := [])\<rparr>)"

definition redis_sadd :: "string \<Rightarrow> string \<Rightarrow> bool io" where
  "redis_sadd k v = redis_write (\<lambda>r. r\<lparr>smembers_of :=
      (smembers_of r)(k := List.insert v (smembers_of r k))\<rparr>)"

definition redis_srem :: "string \<Rightarrow> string \<Rightarrow> bool io" where
  "redis_srem k v = redis_write (\<lambda>r. r\<lparr>smembers_of := (smembers_of r)(k := removeAll v (smembers_of r k))\<rparr>)"

text \<open>\<^verbatim>\<open>EXPIRE\<close> answers 1 only when the key is there.\<close>

definition redis_expire :: "string \<Rightarrow> bool io" where
  "redis_expire k = do { x \<leftarrow> pop_outcome; w \<leftarrow> State_Monad.get;
     return (x = Succeeds \<and> (kv (redis w) k \<noteq> None \<or> smembers_of (redis w) k \<noteq> [])) }"

text \<open>\<^verbatim>\<open>INCR\<close>: the new value, or \<open>-1\<close> when the call failed or the key does not hold an integer.\<close>

definition int_text :: "int \<Rightarrow> string" where
  "int_text i = (if i < 0 then CHR ''-'' # to_string (nat (- i)) else to_string (nat i))"

definition redis_counter :: "redis_store \<Rightarrow> string \<Rightarrow> int option" where
  "redis_counter r k = (case kv r k of None \<Rightarrow> Some 0
     | Some v \<Rightarrow> (case stoll v of None \<Rightarrow> None | Some (i, n) \<Rightarrow> if n = length v then Some i else None))"

definition redis_incr :: "string \<Rightarrow> int io" where
  "redis_incr k = do { x \<leftarrow> pop_outcome; w \<leftarrow> State_Monad.get;
     case redis_counter (redis w) k of None \<Rightarrow> return (-1)
     | Some i \<Rightarrow>
         if x = Fails then return (-1)
         else do { _ \<leftarrow> State_Monad.set (w\<lparr>redis := (redis w)\<lparr>kv := (kv (redis w))(k := Some (int_text (i + 1)))\<rparr>\<rparr>);
                   return (if x = Succeeds then i + 1 else -1) } }"

section \<open>Kafka\<close>

text \<open>\<^verbatim>\<open>KafkaProducer::produce\<close>: the record is in the log when the call reports success; it may be there
  when it does not.\<close>

definition produce :: "string \<Rightarrow> string \<Rightarrow> string \<Rightarrow> bool io" where
  "produce topic key payload = do { x \<leftarrow> pop_outcome; w \<leftarrow> State_Monad.get;
     if x = Fails then return False
     else do { _ \<leftarrow> State_Monad.set (w\<lparr>kafka := kafka w @ [(topic, key, payload)]\<rparr>); return (x = Succeeds) } }"

section \<open>What holds after a call\<close>

text \<open>\<open>wp m Q w\<close>: running \<open>m\<close> in the world \<open>w\<close> gives a result and a world that satisfy \<open>Q\<close>. The rules for the
  external calls cover every outcome, so that proofs about operations cover every fault pattern.\<close>

definition wp :: "'a io \<Rightarrow> ('a \<Rightarrow> world \<Rightarrow> bool) \<Rightarrow> world \<Rightarrow> bool" where
  "wp m Q w = (case run_state m w of (r, w') \<Rightarrow> Q r w')"

lemma wp_I: "wp m Q w \<Longrightarrow> run_state m w = (r, w') \<Longrightarrow> Q r w'"
  by (simp add: wp_def)

lemma wp_mono: "wp m P w \<Longrightarrow> (\<And>r w'. P r w' \<Longrightarrow> Q r w') \<Longrightarrow> wp m Q w"
  by (auto simp: wp_def split: prod.splits)

lemma wp_any: "(\<And>r w'. Q r w') \<Longrightarrow> wp m Q w"
  by (simp add: wp_def split: prod.splits)

lemma wp_conj: "wp m P w \<Longrightarrow> wp m Q w \<Longrightarrow> wp m (\<lambda>r w'. P r w' \<and> Q r w') w"
  by (auto simp: wp_def split: prod.splits)

lemma wp_return [wp_intros]: "Q r w \<Longrightarrow> wp (return r) Q w"
  by (simp add: wp_def)

lemma wp_bind [wp_intros]: "wp m (\<lambda>r. wp (f r) Q) w \<Longrightarrow> wp (State_Monad.bind m f) Q w"
  by (simp add: wp_def split: prod.splits)

lemma wp_if [wp_intros]:
  "\<lbrakk>b \<Longrightarrow> wp m Q w; \<not> b \<Longrightarrow> wp n Q w\<rbrakk> \<Longrightarrow> wp (if b then m else n) Q w"
  by simp

lemma wp_case_option [wp_intros]:
  "\<lbrakk>x = None \<Longrightarrow> wp m Q w; \<And>y. x = Some y \<Longrightarrow> wp (f y) Q w\<rbrakk>
     \<Longrightarrow> wp (case x of None \<Rightarrow> m | Some y \<Rightarrow> f y) Q w"
  by (cases x) auto

lemma wp_case_list [wp_intros]:
  "\<lbrakk>x = [] \<Longrightarrow> wp m Q w; \<And>y ys. x = y # ys \<Longrightarrow> wp (f y ys) Q w\<rbrakk>
     \<Longrightarrow> wp (case x of [] \<Rightarrow> m | y # ys \<Rightarrow> f y ys) Q w"
  by (cases x) auto

lemma wp_case_prod [wp_intros]:
  "(\<And>a b. x = (a, b) \<Longrightarrow> wp (f a b) Q w) \<Longrightarrow> wp (case x of (a, b) \<Rightarrow> f a b) Q w"
  by (cases x) auto

lemma wp_Let [wp_intros]: "wp (f x) Q w \<Longrightarrow> wp (let y = x in f y) Q w"
  by simp

lemma wp_andalso [wp_intros]:
  "wp m (\<lambda>b. if b then wp n Q else Q False) w \<Longrightarrow> wp (andalso m n) Q w"
  by (auto simp: andalso_def wp_def split: prod.splits if_splits)

lemma wp_if_post [wp_intros]: "(b \<Longrightarrow> P w) \<Longrightarrow> (\<not> b \<Longrightarrow> R w) \<Longrightarrow> (if b then P else R) w"
  by simp

lemma wp_pop:
  assumes "put (sel w) w = w" and "\<And>x xs. Q x (put xs w)"
  shows "wp (pop sel put dflt) Q w"
proof (cases "sel w")
  case Nil
  with assms(1) assms(2) [of dflt "[]"] show ?thesis by (simp add: wp_def pop_def)
next
  case (Cons x xs)
  with assms(2) show ?thesis by (simp add: wp_def pop_def)
qed

lemma wp_pop_outcome: "(\<And>x s. Q x (w\<lparr>script := s\<rparr>)) \<Longrightarrow> wp pop_outcome Q w"
  unfolding pop_outcome_def by (rule wp_pop) auto

lemma wp_nowMs [wp_intros]: "(\<And>t c. Q t (w\<lparr>clock := c\<rparr>)) \<Longrightarrow> wp nowMs Q w"
  unfolding nowMs_def by (rule wp_pop) auto

lemma wp_random_token [wp_intros]: "(\<And>t c. Q t (w\<lparr>random := c\<rparr>)) \<Longrightarrow> wp random_token Q w"
  unfolding random_token_def by (rule wp_pop) auto

lemma wp_next_message_id [wp_intros]: "(\<And>i c. Q i (w\<lparr>ids := c\<rparr>)) \<Longrightarrow> wp next_message_id Q w"
  unfolding next_message_id_def by (rule wp_pop) auto

lemma wp_call:
  assumes "\<And>s. wp (f Succeeds) Q (w\<lparr>script := s\<rparr>)" and "\<And>s. wp (f Fails) Q (w\<lparr>script := s\<rparr>)"
    and "\<And>s. wp (f Lost) Q (w\<lparr>script := s\<rparr>)"
  shows "wp (State_Monad.bind pop_outcome f) Q w"
proof (rule wp_bind, rule wp_pop_outcome)
  show "wp (f x) Q (w\<lparr>script := s\<rparr>)" for x s
    using assms by (cases x) auto
qed

lemmas call_defs = acquire_def executeQuery_def executeUpdate_def begin_tx_def commit_tx_def
  redis_get_def redis_exists_def redis_smembers_def redis_write_def redis_expire_def redis_incr_def produce_def

lemma wp_acquire [wp_intros]:
  "\<lbrakk>\<And>s. Q True (w\<lparr>script := s\<rparr>); \<And>s. Q False (w\<lparr>script := s\<rparr>)\<rbrakk> \<Longrightarrow> wp acquire Q w"
  unfolding call_defs by (rule wp_call) (auto simp: wp_def)

lemma wp_executeQuery [wp_intros]:
  "\<lbrakk>\<And>s. Q (Some (q (db w))) (w\<lparr>script := s\<rparr>); \<And>s. Q None (w\<lparr>script := s\<rparr>)\<rbrakk> \<Longrightarrow> wp (executeQuery q) Q w"
  unfolding call_defs by (rule wp_call) (auto simp: wp_def)

lemma wp_executeUpdate [wp_intros]:
  "\<lbrakk>\<And>s. Q None (w\<lparr>script := s\<rparr>);
    \<And>s n t. stmt (db w) = Some (n, t) \<Longrightarrow> Q (Some n) (w\<lparr>script := s, db := t\<rparr>) \<and> Q None (w\<lparr>script := s, db := t\<rparr>)\<rbrakk>
     \<Longrightarrow> wp (executeUpdate stmt) Q w"
  unfolding call_defs by (rule wp_call) (auto simp: wp_def split: option.splits)

lemma wp_execute [wp_intros]:
  "\<lbrakk>\<And>s. Q False (w\<lparr>script := s\<rparr>); \<And>s. Q True (w\<lparr>script := s, db := f (db w)\<rparr>);
    \<And>s. Q False (w\<lparr>script := s, db := f (db w)\<rparr>)\<rbrakk> \<Longrightarrow> wp (execute f) Q w"
  unfolding execute_def by (auto intro!: wp_intros)

lemma wp_auto_increment [wp_intros]:
  "(\<And>i q. Q i (w\<lparr>seqs := q\<rparr>)) \<Longrightarrow> wp (auto_increment sel put) Q w"
  by (simp add: auto_increment_def wp_def Let_def)

lemma wp_begin_tx [wp_intros]:
  "\<lbrakk>\<And>s. Q True (w\<lparr>script := s, tx := Some (db w)\<rparr>); \<And>s. Q False (w\<lparr>script := s\<rparr>)\<rbrakk> \<Longrightarrow> wp begin_tx Q w"
  unfolding call_defs by (rule wp_call) (auto simp: wp_def)

lemma wp_commit_tx [wp_intros]:
  "\<lbrakk>\<And>s. Q True (w\<lparr>script := s, tx := None\<rparr>); \<And>s. Q False (w\<lparr>script := s, tx := None\<rparr>);
    \<And>s. Q False (w\<lparr>script := s\<rparr>)\<rbrakk> \<Longrightarrow> wp commit_tx Q w"
  unfolding call_defs by (rule wp_call) (auto simp: wp_def)

lemma wp_rollback_tx [wp_intros]:
  "Q () (case tx w of None \<Rightarrow> w | Some t \<Rightarrow> w\<lparr>db := t, tx := None\<rparr>) \<Longrightarrow> wp rollback_tx Q w"
  by (auto simp: rollback_tx_def wp_def split: option.splits)

lemma wp_redis_get [wp_intros]:
  "\<lbrakk>\<And>s. Q (kv (redis w) k) (w\<lparr>script := s\<rparr>); \<And>s. Q None (w\<lparr>script := s\<rparr>)\<rbrakk> \<Longrightarrow> wp (redis_get k) Q w"
  unfolding call_defs by (rule wp_call) (auto simp: wp_def)

lemma wp_redis_exists [wp_intros]:
  "\<lbrakk>\<And>s. Q (kv (redis w) k \<noteq> None) (w\<lparr>script := s\<rparr>); \<And>s. Q False (w\<lparr>script := s\<rparr>)\<rbrakk> \<Longrightarrow> wp (redis_exists k) Q w"
  unfolding call_defs by (rule wp_call) (auto simp: wp_def)

lemma wp_redis_smembers [wp_intros]:
  "\<lbrakk>\<And>s. Q (smembers_of (redis w) k) (w\<lparr>script := s\<rparr>); \<And>s. Q [] (w\<lparr>script := s\<rparr>)\<rbrakk> \<Longrightarrow> wp (redis_smembers k) Q w"
  unfolding call_defs by (rule wp_call) (auto simp: wp_def)

lemma wp_redis_expire [wp_intros]:
  "\<lbrakk>\<And>s. Q (kv (redis w) k \<noteq> None \<or> smembers_of (redis w) k \<noteq> []) (w\<lparr>script := s\<rparr>); \<And>s. Q False (w\<lparr>script := s\<rparr>)\<rbrakk>
     \<Longrightarrow> wp (redis_expire k) Q w"
  unfolding call_defs by (rule wp_call) (auto simp: wp_def)

lemma wp_redis_write [wp_intros]:
  "\<lbrakk>\<And>s. Q False (w\<lparr>script := s\<rparr>); \<And>s. Q True (w\<lparr>script := s, redis := f (redis w)\<rparr>);
    \<And>s. Q False (w\<lparr>script := s, redis := f (redis w)\<rparr>)\<rbrakk> \<Longrightarrow> wp (redis_write f) Q w"
  unfolding call_defs by (rule wp_call) (auto simp: wp_def)

lemma wp_redis_incr [wp_intros]:
  "\<lbrakk>\<And>s. Q (-1) (w\<lparr>script := s\<rparr>);
    \<And>s i r. redis_counter (redis w) k = Some i \<Longrightarrow>
       r = (redis w)\<lparr>kv := (kv (redis w))(k := Some (int_text (i + 1)))\<rparr> \<Longrightarrow>
       Q (i + 1) (w\<lparr>script := s, redis := r\<rparr>) \<and> Q (-1) (w\<lparr>script := s, redis := r\<rparr>)\<rbrakk>
     \<Longrightarrow> wp (redis_incr k) Q w"
  unfolding call_defs by (rule wp_call) (auto simp: wp_def split: option.splits)

lemma wp_produce [wp_intros]:
  "\<lbrakk>\<And>s. Q False (w\<lparr>script := s\<rparr>); \<And>s. Q True (w\<lparr>script := s, kafka := kafka w @ [(t, k, p)]\<rparr>);
    \<And>s. Q False (w\<lparr>script := s, kafka := kafka w @ [(t, k, p)]\<rparr>)\<rbrakk> \<Longrightarrow> wp (produce t k p) Q w"
  unfolding call_defs by (rule wp_call) (auto simp: wp_def)

section \<open>What a call keeps\<close>

definition keeps :: "(world \<Rightarrow> bool) \<Rightarrow> 'a io \<Rightarrow> bool" where
  "keeps I m \<longleftrightarrow> (\<forall>w. I w \<longrightarrow> wp m (\<lambda>_. I) w)"

text \<open>A property of the tables, of the current ones and of those a rollback would restore.\<close>

definition stored :: "(tables \<Rightarrow> bool) \<Rightarrow> world \<Rightarrow> bool" where
  "stored P w \<longleftrightarrow> P (db w) \<and> pred_option P (tx w)"

lemma keeps_D: "keeps I m \<Longrightarrow> I w \<Longrightarrow> run_state m w = (r, w') \<Longrightarrow> I w'"
  by (auto simp: keeps_def wp_def)

lemma keeps_I: "(\<And>w. I w \<Longrightarrow> wp m (\<lambda>_. I) w) \<Longrightarrow> keeps I m"
  by (simp add: keeps_def)

lemma keeps_return [keeps_intros]: "keeps I (return x)"
  by (rule keeps_I) (rule wp_return)

lemma keeps_bind [keeps_intros]: "keeps I m \<Longrightarrow> (\<And>x. keeps I (f x)) \<Longrightarrow> keeps I (State_Monad.bind m f)"
proof (rule keeps_I, rule wp_bind)
  fix w
  assume a: "keeps I m" "\<And>x. keeps I (f x)" "I w"
  then have "wp m (\<lambda>_. I) w" by (simp add: keeps_def)
  then show "wp m (\<lambda>r. wp (f r) (\<lambda>_. I)) w"
    by (rule wp_mono) (use a(2) in \<open>simp add: keeps_def\<close>)
qed

lemma keeps_if [keeps_intros]: "(b \<Longrightarrow> keeps I m) \<Longrightarrow> (\<not> b \<Longrightarrow> keeps I n) \<Longrightarrow> keeps I (if b then m else n)"
  by simp

lemma keeps_case_option [keeps_intros]:
  "keeps I m \<Longrightarrow> (\<And>y. x = Some y \<Longrightarrow> keeps I (f y)) \<Longrightarrow> keeps I (case x of None \<Rightarrow> m | Some y \<Rightarrow> f y)"
  by (cases x) auto

lemma keeps_case_list [keeps_intros]:
  "keeps I m \<Longrightarrow> (\<And>y ys. x = y # ys \<Longrightarrow> keeps I (f y ys)) \<Longrightarrow> keeps I (case x of [] \<Rightarrow> m | y # ys \<Rightarrow> f y ys)"
  by (cases x) auto

lemma keeps_case_prod [keeps_intros]: "(\<And>a b. keeps I (f a b)) \<Longrightarrow> keeps I (case x of (a, b) \<Rightarrow> f a b)"
  by (cases x) auto

lemma keeps_Let [keeps_intros]: "keeps I (f x) \<Longrightarrow> keeps I (let y = x in f y)"
  by simp

lemma keeps_andalso [keeps_intros]: "keeps I m \<Longrightarrow> keeps I n \<Longrightarrow> keeps I (andalso m n)"
  unfolding andalso_def by (intro keeps_intros)

lemma keeps_conj: "keeps I m \<Longrightarrow> keeps J m \<Longrightarrow> keeps (\<lambda>w. I w \<and> J w) m"
  unfolding keeps_def by (auto intro: wp_conj)

lemma stored_updates [simp]:
  "stored P (w\<lparr>script := s\<rparr>) = stored P w" "stored P (w\<lparr>clock := c\<rparr>) = stored P w"
  "stored P (w\<lparr>random := z\<rparr>) = stored P w" "stored P (w\<lparr>ids := i\<rparr>) = stored P w"
  "stored P (w\<lparr>redis := r\<rparr>) = stored P w" "stored P (w\<lparr>kafka := k\<rparr>) = stored P w"
  "stored P (w\<lparr>seqs := q\<rparr>) = stored P w" "stored P (w\<lparr>gateways := g\<rparr>) = stored P w"
  "stored P (w\<lparr>pushed := d\<rparr>) = stored P w"
  by (simp_all add: stored_def)

lemma keeps_stored_calls [keeps_intros]:
  "keeps (stored P) (auto_increment sel put)" "keeps (stored P) nowMs" "keeps (stored P) random_token" "keeps (stored P) next_message_id"
  "keeps (stored P) acquire" "keeps (stored P) (executeQuery q)" "keeps (stored P) begin_tx"
  "keeps (stored P) commit_tx" "keeps (stored P) rollback_tx" "keeps (stored P) (redis_get k)"
  "keeps (stored P) (redis_exists k)" "keeps (stored P) (redis_smembers k)" "keeps (stored P) (redis_expire k)"
  "keeps (stored P) (redis_write f)" "keeps (stored P) (redis_incr k)" "keeps (stored P) (produce a b c)"
  by (rule keeps_I; rule wp_intros; auto simp: stored_def split: option.splits)+

lemma keeps_stored_redis [keeps_intros]:
  "keeps (stored P) (redis_setEx k v)" "keeps (stored P) (redis_del k)"
  "keeps (stored P) (redis_sadd k v)" "keeps (stored P) (redis_srem k v)"
  by (simp_all add: redis_setEx_def redis_del_def redis_sadd_def redis_srem_def keeps_intros)

lemma keeps_executeUpdate:
  "(\<And>t n t'. P t \<Longrightarrow> stmt t = Some (n, t') \<Longrightarrow> P t') \<Longrightarrow> keeps (stored P) (executeUpdate stmt)"
  by (rule keeps_I; rule wp_intros) (auto simp: stored_def)

lemma keeps_execute: "(\<And>t. P t \<Longrightarrow> P (f t)) \<Longrightarrow> keeps (stored P) (execute f)"
  unfolding execute_def by (intro keeps_intros keeps_executeUpdate) auto

lemma keeps_with_tx [keeps_intros]: "(\<And>b. keeps (stored P) (body b)) \<Longrightarrow> keeps (stored P) (with_tx body)"
  unfolding with_tx_def by (intro keeps_intros)

text \<open>No transaction is open: so it is again after every call that does not begin one, and after the scope
  of a transaction.\<close>

definition closed :: "world \<Rightarrow> bool" where
  "closed w \<longleftrightarrow> tx w = None"

lemma keeps_closed_calls [keeps_intros]:
  "keeps closed (auto_increment sel put)" "keeps closed nowMs" "keeps closed random_token" "keeps closed next_message_id"
  "keeps closed acquire" "keeps closed (executeQuery q)" "keeps closed (executeUpdate stmt)" "keeps closed (execute f)"
  "keeps closed commit_tx" "keeps closed rollback_tx" "keeps closed (redis_get k)"
  "keeps closed (redis_exists k)" "keeps closed (redis_smembers k)" "keeps closed (redis_expire k)"
  "keeps closed (redis_write g)" "keeps closed (redis_incr k)" "keeps closed (produce a b c)"
  by (rule keeps_I; rule wp_intros; auto simp: closed_def split: option.splits)+

lemma keeps_closed_redis [keeps_intros]:
  "keeps closed (redis_setEx k v)" "keeps closed (redis_del k)"
  "keeps closed (redis_sadd k v)" "keeps closed (redis_srem k v)"
  by (simp_all add: redis_setEx_def redis_del_def redis_sadd_def redis_srem_def keeps_intros)

lemma keeps_closed_with_tx [keeps_intros]: "keeps closed (with_tx body)"
  by (rule keeps_I)
     (auto simp: with_tx_def wp_def rollback_tx_def closed_def split: prod.splits option.splits)

definition idle :: "(tables \<Rightarrow> bool) \<Rightarrow> world \<Rightarrow> bool" where
  "idle P w \<longleftrightarrow> P (db w) \<and> tx w = None"

lemma idle_stored: "idle P = (\<lambda>w. stored P w \<and> closed w)"
  by (auto simp: idle_def stored_def closed_def fun_eq_iff)

lemma keeps_idle: "keeps (stored P) m \<Longrightarrow> keeps closed m \<Longrightarrow> keeps (idle P) m"
  unfolding idle_stored by (rule keeps_conj)

section \<open>Transactions are all or nothing\<close>

text \<open>A body that leaves its transaction open on failure: after the scope, the tables are those from
  before, unless the transaction was committed.\<close>

lemma wp_with_tx:
  assumes "\<And>s. wp (body True) (\<lambda>r w'. case tx w' of None \<Rightarrow> Q r w'
                      | Some t \<Rightarrow> Q r (w'\<lparr>db := t, tx := None\<rparr>)) (w\<lparr>script := s, tx := Some (db w)\<rparr>)"
    and "\<And>s. wp (body False) (\<lambda>r w'. case tx w' of None \<Rightarrow> Q r w'
                      | Some t \<Rightarrow> Q r (w'\<lparr>db := t, tx := None\<rparr>)) (w\<lparr>script := s\<rparr>)"
  shows "wp (with_tx body) Q w"
  unfolding with_tx_def
  by (intro wp_bind wp_begin_tx wp_mono [OF assms(1)] wp_mono [OF assms(2)])
     (auto intro!: wp_intros split: option.splits)

section \<open>Operations through the pool\<close>

definition pooled :: "'a \<Rightarrow> 'a io \<Rightarrow> 'a io" where
  "pooled failed m = do { conn \<leftarrow> acquire; if conn then m else return failed }"

definition ran :: "nat option \<Rightarrow> bool" where
  "ran r \<longleftrightarrow> r \<noteq> None"

definition affected :: "nat option \<Rightarrow> bool" where
  "affected r \<longleftrightarrow> (case r of None \<Rightarrow> False | Some n \<Rightarrow> n > 0)"

lemma wp_pooled [wp_intros]:
  "\<lbrakk>\<And>s. wp m Q (w\<lparr>script := s\<rparr>); \<And>s. Q failed (w\<lparr>script := s\<rparr>)\<rbrakk> \<Longrightarrow> wp (pooled failed m) Q w"
  unfolding pooled_def by (auto intro!: wp_intros)

lemma keeps_pooled [keeps_intros]:
  "keeps (stored P) m \<Longrightarrow> keeps (stored P) (pooled failed m)"
  "keeps closed m \<Longrightarrow> keeps closed (pooled failed m)"
  unfolding pooled_def by (intro keeps_intros; assumption)+

section \<open>Reading calls and writing statements\<close>

text \<open>A reading call leaves the world alone but for the outcomes it consumed.\<close>

definition undisturbed :: "world \<Rightarrow> world \<Rightarrow> bool" where
  "undisturbed w w' \<longleftrightarrow> (\<exists>s. w' = w\<lparr>script := s\<rparr>)"

lemma undisturbed_script [simp]: "undisturbed w w" "undisturbed w (v\<lparr>script := s\<rparr>) = undisturbed w v"
proof -
  show "undisturbed w w" by (auto simp: undisturbed_def intro: exI [of _ "script w"])
  show "undisturbed w (v\<lparr>script := s\<rparr>) = undisturbed w v"
  proof
    assume "undisturbed w (v\<lparr>script := s\<rparr>)"
    then obtain z where "v\<lparr>script := s\<rparr> = w\<lparr>script := z\<rparr>" by (auto simp: undisturbed_def)
    then have "(v\<lparr>script := s\<rparr>)\<lparr>script := script v\<rparr> = (w\<lparr>script := z\<rparr>)\<lparr>script := script v\<rparr>" by simp
    then show "undisturbed w v" by (auto simp: undisturbed_def)
  qed (auto simp: undisturbed_def)
qed

lemma wp_pooled_query:
  assumes "\<And>r w'. undisturbed w w' \<Longrightarrow> r = failed \<or> r = f None \<or> r = f (Some (q (db w))) \<Longrightarrow> Q r w'"
  shows "wp (pooled failed (do { r \<leftarrow> executeQuery q; return (f r) })) Q w"
  by (intro wp_intros assms) auto

text \<open>A statement that touches nothing but the tables, and has the effect \<open>C\<close> on them when it reports success.\<close>

definition writes :: "bool io \<Rightarrow> (tables \<Rightarrow> tables) \<Rightarrow> bool" where
  "writes stmt C \<longleftrightarrow> (\<forall>w. wp stmt (\<lambda>ok w'. tx w' = tx w \<and> redis w' = redis w \<and> kafka w' = kafka w
     \<and> (ok \<longrightarrow> db w' = C (db w))) w)"

lemma writes_execute: "writes (execute f) f"
  by (auto simp: writes_def intro!: wp_intros)

lemma writes_return: "writes (return True) id"
  by (auto simp: writes_def intro!: wp_intros)

lemma writes_andalso:
  assumes "writes m A" and "writes n B"
  shows "writes (andalso m n) (B \<circ> A)"
  unfolding writes_def
proof (intro allI wp_andalso)
  fix w
  show "wp m (\<lambda>b. if b then wp n (\<lambda>ok w'. tx w' = tx w \<and> redis w' = redis w \<and> kafka w' = kafka w
        \<and> (ok \<longrightarrow> db w' = (B \<circ> A) (db w))) else (\<lambda>w'. tx w' = tx w \<and> redis w' = redis w \<and> kafka w' = kafka w
        \<and> (False \<longrightarrow> db w' = (B \<circ> A) (db w)))) w"
  proof (rule wp_mono)
    show "wp m (\<lambda>ok w'. tx w' = tx w \<and> redis w' = redis w \<and> kafka w' = kafka w \<and> (ok \<longrightarrow> db w' = A (db w))) w"
      using assms(1) by (simp add: writes_def)
    fix b and w' :: world
    assume h: "tx w' = tx w \<and> redis w' = redis w \<and> kafka w' = kafka w \<and> (b \<longrightarrow> db w' = A (db w))"
    have "wp n (\<lambda>ok v. tx v = tx w' \<and> redis v = redis w' \<and> kafka v = kafka w' \<and> (ok \<longrightarrow> db v = B (db w'))) w'"
      using assms(2) by (simp add: writes_def)
    then show "(if b then wp n (\<lambda>ok v. tx v = tx w \<and> redis v = redis w \<and> kafka v = kafka w
        \<and> (ok \<longrightarrow> db v = (B \<circ> A) (db w))) else (\<lambda>v. tx v = tx w \<and> redis v = redis w \<and> kafka v = kafka w
        \<and> (False \<longrightarrow> db v = (B \<circ> A) (db w)))) w'"
      using h by (cases b) (auto elim: wp_mono)
  qed
qed

end
