(* ===== verification/Message_Store.thy ===== *)
theory Message_Store
  imports Service_World
begin

text \<open>
  The message tables: \<^verbatim>\<open>common/dao/MessageDao\<close>, \<^verbatim>\<open>MessageReceiptDao\<close>, \<^verbatim>\<open>OfflineMessageDao\<close>,
  \<^verbatim>\<open>common/conversation/ConversationDao\<close> and the preview helper. Each SQL text is a function on the tables
  (\<open>sql_...\<close>), each DAO method the operation that runs it. A method that exists for a given connection
  and for the pool has the suffix \<open>_on\<close> for the former.
\<close>

section \<open>Messages\<close>

definition MESSAGE_STATUS_RECALLED :: int where
  "MESSAGE_STATUS_RECALLED = 6"

definition clashes :: "MessageRecord \<Rightarrow> MessageRecord \<Rightarrow> bool" where
  "clashes m r \<longleftrightarrow> m_message_id r = m_message_id m
     \<or> (m_client_sequence_id m \<noteq> 0 \<and> m_from_user_id r = m_from_user_id m
        \<and> m_client_sequence_id r = m_client_sequence_id m)"

definition sql_insertMessage :: "MessageRecord \<Rightarrow> tables \<Rightarrow> (nat \<times> tables) option" where
  "sql_insertMessage m t = (if list_ex (clashes m) (messages t) then None
     else Some (1, t\<lparr>messages := messages t @ [m]\<rparr>))"

definition insertMessage_on :: "MessageRecord \<Rightarrow> bool io" where
  "insertMessage_on m = do { r \<leftarrow> executeUpdate (sql_insertMessage m); return (ran r) }"

definition insertMessage :: "MessageRecord \<Rightarrow> bool io" where
  "insertMessage m = pooled False (insertMessage_on m)"

definition messageExists :: "u64 \<Rightarrow> bool io" where
  "messageExists mid = pooled False (do {
     r \<leftarrow> executeQuery (\<lambda>t. select_one (\<lambda>m. m_message_id m = mid) (messages t));
     return (case r of Some (Some _) \<Rightarrow> True | _ \<Rightarrow> False) })"

definition getMessageById :: "u64 \<Rightarrow> MessageRecord option io" where
  "getMessageById mid = pooled None (do {
     r \<leftarrow> executeQuery (\<lambda>t. select_one (\<lambda>m. m_message_id m = mid) (messages t));
     return (Option.bind r id) })"

definition getMessageByClientSequence :: "u64 \<Rightarrow> u32 \<Rightarrow> MessageRecord option io" where
  "getMessageByClientSequence from client_seq =
     (if from = 0 \<or> client_seq = 0 then return None
      else pooled None (do {
        r \<leftarrow> executeQuery (\<lambda>t. select_one (\<lambda>m. m_from_user_id m = from \<and> m_client_sequence_id m = client_seq) (messages t));
        return (Option.bind r id) }))"

definition before_cursor :: "int \<Rightarrow> u64 \<Rightarrow> MessageRecord \<Rightarrow> bool" where
  "before_cursor before_time before_id m =
     (if before_time > 0 \<and> before_id > 0
      then m_created_at m < before_time \<or> (m_created_at m = before_time \<and> m_message_id m < before_id)
      else if before_time > 0 then m_created_at m < before_time
      else True)"

definition sql_listConversationMessages :: "u64 \<Rightarrow> int \<Rightarrow> u64 \<Rightarrow> nat \<Rightarrow> tables \<Rightarrow> MessageRecord list" where
  "sql_listConversationMessages conv before_time before_id limit t =
     take limit (rev (sort_key (\<lambda>m. (m_created_at m, m_message_id m))
       (filter (\<lambda>m. m_conversation_id m = conv \<and> before_cursor before_time before_id m) (messages t))))"

definition listConversationMessages :: "u64 \<Rightarrow> int \<Rightarrow> u64 \<Rightarrow> nat \<Rightarrow> MessageRecord list io" where
  "listConversationMessages conv before_time before_id limit = pooled [] (do {
     r \<leftarrow> executeQuery (sql_listConversationMessages conv before_time before_id limit);
     return (case r of None \<Rightarrow> [] | Some ms \<Rightarrow> ms) })"

definition updateMessageStatus :: "u64 \<Rightarrow> int \<Rightarrow> bool io" where
  "updateMessageStatus mid st = pooled False (do {
     now \<leftarrow> nowMs;
     ok \<leftarrow> execute (\<lambda>t. t\<lparr>messages := update_where (\<lambda>m. m_message_id m = mid)
                       (\<lambda>m. m\<lparr>m_status := st, m_updated_at := now\<rparr>) (messages t)\<rparr>);
     if ok then messageExists mid else return False })"

definition sql_recallMessage :: "u64 \<Rightarrow> int \<Rightarrow> tables \<Rightarrow> (nat \<times> tables) option" where
  "sql_recallMessage mid at t =
     (let P = (\<lambda>m. m_message_id m = mid \<and> \<not> m_recalled m);
          f = (\<lambda>m. m\<lparr>m_recalled := True, m_recalled_at := at, m_status := MESSAGE_STATUS_RECALLED,
                     m_updated_at := at\<rparr>)
      in Some (changed P f (messages t), t\<lparr>messages := update_where P f (messages t)\<rparr>))"

definition recallMessage_on :: "u64 \<Rightarrow> int \<Rightarrow> bool io" where
  "recallMessage_on mid at = do { r \<leftarrow> executeUpdate (sql_recallMessage mid at); return (affected r) }"

definition recallMessage :: "u64 \<Rightarrow> int \<Rightarrow> bool io" where
  "recallMessage mid at = pooled False (recallMessage_on mid at)"

section \<open>Receipts\<close>

definition same_receipt :: "u64 \<Rightarrow> u64 \<Rightarrow> MessageReceipt \<Rightarrow> bool" where
  "same_receipt mid u r \<longleftrightarrow> rc_message_id r = mid \<and> rc_user_id r = u"

definition sql_upsertDelivered :: "u64 \<Rightarrow> u64 \<Rightarrow> int \<Rightarrow> tables \<Rightarrow> tables" where
  "sql_upsertDelivered mid u at t = t\<lparr>message_receipts := upsert (same_receipt mid u)
     \<lparr>rc_message_id = mid, rc_user_id = u, rc_delivered_at = at, rc_read_at = 0,
      rc_created_at = at, rc_updated_at = at\<rparr>
     (\<lambda>r. r\<lparr>rc_delivered_at := max (rc_delivered_at r) at, rc_updated_at := at\<rparr>) (message_receipts t)\<rparr>"

definition sql_markRead :: "u64 \<Rightarrow> u64 \<Rightarrow> int \<Rightarrow> tables \<Rightarrow> tables" where
  "sql_markRead mid u at t = t\<lparr>message_receipts := upsert (same_receipt mid u)
     \<lparr>rc_message_id = mid, rc_user_id = u, rc_delivered_at = at, rc_read_at = at,
      rc_created_at = at, rc_updated_at = at\<rparr>
     (\<lambda>r. r\<lparr>rc_delivered_at := max (rc_delivered_at r) at, rc_read_at := max (rc_read_at r) at,
            rc_updated_at := at\<rparr>) (message_receipts t)\<rparr>"

definition read_by_cursor :: "u64 \<Rightarrow> u64 \<Rightarrow> u64 \<Rightarrow> int \<Rightarrow> MessageRecord \<Rightarrow> bool" where
  "read_by_cursor conv u last_id last_time m \<longleftrightarrow> m_conversation_id m = conv
     \<and> (m_created_at m < last_time \<or> (m_created_at m = last_time \<and> m_message_id m \<le> last_id))
     \<and> m_from_user_id m \<noteq> u \<and> \<not> m_recalled m"

definition sql_markConversationRead :: "u64 \<Rightarrow> u64 \<Rightarrow> u64 \<Rightarrow> int \<Rightarrow> int \<Rightarrow> tables \<Rightarrow> tables" where
  "sql_markConversationRead conv u last_id last_time at t =
     fold (\<lambda>m. sql_markRead (m_message_id m) u at)
       (filter (read_by_cursor conv u last_id last_time) (messages t)) t"

definition upsertDelivered_on :: "u64 \<Rightarrow> u64 \<Rightarrow> int \<Rightarrow> bool io" where
  "upsertDelivered_on mid u at = execute (sql_upsertDelivered mid u at)"

definition upsertDelivered :: "u64 \<Rightarrow> u64 \<Rightarrow> int \<Rightarrow> bool io" where
  "upsertDelivered mid u at = pooled False (upsertDelivered_on mid u at)"

definition receipt_markRead_on :: "u64 \<Rightarrow> u64 \<Rightarrow> int \<Rightarrow> bool io" where
  "receipt_markRead_on mid u at = execute (sql_markRead mid u at)"

definition receipt_markRead :: "u64 \<Rightarrow> u64 \<Rightarrow> int \<Rightarrow> bool io" where
  "receipt_markRead mid u at = pooled False (receipt_markRead_on mid u at)"

definition markConversationRead_on :: "u64 \<Rightarrow> u64 \<Rightarrow> u64 \<Rightarrow> int \<Rightarrow> int \<Rightarrow> bool io" where
  "markConversationRead_on conv u last_id last_time at = execute (sql_markConversationRead conv u last_id last_time at)"

definition getReadState :: "u64 \<Rightarrow> MessageReceipt list io" where
  "getReadState mid = pooled [] (do {
     r \<leftarrow> executeQuery (\<lambda>t. filter (\<lambda>r. rc_message_id r = mid) (message_receipts t));
     return (case r of None \<Rightarrow> [] | Some rs \<Rightarrow> rs) })"

section \<open>Offline messages\<close>

definition hex_digits :: string where
  "hex_digits = ''0123456789abcdef''"

definition toHex :: "string \<Rightarrow> string" where
  "toHex bs = concat (map (\<lambda>c. [hex_digits ! (of_char c div 16), hex_digits ! (of_char c mod 16)]) bs)"

definition hexValue :: "char \<Rightarrow> int" where
  "hexValue c =
     (if CHR ''0'' \<le> c \<and> c \<le> CHR ''9'' then of_char c - of_char CHR ''0''
      else if CHR ''a'' \<le> c \<and> c \<le> CHR ''f'' then of_char c - of_char CHR ''a'' + 10
      else if CHR ''A'' \<le> c \<and> c \<le> CHR ''F'' then of_char c - of_char CHR ''A'' + 10
      else -1)"

fun fromHex_pairs :: "string \<Rightarrow> string option" where
  "fromHex_pairs (a # b # rest) =
     (if hexValue a < 0 \<or> hexValue b < 0 then None
      else map_option (\<lambda>ds. char_of (nat (hexValue a * 16 + hexValue b)) # ds) (fromHex_pairs rest))"
| "fromHex_pairs _ = Some []"

definition fromHex :: "string \<Rightarrow> string" where
  "fromHex hex = (if length hex mod 2 \<noteq> 0 then []
     else case fromHex_pairs hex of None \<Rightarrow> [] | Some ds \<Rightarrow> ds)"

definition same_offline :: "u64 \<Rightarrow> u64 \<Rightarrow> OfflineMessage \<Rightarrow> bool" where
  "same_offline u mid r \<longleftrightarrow> om_user_id r = u \<and> om_message_id r = mid"

definition sql_insertOfflineMessage :: "OfflineMessage \<Rightarrow> tables \<Rightarrow> tables" where
  "sql_insertOfflineMessage m t =
     (let m = m\<lparr>om_payload := toHex (om_payload m)\<rparr>
      in t\<lparr>offline_messages := upsert (same_offline (om_user_id m) (om_message_id m)) m
           (\<lambda>r. if om_status r = 2 then r
                else r\<lparr>om_payload := om_payload m, om_status := om_status m, om_updated_at := om_updated_at m\<rparr>)
           (offline_messages t)\<rparr>)"

definition parseOffline :: "OfflineMessage \<Rightarrow> OfflineMessage" where
  "parseOffline r = r\<lparr>om_payload := fromHex (om_payload r)\<rparr>"

definition sql_listOfflineMessages :: "u64 \<Rightarrow> nat \<Rightarrow> tables \<Rightarrow> OfflineMessage list" where
  "sql_listOfflineMessages u limit t =
     map parseOffline (take limit (sort_key (\<lambda>r. (om_created_at r, om_message_id r))
       (filter (\<lambda>r. om_user_id r = u \<and> om_status r \<in> {0, 1}) (offline_messages t))))"

definition sql_markBatchAsPulled :: "u64 \<Rightarrow> u64 list \<Rightarrow> int \<Rightarrow> tables \<Rightarrow> tables" where
  "sql_markBatchAsPulled u mids now t = t\<lparr>offline_messages :=
     update_where (\<lambda>r. om_user_id r = u \<and> om_message_id r \<in> set mids \<and> om_status r \<in> {0, 1})
       (\<lambda>r. r\<lparr>om_status := 1, om_updated_at := now\<rparr>) (offline_messages t)\<rparr>"

definition sql_markAsAcked :: "u64 \<Rightarrow> u64 \<Rightarrow> int \<Rightarrow> tables \<Rightarrow> tables" where
  "sql_markAsAcked u mid now t = t\<lparr>offline_messages :=
     update_where (\<lambda>r. om_user_id r = u \<and> om_message_id r = mid \<and> om_status r \<in> {0, 1, 2})
       (\<lambda>r. r\<lparr>om_status := 2, om_updated_at := now\<rparr>) (offline_messages t)\<rparr>"

definition insertOfflineMessage :: "OfflineMessage \<Rightarrow> bool io" where
  "insertOfflineMessage m = pooled False (execute (sql_insertOfflineMessage m))"

definition listOfflineMessages :: "u64 \<Rightarrow> nat \<Rightarrow> OfflineMessage list io" where
  "listOfflineMessages u limit = pooled [] (do {
     r \<leftarrow> executeQuery (sql_listOfflineMessages u limit);
     return (case r of None \<Rightarrow> [] | Some ms \<Rightarrow> ms) })"

definition markAsPulled :: "u64 \<Rightarrow> u64 \<Rightarrow> bool io" where
  "markAsPulled u mid = pooled False (do { now \<leftarrow> nowMs; execute (sql_markBatchAsPulled u [mid] now) })"

definition markBatchAsPulled_on :: "u64 \<Rightarrow> u64 list \<Rightarrow> bool io" where
  "markBatchAsPulled_on u mids = (if mids = [] then return True
     else do { now \<leftarrow> nowMs; execute (sql_markBatchAsPulled u mids now) })"

definition markBatchAsPulled :: "u64 \<Rightarrow> u64 list \<Rightarrow> bool io" where
  "markBatchAsPulled u mids = (if mids = [] then return True else pooled False (markBatchAsPulled_on u mids))"

definition markAsAcked_on :: "u64 \<Rightarrow> u64 \<Rightarrow> bool io" where
  "markAsAcked_on u mid = do { now \<leftarrow> nowMs; execute (sql_markAsAcked u mid now) }"

definition markAsAcked :: "u64 \<Rightarrow> u64 \<Rightarrow> bool io" where
  "markAsAcked u mid = pooled False (markAsAcked_on u mid)"

definition deleteAckedMessages :: "u64 \<Rightarrow> bool io" where
  "deleteAckedMessages u = pooled False (execute (\<lambda>t. t\<lparr>offline_messages :=
     filter (\<lambda>r. \<not> (om_user_id r = u \<and> om_status r = 2)) (offline_messages t)\<rparr>))"

section \<open>Conversations\<close>

definition SINGLE :: int where "SINGLE = 1"

definition GROUP :: int where "GROUP = 2"

definition isContinuationByte :: "char \<Rightarrow> bool" where
  "isContinuationByte c \<longleftrightarrow> (of_char c :: nat) div 64 = 2"

primrec back_to_lead :: "string \<Rightarrow> nat \<Rightarrow> nat" where
  "back_to_lead v 0 = 0"
| "back_to_lead v (Suc e) = (if isContinuationByte (v ! Suc e) then back_to_lead v e else Suc e)"

definition utf8SafePrefixLength :: "string \<Rightarrow> nat \<Rightarrow> nat" where
  "utf8SafePrefixLength v max_len =
     (if length v \<le> max_len then length v
      else let e = back_to_lead v max_len in
        if e = max_len then e
        else let lead = (of_char (v ! e) :: nat);
                 expected = (if lead div 32 = 6 then 2 else if lead div 16 = 14 then 3
                             else if lead div 8 = 30 then 4 else 0)
             in if expected = 0 then e else if e + expected \<le> max_len then e + expected else e)"

definition buildPreview :: "string \<Rightarrow> nat \<Rightarrow> string" where
  "buildPreview content max_len =
     (if length content \<le> max_len then content else take (utf8SafePrefixLength content max_len) content)"

definition same_conversation :: "u64 \<Rightarrow> u64 \<Rightarrow> Conversation \<Rightarrow> bool" where
  "same_conversation owner conv r \<longleftrightarrow> c_owner_user_id r = owner \<and> c_conversation_id r = conv"

definition sql_upsertOne :: "Conversation \<Rightarrow> bool \<Rightarrow> tables \<Rightarrow> tables" where
  "sql_upsertOne c increase t =
     (let inc = (if increase then 1 else 0)
      in t\<lparr>conversations := upsert (same_conversation (c_owner_user_id c) (c_conversation_id c))
          (c\<lparr>c_unread_count := inc, c_pinned := False, c_muted := False, c_deleted := False\<rparr>)
          (\<lambda>r. r\<lparr>c_last_message_id := c_last_message_id c, c_last_message_preview := c_last_message_preview c,
                 c_last_message_at := c_last_message_at c, c_unread_count := c_unread_count r + inc,
                 c_deleted := False, c_updated_at := c_updated_at c\<rparr>)
          (conversations t)\<rparr>)"

definition upsertOne :: "Conversation \<Rightarrow> bool \<Rightarrow> bool io" where
  "upsertOne c increase = execute (sql_upsertOne c increase)"

definition new_conversation :: "u64 \<Rightarrow> int \<Rightarrow> u64 \<Rightarrow> u64 \<Rightarrow> u64 \<Rightarrow> u64 \<Rightarrow> string \<Rightarrow> int \<Rightarrow> Conversation" where
  "new_conversation conv kind owner peer gid last_id preview now =
     \<lparr>c_conversation_id = conv, c_conversation_type = kind, c_owner_user_id = owner, c_peer_user_id = peer,
      c_group_id = gid, c_last_message_id = last_id, c_last_message_preview = preview,
      c_last_message_at = now, c_unread_count = 0, c_pinned = False, c_muted = False, c_deleted = False,
      c_created_at = now, c_updated_at = now\<rparr>"

definition upsertSingleConversationForUsers_on :: "u64 \<Rightarrow> u64 \<Rightarrow> u64 \<Rightarrow> u64 \<Rightarrow> string \<Rightarrow> int \<Rightarrow> bool io" where
  "upsertSingleConversationForUsers_on conv from to last_id preview now =
     andalso (upsertOne (new_conversation conv SINGLE from to 0 last_id preview now) False)
             (upsertOne (new_conversation conv SINGLE to from 0 last_id preview now) True)"

definition upsertSingleConversationForUsers :: "u64 \<Rightarrow> u64 \<Rightarrow> u64 \<Rightarrow> u64 \<Rightarrow> string \<Rightarrow> int \<Rightarrow> bool io" where
  "upsertSingleConversationForUsers conv from to last_id preview now =
     pooled False (upsertSingleConversationForUsers_on conv from to last_id preview now)"

primrec upsertGroupConversationForMembers_on ::
  "u64 \<Rightarrow> u64 \<Rightarrow> u64 \<Rightarrow> u64 list \<Rightarrow> u64 \<Rightarrow> string \<Rightarrow> int \<Rightarrow> bool io" where
  "upsertGroupConversationForMembers_on conv gid sender [] last_id preview now = return True"
| "upsertGroupConversationForMembers_on conv gid sender (member # rest) last_id preview now =
     andalso (upsertOne (new_conversation conv GROUP member 0 gid last_id preview now) (member \<noteq> sender))
             (upsertGroupConversationForMembers_on conv gid sender rest last_id preview now)"

definition upsertGroupConversationForMembers ::
  "u64 \<Rightarrow> u64 \<Rightarrow> u64 \<Rightarrow> u64 list \<Rightarrow> u64 \<Rightarrow> string \<Rightarrow> int \<Rightarrow> bool io" where
  "upsertGroupConversationForMembers conv gid sender members last_id preview now = pooled False (
     with_tx (\<lambda>active. if \<not> active then return False
       else andalso (upsertGroupConversationForMembers_on conv gid sender members last_id preview now) commit_tx))"

definition sql_listConversations :: "u64 \<Rightarrow> nat \<Rightarrow> nat \<Rightarrow> tables \<Rightarrow> (Conversation \<times> string) list" where
  "sql_listConversations owner limit offset t =
     map (\<lambda>c. (c, case select_one (\<lambda>g. group_row_id g = c_group_id c) (groups t) of
                      None \<Rightarrow> [] | Some g \<Rightarrow> group_name g))
       (take limit (drop offset (rev (sort_key (\<lambda>c. (c_pinned c, c_updated_at c))
         (filter (\<lambda>c. c_owner_user_id c = owner \<and> \<not> c_deleted c) (conversations t))))))"

definition listConversations :: "u64 \<Rightarrow> nat \<Rightarrow> nat \<Rightarrow> (Conversation \<times> string) list io" where
  "listConversations owner limit offset = pooled [] (do {
     r \<leftarrow> executeQuery (sql_listConversations owner limit offset);
     return (case r of None \<Rightarrow> [] | Some cs \<Rightarrow> cs) })"

definition conversation_isOwner :: "u64 \<Rightarrow> u64 \<Rightarrow> bool io" where
  "conversation_isOwner owner conv = pooled False (do {
     r \<leftarrow> executeQuery (\<lambda>t. list_ex (\<lambda>c. same_conversation owner conv c \<and> \<not> c_deleted c) (conversations t));
     return (r = Some True) })"

definition sql_updateConversation ::
  "u64 \<Rightarrow> u64 \<Rightarrow> (Conversation \<Rightarrow> Conversation) \<Rightarrow> tables \<Rightarrow> (nat \<times> tables) option" where
  "sql_updateConversation owner conv f t =
     Some (changed (same_conversation owner conv) f (conversations t),
           t\<lparr>conversations := update_where (same_conversation owner conv) f (conversations t)\<rparr>)"

definition conversation_markRead :: "u64 \<Rightarrow> u64 \<Rightarrow> bool io" where
  "conversation_markRead owner conv = pooled False (do {
     now \<leftarrow> nowMs;
     r \<leftarrow> executeUpdate (sql_updateConversation owner conv (\<lambda>c. c\<lparr>c_unread_count := 0, c_updated_at := now\<rparr>));
     return (affected r) })"

text \<open>The count of a \<^verbatim>\<open>LEFT JOIN\<close> of the messages with the receipts of one user, restricted to rows whose
  read time is 0 or missing.\<close>

definition unread_rows :: "tables \<Rightarrow> u64 \<Rightarrow> MessageRecord \<Rightarrow> nat" where
  "unread_rows t u m =
     (case filter (same_receipt (m_message_id m) u) (message_receipts t) of
        [] \<Rightarrow> 1
      | rs \<Rightarrow> length (filter (\<lambda>r. rc_read_at r = 0) rs))"

definition sql_countUnread :: "tables \<Rightarrow> u64 \<Rightarrow> u64 \<Rightarrow> nat" where
  "sql_countUnread t u conv =
     sum_list (map (unread_rows t u)
       (filter (\<lambda>m. m_conversation_id m = conv \<and> m_from_user_id m \<noteq> u \<and> \<not> m_recalled m) (messages t)))"

definition sql_recalculateUnread :: "u64 \<Rightarrow> u64 \<Rightarrow> int \<Rightarrow> tables \<Rightarrow> tables" where
  "sql_recalculateUnread owner conv now t = t\<lparr>conversations :=
     update_where (same_conversation owner conv)
       (\<lambda>c. c\<lparr>c_unread_count := int (sql_countUnread t owner conv), c_updated_at := now\<rparr>) (conversations t)\<rparr>"

definition recalculateUnread :: "u64 \<Rightarrow> u64 \<Rightarrow> int \<Rightarrow> bool io" where
  "recalculateUnread owner conv now = execute (sql_recalculateUnread owner conv now)"

definition sql_recalculateUnreadForConversation :: "u64 \<Rightarrow> int \<Rightarrow> tables \<Rightarrow> tables" where
  "sql_recalculateUnreadForConversation conv now t = t\<lparr>conversations :=
     update_where (\<lambda>c. c_conversation_id c = conv)
       (\<lambda>c. c\<lparr>c_unread_count := int (sql_countUnread t (c_owner_user_id c) (c_conversation_id c)),
              c_updated_at := now\<rparr>) (conversations t)\<rparr>"

definition recalculateUnreadForConversation :: "u64 \<Rightarrow> int \<Rightarrow> bool io" where
  "recalculateUnreadForConversation conv now = execute (sql_recalculateUnreadForConversation conv now)"

definition sql_markLastMessageRecalled :: "u64 \<Rightarrow> u64 \<Rightarrow> int \<Rightarrow> tables \<Rightarrow> tables" where
  "sql_markLastMessageRecalled conv mid at t = t\<lparr>conversations :=
     update_where (\<lambda>c. c_conversation_id c = conv \<and> c_last_message_id c = mid)
       (\<lambda>c. c\<lparr>c_last_message_preview := ''__NEBULA_MESSAGE_RECALLED__'', c_last_message_at := at,
              c_updated_at := at\<rparr>) (conversations t)\<rparr>"

definition markLastMessageRecalled :: "u64 \<Rightarrow> u64 \<Rightarrow> int \<Rightarrow> bool io" where
  "markLastMessageRecalled conv mid at = execute (sql_markLastMessageRecalled conv mid at)"

definition deleteConversation :: "u64 \<Rightarrow> u64 \<Rightarrow> bool io" where
  "deleteConversation owner conv = pooled False (do {
     now \<leftarrow> nowMs;
     r \<leftarrow> executeUpdate (sql_updateConversation owner conv (\<lambda>c. c\<lparr>c_deleted := True, c_updated_at := now\<rparr>));
     return (affected r) })"

definition pinConversation :: "u64 \<Rightarrow> u64 \<Rightarrow> bool \<Rightarrow> bool io" where
  "pinConversation owner conv b = pooled False (do {
     now \<leftarrow> nowMs;
     r \<leftarrow> executeUpdate (sql_updateConversation owner conv (\<lambda>c. c\<lparr>c_pinned := b, c_updated_at := now\<rparr>));
     return (affected r) })"

definition muteConversation :: "u64 \<Rightarrow> u64 \<Rightarrow> bool \<Rightarrow> bool io" where
  "muteConversation owner conv b = pooled False (do {
     now \<leftarrow> nowMs;
     r \<leftarrow> executeUpdate (sql_updateConversation owner conv (\<lambda>c. c\<lparr>c_muted := b, c_updated_at := now\<rparr>));
     return (affected r) })"

definition updateLastMessage :: "u64 \<Rightarrow> u64 \<Rightarrow> u64 \<Rightarrow> string \<Rightarrow> int \<Rightarrow> bool io" where
  "updateLastMessage owner conv last_id preview now = pooled False (do {
     r \<leftarrow> executeUpdate (sql_updateConversation owner conv
            (\<lambda>c. c\<lparr>c_last_message_id := last_id, c_last_message_preview := preview,
                   c_last_message_at := now, c_updated_at := now\<rparr>));
     return (affected r) })"

definition increaseUnreadCount :: "u64 \<Rightarrow> u64 \<Rightarrow> int \<Rightarrow> bool io" where
  "increaseUnreadCount owner conv delta = pooled False (do {
     now \<leftarrow> nowMs;
     r \<leftarrow> executeUpdate (sql_updateConversation owner conv
            (\<lambda>c. c\<lparr>c_unread_count := max 0 (c_unread_count c + delta), c_updated_at := now\<rparr>));
     return (affected r) })"

section \<open>Keys of the tables\<close>

text \<open>What the unique keys of the schema and the statements together guarantee.\<close>

definition messages_ok :: "MessageRecord list \<Rightarrow> bool" where
  "messages_ok ms \<longleftrightarrow> distinct (map m_message_id ms) \<and>
     distinct (map (\<lambda>m. (m_from_user_id m, m_client_sequence_id m)) (filter (\<lambda>m. m_client_sequence_id m \<noteq> 0) ms))"

definition receipts_ok :: "MessageReceipt list \<Rightarrow> bool" where
  "receipts_ok rs \<longleftrightarrow> distinct (map (\<lambda>r. (rc_message_id r, rc_user_id r)) rs)
     \<and> (\<forall>r \<in> set rs. rc_read_at r \<le> max 0 (rc_delivered_at r))"

definition conversations_ok :: "Conversation list \<Rightarrow> bool" where
  "conversations_ok cs \<longleftrightarrow> distinct (map (\<lambda>c. (c_owner_user_id c, c_conversation_id c)) cs)
     \<and> (\<forall>c \<in> set cs. 0 \<le> c_unread_count c)"

definition offline_ok :: "OfflineMessage list \<Rightarrow> bool" where
  "offline_ok os \<longleftrightarrow> distinct (map (\<lambda>r. (om_user_id r, om_message_id r)) os)"

definition message_tables_ok :: "tables \<Rightarrow> bool" where
  "message_tables_ok t \<longleftrightarrow> messages_ok (messages t) \<and> receipts_ok (message_receipts t)
     \<and> conversations_ok (conversations t) \<and> offline_ok (offline_messages t)"

lemma filter_update_where_key:
  "(\<And>r. P r \<Longrightarrow> Q (f r) = Q r) \<Longrightarrow> (\<And>r. P r \<Longrightarrow> k (f r) = k r) \<Longrightarrow>
     map k (filter Q (update_where P f rows)) = map k (filter Q rows)"
  by (induction rows) auto

lemma sql_insertMessage_ok [inv_intros]:
  "message_tables_ok t \<Longrightarrow> sql_insertMessage m t = Some (n, t') \<Longrightarrow> message_tables_ok t'"
  by (fastforce simp: message_tables_ok_def messages_ok_def sql_insertMessage_def clashes_def list_ex_iff
      split: if_splits)

lemma messages_ok_update:
  assumes "messages_ok ms" and "\<And>r. P r \<Longrightarrow> m_message_id (f r) = m_message_id r"
    and "\<And>r. P r \<Longrightarrow> m_from_user_id (f r) = m_from_user_id r"
    and "\<And>r. P r \<Longrightarrow> m_client_sequence_id (f r) = m_client_sequence_id r"
  shows "messages_ok (update_where P f ms)"
  using assms by (simp add: messages_ok_def map_update_where_key filter_update_where_key)

lemma sql_recallMessage_ok [inv_intros]:
  "message_tables_ok t \<Longrightarrow> sql_recallMessage mid at t = Some (n, t') \<Longrightarrow> message_tables_ok t'"
  by (auto simp: message_tables_ok_def sql_recallMessage_def Let_def intro!: messages_ok_update)

lemma receipts_ok_upsert:
  assumes "receipts_ok rs" and "rc_message_id new = mid" and "rc_user_id new = u"
    and "rc_read_at new \<le> max 0 (rc_delivered_at new)"
    and "\<And>r. same_receipt mid u (merge r) = same_receipt mid u r"
    and "\<And>r. rc_read_at r \<le> max 0 (rc_delivered_at r) \<Longrightarrow> rc_read_at (merge r) \<le> max 0 (rc_delivered_at (merge r))"
  shows "receipts_ok (upsert (same_receipt mid u) new merge rs)"
proof -
  let ?k = "\<lambda>r. (rc_message_id r, rc_user_id r)"
  have "distinct (map ?k (upsert (same_receipt mid u) new merge rs))"
    by (rule distinct_upsert) (use assms in \<open>auto simp: same_receipt_def receipts_ok_def\<close>)
  moreover have "rc_read_at r \<le> max 0 (rc_delivered_at r)"
    if "r \<in> set (upsert (same_receipt mid u) new merge rs)" for r
    using set_upsert [OF that] assms(1,4,6) by (auto simp: receipts_ok_def)
  ultimately show ?thesis by (auto simp: receipts_ok_def)
qed

lemma sql_upsertDelivered_ok [inv_intros]:
  "message_tables_ok t \<Longrightarrow> message_tables_ok (sql_upsertDelivered mid u at t)"
  by (auto simp: message_tables_ok_def sql_upsertDelivered_def same_receipt_def intro!: receipts_ok_upsert)

lemma sql_markRead_ok [inv_intros]:
  "message_tables_ok t \<Longrightarrow> message_tables_ok (sql_markRead mid u at t)"
  by (auto simp: message_tables_ok_def sql_markRead_def same_receipt_def intro!: receipts_ok_upsert)

lemma sql_markConversationRead_ok [inv_intros]:
  assumes "message_tables_ok t"
  shows "message_tables_ok (sql_markConversationRead conv u last_id last_time at t)"
proof -
  have "message_tables_ok (fold (\<lambda>m. sql_markRead (m_message_id m) u at) ms t)" for ms
    using assms by (induction ms arbitrary: t) (auto intro: inv_intros)
  then show ?thesis by (simp add: sql_markConversationRead_def)
qed

lemma offline_ok_update:
  assumes "offline_ok os" and "\<And>r. P r \<Longrightarrow> om_user_id (f r) = om_user_id r"
    and "\<And>r. P r \<Longrightarrow> om_message_id (f r) = om_message_id r"
  shows "offline_ok (update_where P f os)"
  using assms by (simp add: offline_ok_def map_update_where_key)

lemma sql_offline_ok [inv_intros]:
  assumes "message_tables_ok t"
  shows "message_tables_ok (sql_insertOfflineMessage m t)"
    "message_tables_ok (sql_markBatchAsPulled u mids now t)"
    "message_tables_ok (sql_markAsAcked u mid now t)"
  using assms
  by (auto simp: message_tables_ok_def sql_insertOfflineMessage_def sql_markBatchAsPulled_def Let_def
      sql_markAsAcked_def same_offline_def offline_ok_def map_update_where_key intro!: distinct_upsert)

lemma conversations_ok_update:
  assumes "conversations_ok cs" and "\<And>c. P c \<Longrightarrow> c_owner_user_id (f c) = c_owner_user_id c"
    and "\<And>c. P c \<Longrightarrow> c_conversation_id (f c) = c_conversation_id c"
    and "\<And>c. P c \<Longrightarrow> 0 \<le> c_unread_count c \<Longrightarrow> 0 \<le> c_unread_count (f c)"
  shows "conversations_ok (update_where P f cs)"
  using assms by (auto simp: conversations_ok_def map_update_where_key set_update_where)

lemma sql_upsertOne_ok [inv_intros]:
  assumes "message_tables_ok t"
  shows "message_tables_ok (sql_upsertOne c increase t)"
proof -
  let ?k = "\<lambda>c. (c_owner_user_id c, c_conversation_id c)"
  have "distinct (map ?k (upsert (same_conversation (c_owner_user_id c) (c_conversation_id c)) a b (conversations t)))"
    if "?k a = ?k c" "\<And>r. ?k (b r) = ?k r" for a b
    by (rule distinct_upsert)
       (use that assms in \<open>auto simp: message_tables_ok_def conversations_ok_def same_conversation_def\<close>)
  moreover have "0 \<le> c_unread_count r" if "r \<in> set (conversations (sql_upsertOne c increase t))" for r
    using that assms
    by (fastforce simp: sql_upsertOne_def Let_def message_tables_ok_def conversations_ok_def dest!: set_upsert)
  ultimately show ?thesis
    using assms by (simp add: message_tables_ok_def conversations_ok_def sql_upsertOne_def Let_def)
qed

lemma sql_conversation_ok [inv_intros]:
  assumes "message_tables_ok t"
  shows "message_tables_ok (sql_recalculateUnread owner conv now t)"
    "message_tables_ok (sql_recalculateUnreadForConversation conv now t)"
    "message_tables_ok (sql_markLastMessageRecalled conv mid at t)"
  using assms by (auto simp: message_tables_ok_def sql_recalculateUnread_def
      sql_recalculateUnreadForConversation_def sql_markLastMessageRecalled_def intro!: conversations_ok_update)

lemma sql_updateConversation_ok:
  assumes "message_tables_ok t" and "sql_updateConversation owner conv f t = Some (n, t')"
    and "\<And>c. c_owner_user_id (f c) = c_owner_user_id c" "\<And>c. c_conversation_id (f c) = c_conversation_id c"
    and "\<And>c. 0 \<le> c_unread_count c \<Longrightarrow> 0 \<le> c_unread_count (f c)"
  shows "message_tables_ok t'"
  using assms by (auto simp: message_tables_ok_def sql_updateConversation_def intro!: conversations_ok_update)

section \<open>Paging through a conversation\<close>

abbreviation message_key :: "MessageRecord \<Rightarrow> int \<times> u64" where
  "message_key m \<equiv> (m_created_at m, m_message_id m)"

definition newest_first :: "u64 \<Rightarrow> tables \<Rightarrow> MessageRecord list" where
  "newest_first conv t = rev (sort_key message_key (filter (\<lambda>m. m_conversation_id m = conv) (messages t)))"

text \<open>A client walks a conversation: each request passes the time and the id of the last message of the
  page before, the first one passes zeros, and the walk ends at an empty page.\<close>

primrec walk_pages :: "nat \<Rightarrow> u64 \<Rightarrow> nat \<Rightarrow> tables \<Rightarrow> int \<Rightarrow> u64 \<Rightarrow> MessageRecord list" where
  "walk_pages 0 conv limit t bt bi = []"
| "walk_pages (Suc n) conv limit t bt bi =
     (let page = sql_listConversationMessages conv bt bi limit t in
      if page = [] then []
      else page @ walk_pages n conv limit t (m_created_at (last page)) (m_message_id (last page)))"

lemma list_page:
  "sql_listConversationMessages conv bt bi limit t = take limit (filter (before_cursor bt bi) (newest_first conv t))"
  by (simp add: sql_listConversationMessages_def newest_first_def rev_filter [symmetric] filter_sort
      conj_commute)

lemma newest_first_descending:
  assumes "distinct (map m_message_id (messages t))"
  shows "sorted_wrt (\<lambda>a b. message_key b < message_key a) (newest_first conv t)"
proof -
  let ?s = "sort_key message_key (filter (\<lambda>m. m_conversation_id m = conv) (messages t))"
  have "distinct (map message_key ?s)"
    using assms by (simp add: distinct_map inj_on_def)
  moreover have "sorted (map message_key ?s)" by simp
  ultimately have "sorted_wrt (<) (map message_key ?s)"
    using strict_sorted_iff by blast
  then show ?thesis by (simp add: newest_first_def sorted_wrt_map sorted_wrt_rev)
qed

lemma before_cursor_key:
  "0 < m_created_at x \<Longrightarrow> 0 < m_message_id x \<Longrightarrow>
     before_cursor (m_created_at x) (m_message_id x) m \<longleftrightarrow> message_key m < message_key x"
  by (auto simp: before_cursor_def)

lemma filter_after_page:
  assumes "sorted_wrt (\<lambda>a b. message_key b < message_key a) (xs @ ys)" and "xs \<noteq> []"
  shows "filter (\<lambda>m. message_key m < message_key (last xs)) (xs @ ys) = ys"
proof -
  have "\<forall>m \<in> set xs. message_key m \<ge> message_key (last xs)"
    using assms by (induction xs rule: rev_induct) (auto simp: sorted_wrt_append intro: less_imp_le)
  moreover have "\<forall>m \<in> set ys. message_key m < message_key (last xs)"
    using assms by (auto simp: sorted_wrt_append)
  ultimately show ?thesis
    by (auto simp: filter_empty_conv not_less filter_id_conv)
qed

lemma walk_pages_from:
  assumes "sorted_wrt (\<lambda>a b. message_key b < message_key a) (seen @ todo)"
    and "newest_first conv t = seen @ todo" and "\<forall>m \<in> set seen. 0 < m_created_at m \<and> 0 < m_message_id m"
    and "\<forall>m \<in> set todo. 0 < m_created_at m \<and> 0 < m_message_id m"
    and "0 < limit" and "length todo \<le> n"
    and "filter (before_cursor bt bi) (seen @ todo) = todo"
  shows "walk_pages n conv limit t bt bi = todo"
  using assms
proof (induction n arbitrary: seen todo bt bi)
  case (Suc n)
  let ?page = "take limit todo" and ?rest = "drop limit todo"
  show ?case
  proof (cases "todo = []")
    case False
    then have p: "?page \<noteq> []" using Suc.prems(5) by simp
    have l: "last (seen @ ?page) = last ?page" "last ?page \<in> set todo"
      using p in_set_takeD [OF last_in_set [OF p]] by simp_all
    have "before_cursor (m_created_at (last ?page)) (m_message_id (last ?page))
        = (\<lambda>m. message_key m < message_key (last (seen @ ?page)))"
      using Suc.prems(4) l by (auto simp: before_cursor_key)
    moreover have "filter (\<lambda>m. message_key m < message_key (last (seen @ ?page))) ((seen @ ?page) @ ?rest) = ?rest"
      by (rule filter_after_page) (use Suc.prems(1) p in simp_all)
    moreover have "length ?rest \<le> n" using Suc.prems(5,6) False by (cases todo) auto
    ultimately have "walk_pages n conv limit t (m_created_at (last ?page)) (m_message_id (last ?page)) = ?rest"
      using Suc.prems(1-5)
      by (intro Suc.IH [of "seen @ ?page" ?rest]) (auto dest: in_set_takeD in_set_dropD)
    then show ?thesis
      using Suc.prems(2,7) p False by (simp add: list_page Let_def)
  qed (use Suc.prems in \<open>simp add: list_page Let_def\<close>)
qed simp

text \<open>
  C31. Paging is complete and free of repetitions: walking a conversation from the newest message with
  any positive page size visits every message of the conversation exactly once, newest first, and ends.
\<close>

theorem paging_visits_all_once:
  assumes "message_tables_ok t" and "\<forall>m \<in> set (messages t). 0 < m_created_at m \<and> 0 < m_message_id m"
    and "0 < limit" and "length (messages t) \<le> n"
  shows "walk_pages n conv limit t 0 0 = newest_first conv t
     \<and> set (newest_first conv t) = {m \<in> set (messages t). m_conversation_id m = conv}
     \<and> sorted_wrt (\<lambda>a b. message_key b < message_key a) (newest_first conv t)"
proof -
  have "walk_pages n conv limit t 0 0 = newest_first conv t"
  proof (rule walk_pages_from [of "[]"])
    show "length (newest_first conv t) \<le> n"
      using assms(4) le_trans [OF length_filter_le [of "\<lambda>m. m_conversation_id m = conv" "messages t"]]
      by (simp add: newest_first_def)
  qed (use assms newest_first_descending in
      \<open>auto simp: newest_first_def message_tables_ok_def messages_ok_def before_cursor_def\<close>)
  then show ?thesis
    using assms(1) newest_first_descending [of t conv]
    by (auto simp: newest_first_def message_tables_ok_def messages_ok_def)
qed

definition page_example :: tables where
  "page_example = empty_tables\<lparr>messages := map (\<lambda>(i, c, at).
     \<lparr>m_message_id = i, m_conversation_id = c, m_from_user_id = 1, m_client_sequence_id = 0, m_to_user_id = 2,
      m_group_id = 0, m_message_type = 1, m_content = [], m_status = 1, m_recalled = False,
      m_recalled_at = 0, m_created_at = at, m_updated_at = at\<rparr>)
     [(1, 9, 5), (2, 9, 5), (3, 8, 6), (4, 9, 7)]\<rparr>"

theorem paging_visits_all_once_witness:
  "map m_message_id (walk_pages 4 9 2 page_example 0 0) = [4, 2, 1]
     \<and> walk_pages 4 9 2 page_example 0 0 = newest_first 9 page_example"
proof -
  have "message_tables_ok page_example \<and> (\<forall>m \<in> set (messages page_example). 0 < m_created_at m \<and> 0 < m_message_id m)
      \<and> length (messages page_example) \<le> 4"
    by (simp add: page_example_def empty_tables_def message_tables_ok_def messages_ok_def receipts_ok_def
        conversations_ok_def offline_ok_def)
  then have "walk_pages 4 9 2 page_example 0 0 = newest_first 9 page_example"
    using paging_visits_all_once [of page_example 2 4 9] by simp
  then show ?thesis
    by (simp add: newest_first_def page_example_def empty_tables_def sort_key_def insort_key_def)
qed

section \<open>Unread counts\<close>

definition has_read :: "tables \<Rightarrow> u64 \<Rightarrow> u64 \<Rightarrow> bool" where
  "has_read t u mid \<longleftrightarrow> (\<exists>r \<in> set (message_receipts t). same_receipt mid u r \<and> rc_read_at r \<noteq> 0)"

lemma receipts_ok_single:
  assumes "receipts_ok rs" and "r \<in> set rs" and "same_receipt mid u r"
  shows "filter (same_receipt mid u) rs = [r]"
  using assms
proof (induction rs)
  case (Cons a rs)
  have ok: "receipts_ok rs" and n: "(rc_message_id a, rc_user_id a) \<notin> (\<lambda>r. (rc_message_id r, rc_user_id r)) ` set rs"
    using Cons.prems(1) by (auto simp: receipts_ok_def)
  show ?case
  proof (cases "same_receipt mid u a")
    case True
    then have "\<forall>x \<in> set rs. \<not> same_receipt mid u x"
      using n by (auto simp: same_receipt_def image_iff)
    then show ?thesis using True Cons.prems(2,3) by (auto simp: filter_empty_conv)
  next
    case False
    then show ?thesis using Cons.IH [OF ok] Cons.prems(2,3) by auto
  qed
qed simp

lemma unread_rows_eq:
  assumes "receipts_ok (message_receipts t)"
  shows "unread_rows t u m = (if has_read t u (m_message_id m) then 0 else 1)"
proof (cases "\<exists>r \<in> set (message_receipts t). same_receipt (m_message_id m) u r")
  case True
  then obtain r where "r \<in> set (message_receipts t)" "same_receipt (m_message_id m) u r" by blast
  then have f: "filter (same_receipt (m_message_id m) u) (message_receipts t) = [r]"
    by (rule receipts_ok_single [OF assms])
  have "has_read t u (m_message_id m)
      \<longleftrightarrow> (\<exists>r \<in> set (filter (same_receipt (m_message_id m) u) (message_receipts t)). rc_read_at r \<noteq> 0)"
    by (auto simp: has_read_def)
  with f show ?thesis by (simp add: unread_rows_def)
next
  case False
  then have "filter (same_receipt (m_message_id m) u) (message_receipts t) = []"
    by (auto simp: filter_empty_conv)
  with False show ?thesis by (auto simp: unread_rows_def has_read_def)
qed

lemma sql_countUnread_eq:
  assumes "receipts_ok (message_receipts t)"
  shows "sql_countUnread t u conv = length (filter (\<lambda>m. m_conversation_id m = conv \<and> m_from_user_id m \<noteq> u
     \<and> \<not> m_recalled m \<and> \<not> has_read t u (m_message_id m)) (messages t))"
proof -
  have "sum_list (map (unread_rows t u) ms) = length (filter (\<lambda>m. \<not> has_read t u (m_message_id m)) ms)" for ms
    by (induction ms) (auto simp: unread_rows_eq [OF assms])
  then show ?thesis
    by (simp add: sql_countUnread_def conj_assoc)
qed

lemma has_read_sql_markRead:
  assumes "0 < at"
  shows "has_read (sql_markRead mid u at t) u' mid' \<longleftrightarrow> has_read t u' mid' \<or> (u' = u \<and> mid' = mid)"
proof (cases "list_ex (same_receipt mid u) (message_receipts t)")
  case True
  let ?f = "\<lambda>r. r\<lparr>rc_delivered_at := max (rc_delivered_at r) at, rc_read_at := max (rc_read_at r) at, rc_updated_at := at\<rparr>"
  have "has_read (sql_markRead mid u at t) u' mid' \<longleftrightarrow> (\<exists>r \<in> set (message_receipts t).
      if same_receipt mid u r then same_receipt mid' u' (?f r) \<and> rc_read_at (?f r) \<noteq> 0
      else same_receipt mid' u' r \<and> rc_read_at r \<noteq> 0)"
    using True by (simp add: has_read_def sql_markRead_def upsert_def Bex_update_where)
  also have "\<dots> \<longleftrightarrow> (\<exists>r \<in> set (message_receipts t).
      if same_receipt mid u r then u' = u \<and> mid' = mid else same_receipt mid' u' r \<and> rc_read_at r \<noteq> 0)"
    by (rule bex_cong [OF refl]) (use assms in \<open>auto simp: same_receipt_def max_def\<close>)
  also have "\<dots> \<longleftrightarrow> has_read t u' mid' \<or> (u' = u \<and> mid' = mid)"
  proof (cases "u' = u \<and> mid' = mid")
    case False
    then have "\<not> same_receipt mid u r \<or> \<not> same_receipt mid' u' r" for r by (auto simp: same_receipt_def)
    then show ?thesis using False unfolding has_read_def by metis
  qed (use True in \<open>auto simp: list_ex_iff\<close>)
  finally show ?thesis .
next
  case False
  then show ?thesis
    using assms by (auto simp: has_read_def sql_markRead_def upsert_def list_ex_iff same_receipt_def)
qed

lemma fold_markRead:
  assumes "0 < at"
  shows "has_read (fold (\<lambda>m. sql_markRead (m_message_id m) u at) ms t) u' mid'
       \<longleftrightarrow> has_read t u' mid' \<or> (u' = u \<and> mid' \<in> m_message_id ` set ms)"
    and "messages (fold (\<lambda>m. sql_markRead (m_message_id m) u at) ms t) = messages t"
  by (induction ms arbitrary: t) (auto simp: has_read_sql_markRead [OF assms], simp_all add: sql_markRead_def)

lemma unread_after_markConversationRead:
  assumes "message_tables_ok t" and "0 < at"
  shows "sql_countUnread (sql_markConversationRead conv u last_id last_time at t) u conv
     = length (filter (\<lambda>m. m_conversation_id m = conv \<and> m_from_user_id m \<noteq> u \<and> \<not> m_recalled m
         \<and> \<not> has_read t u (m_message_id m)
         \<and> (last_time, last_id) < message_key m) (messages t))"
proof -
  let ?t = "sql_markConversationRead conv u last_id last_time at t"
  have inj: "m = m'" if "m \<in> set (messages t)" "m' \<in> set (messages t)" "m_message_id m = m_message_id m'" for m m'
    using assms(1) that by (auto simp: message_tables_ok_def messages_ok_def distinct_map dest: inj_onD)
  have r: "has_read ?t u (m_message_id m) \<longleftrightarrow> has_read t u (m_message_id m) \<or> read_by_cursor conv u last_id last_time m"
    if "m \<in> set (messages t)" for m
    using that by (auto simp: sql_markConversationRead_def fold_markRead [OF assms(2)] dest: inj)
  have "receipts_ok (message_receipts ?t)"
    using sql_markConversationRead_ok [OF assms(1)] by (simp add: message_tables_ok_def)
  moreover have "messages ?t = messages t"
    by (simp add: sql_markConversationRead_def fold_markRead [OF assms(2)])
  ultimately have "sql_countUnread ?t u conv = length (filter (\<lambda>m. m_conversation_id m = conv \<and> m_from_user_id m \<noteq> u
      \<and> \<not> m_recalled m \<and> \<not> has_read ?t u (m_message_id m)) (messages t))"
    by (simp add: sql_countUnread_eq)
  also have "filter (\<lambda>m. m_conversation_id m = conv \<and> m_from_user_id m \<noteq> u \<and> \<not> m_recalled m
        \<and> \<not> has_read ?t u (m_message_id m)) (messages t)
      = filter (\<lambda>m. m_conversation_id m = conv \<and> m_from_user_id m \<noteq> u \<and> \<not> m_recalled m
         \<and> \<not> has_read t u (m_message_id m) \<and> (last_time, last_id) < message_key m) (messages t)"
    by (rule filter_cong [OF refl], simp only: r) (auto simp: read_by_cursor_def)
  finally show ?thesis .
qed

section \<open>Previews\<close>

text \<open>The byte strings of UTF-8 characters, by their first byte.\<close>

definition utf8_char :: "string \<Rightarrow> bool" where
  "utf8_char c \<longleftrightarrow> c \<noteq> [] \<and> (\<forall>x \<in> set (tl c). isContinuationByte x) \<and>
     (let lead = (of_char (hd c) :: nat) in
        (lead div 128 = 0 \<and> length c = 1) \<or> (lead div 32 = 6 \<and> length c = 2)
      \<or> (lead div 16 = 14 \<and> length c = 3) \<or> (lead div 8 = 30 \<and> length c = 4))"

lemma utf8_lead: "utf8_char c \<Longrightarrow> \<not> isContinuationByte (hd c)"
  by (auto simp: utf8_char_def isContinuationByte_def Let_def)

lemma back_to_lead_eq:
  "\<lbrakk>p \<le> e; \<And>i. p < i \<Longrightarrow> i \<le> e \<Longrightarrow> isContinuationByte (v ! i); \<not> isContinuationByte (v ! p)\<rbrakk>
     \<Longrightarrow> back_to_lead v e = p"
  by (induction e) (auto simp: le_Suc_eq)

lemma utf8_cut:
  assumes "utf8_char c" and "length a \<le> k" and "k < length a + length c"
  shows "utf8SafePrefixLength (a @ c @ b) k = length a"
proof -
  have e: "back_to_lead (a @ c @ b) k = length a"
  proof (rule back_to_lead_eq)
    show "isContinuationByte ((a @ c @ b) ! i)" if h: "length a < i" "i \<le> k" for i
    proof -
      obtain j where j: "i = length a + Suc j"
        using less_imp_Suc_add [OF h(1)] by auto
      then have "(a @ c @ b) ! i = tl c ! j" "j < length (tl c)"
        using h(2) assms(3) by (auto simp: nth_append nth_tl)
      then show ?thesis using assms(1) by (auto simp: utf8_char_def)
    qed
    show "\<not> isContinuationByte ((a @ c @ b) ! length a)"
      using utf8_lead [OF assms(1)] assms(1) by (auto simp: nth_append utf8_char_def hd_conv_nth)
  qed (use assms in simp)
  have h: "(a @ c @ b) ! length a = hd c"
    using assms(1) by (auto simp: nth_append utf8_char_def hd_conv_nth)
  show ?thesis
    using assms e h by (auto simp: utf8SafePrefixLength_def utf8_char_def Let_def)
qed

lemma whole_characters:
  assumes "k < length (concat cs)"
  shows "\<exists>n < length cs. length (concat (take n cs)) \<le> k \<and> k < length (concat (take (Suc n) cs))"
  using assms
proof (induction cs arbitrary: k)
  case (Cons c cs)
  show ?case
  proof (cases "k < length c")
    case False
    then have "k - length c < length (concat cs)" using Cons.prems by simp
    then obtain n where "n < length cs" "length (concat (take n cs)) \<le> k - length c"
      "k - length c < length (concat (take (Suc n) cs))"
      using Cons.IH by blast
    then show ?thesis using False by (intro exI [of _ "Suc n"]) auto
  qed auto
qed simp

text \<open>
  C32. A preview never splits a character: for every valid UTF-8 text the preview is the longest prefix
  of whole characters that fits the given number of bytes.
\<close>

theorem buildPreview_whole_characters:
  assumes "\<forall>c \<in> set cs. utf8_char c"
  shows "\<exists>n. buildPreview (concat cs) max_len = concat (take n cs)
     \<and> length (buildPreview (concat cs) max_len) \<le> max_len
     \<and> (n < length cs \<longrightarrow> max_len < length (concat (take (Suc n) cs)))"
proof (cases "length (concat cs) \<le> max_len")
  case True
  then show ?thesis by (intro exI [of _ "length cs"]) (simp add: buildPreview_def)
next
  case False
  then obtain n where n: "n < length cs" "length (concat (take n cs)) \<le> max_len"
    "max_len < length (concat (take (Suc n) cs))"
    using whole_characters [of max_len cs] by auto
  have split: "concat cs = concat (take n cs) @ cs ! n @ concat (drop (Suc n) cs)"
    using n(1) by (metis append_take_drop_id Cons_nth_drop_Suc concat.simps(2) concat_append)
  have "utf8SafePrefixLength (concat cs) max_len = length (concat (take n cs))"
    unfolding split
    by (rule utf8_cut) (use assms n in \<open>auto simp: take_Suc_conv_app_nth\<close>)
  then have "buildPreview (concat cs) max_len = concat (take n cs)"
    using False split by (simp add: buildPreview_def)
  then show ?thesis using n by auto
qed

theorem buildPreview_whole_characters_witness:
  "\<exists>n. buildPreview (concat [''a'', [char_of (0xC3 :: nat), char_of (0xA9 :: nat)], ''b'']) 2
       = concat (take n [''a'', [char_of (0xC3 :: nat), char_of (0xA9 :: nat)], ''b''])"
proof -
  have "\<forall>c \<in> set [''a'', [char_of (0xC3 :: nat), char_of (0xA9 :: nat)], ''b'']. utf8_char c"
    by (simp add: utf8_char_def isContinuationByte_def)
  then show ?thesis
    using buildPreview_whole_characters [of "[''a'', [char_of (0xC3 :: nat), char_of (0xA9 :: nat)], ''b'']" 2] by blast
qed

section \<open>Stored payloads\<close>

lemma hexValue_digit: "n < 16 \<Longrightarrow> hexValue (hex_digits ! n) = int n"
proof -
  have "\<forall>n < 16. hexValue (hex_digits ! n) = int n"
    by code_simp
  then show "n < 16 \<Longrightarrow> ?thesis" by simp
qed

lemma fromHex_pairs_toHex: "fromHex_pairs (toHex bs) = Some bs"
proof (induction bs)
  case (Cons a bs)
  have "of_char a div 16 < (16 :: nat)" using nat_of_char_less_256 [of a] by (simp only: less_mult_imp_div_less)
  with Cons show ?case
    by (simp add: toHex_def hexValue_digit nat_add_distrib nat_mult_distrib)
qed (simp add: toHex_def)

lemma parseOffline_toHex: "fromHex (toHex bs) = bs"
proof -
  have "length (toHex bs) = 2 * length bs"
    by (induction bs) (simp_all add: toHex_def)
  then show ?thesis by (simp add: fromHex_def fromHex_pairs_toHex)
qed

section \<open>What the look-ups return\<close>

lemma wp_getMessageById [wp_intros]:
  assumes "\<And>r w'. undisturbed w w' \<Longrightarrow> (\<And>m. r = Some m \<Longrightarrow> m \<in> set (messages (db w)) \<and> m_message_id m = mid) \<Longrightarrow> Q r w'"
  shows "wp (getMessageById mid) Q w"
  unfolding getMessageById_def by (intro wp_pooled_query assms) (auto dest!: sym [THEN select_one_Some] select_one_Some)

lemma wp_getMessageByClientSequence [wp_intros]:
  assumes "\<And>r w'. undisturbed w w' \<Longrightarrow> (\<And>m. r = Some m \<Longrightarrow> client_seq \<noteq> 0 \<and> m \<in> set (messages (db w))
      \<and> m_from_user_id m = from \<and> m_client_sequence_id m = client_seq) \<Longrightarrow> Q r w'"
  shows "wp (getMessageByClientSequence from client_seq) Q w"
  unfolding getMessageByClientSequence_def
  by (intro wp_if wp_return wp_pooled_query assms) (auto dest!: sym [THEN select_one_Some] select_one_Some)

lemma wp_listConversationMessages [wp_intros]:
  assumes "\<And>r w'. undisturbed w w' \<Longrightarrow> r = [] \<or> r = sql_listConversationMessages conv before_time before_id limit (db w) \<Longrightarrow> Q r w'"
  shows "wp (listConversationMessages conv before_time before_id limit) Q w"
  unfolding listConversationMessages_def by (intro wp_pooled_query assms) auto

lemma wp_conversation_isOwner [wp_intros]:
  assumes "\<And>r w'. undisturbed w w' \<Longrightarrow>
     (r \<Longrightarrow> list_ex (\<lambda>c. same_conversation owner conv c \<and> \<not> c_deleted c) (conversations (db w))) \<Longrightarrow> Q r w'"
  shows "wp (conversation_isOwner owner conv) Q w"
  unfolding conversation_isOwner_def by (intro wp_pooled_query assms) auto

lemma wp_getReadState [wp_intros]:
  assumes "\<And>r w'. undisturbed w w' \<Longrightarrow> set r \<subseteq> {s \<in> set (message_receipts (db w)). rc_message_id s = mid} \<Longrightarrow> Q r w'"
  shows "wp (getReadState mid) Q w"
  unfolding getReadState_def by (intro wp_pooled_query assms) auto

lemma wp_listOfflineMessages [wp_intros]:
  assumes "\<And>r w'. undisturbed w w' \<Longrightarrow> r = [] \<or> r = sql_listOfflineMessages u limit (db w) \<Longrightarrow> Q r w'"
  shows "wp (listOfflineMessages u limit) Q w"
  unfolding listOfflineMessages_def by (intro wp_pooled_query assms) auto

end
