(* ===== verification/Directory_Store.thy ===== *)
theory Directory_Store
  imports Service_World
begin

text \<open>
  The tables of users, devices, friendships, friend requests and groups with the methods of
  \<^verbatim>\<open>UserDao\<close>, \<^verbatim>\<open>DeviceDao\<close>, \<^verbatim>\<open>RelationDao\<close>, \<^verbatim>\<open>FriendRequestDao\<close> and \<^verbatim>\<open>GroupDao\<close>
  (\<^verbatim>\<open>common/dao\<close>). User names and device ids are text columns that MySQL compares under the collation of the
  database; the argument \<open>coll\<close> maps a text to its collation key.
\<close>

section \<open>Users\<close>

definition sql_createUser :: "(string \<Rightarrow> string) \<Rightarrow> User \<Rightarrow> tables \<Rightarrow> (nat \<times> tables) option" where
  "sql_createUser coll u t =
     (if list_ex (\<lambda>r. user_id r = user_id u \<or> coll (username r) = coll (username u)) (users t) then None
      else Some (1, t\<lparr>users := users t @ [u]\<rparr>))"

text \<open>The result is the new id, or \<open>None\<close> for \<open>false\<close>.\<close>

definition createUser :: "(string \<Rightarrow> string) \<Rightarrow> User \<Rightarrow> u64 option io" where
  "createUser coll u = pooled None (do {
     i \<leftarrow> auto_increment user_seq (\<lambda>i q. q\<lparr>user_seq := i\<rparr>);
     r \<leftarrow> executeUpdate (sql_createUser coll (u\<lparr>user_id := i\<rparr>));
     return (if ran r then Some i else None) })"

definition getUserById :: "u64 \<Rightarrow> User option io" where
  "getUserById uid = pooled None (do {
     r \<leftarrow> executeQuery (\<lambda>t. select_one (\<lambda>u. user_id u = uid) (users t));
     return (Option.bind r id) })"

definition getUserByUsername :: "(string \<Rightarrow> string) \<Rightarrow> string \<Rightarrow> User option io" where
  "getUserByUsername coll name = pooled None (do {
     r \<leftarrow> executeQuery (\<lambda>t. select_one (\<lambda>u. coll (username u) = coll name) (users t));
     return (Option.bind r id) })"

definition updateUserProfile :: "u64 \<Rightarrow> string \<Rightarrow> string \<Rightarrow> bool io" where
  "updateUserProfile uid nick av = pooled False (do {
     now \<leftarrow> nowMs;
     execute (\<lambda>t. t\<lparr>users := update_where (\<lambda>u. user_id u = uid)
       (\<lambda>u. u\<lparr>nickname := nick, avatar := av, user_updated_at := now\<rparr>) (users t)\<rparr>) })"

section \<open>Devices\<close>

definition same_device :: "(string \<Rightarrow> string) \<Rightarrow> u64 \<Rightarrow> string \<Rightarrow> UserDevice \<Rightarrow> bool" where
  "same_device coll uid did d \<longleftrightarrow> d_user_id d = uid \<and> coll (d_device_id d) = coll did"

definition sql_upsertDevice :: "(string \<Rightarrow> string) \<Rightarrow> UserDevice \<Rightarrow> tables \<Rightarrow> tables" where
  "sql_upsertDevice coll d t = t\<lparr>user_devices := upsert (same_device coll (d_user_id d) (d_device_id d)) d
     (\<lambda>r. r\<lparr>d_platform := d_platform d, d_device_name := d_device_name d, d_token_hash := d_token_hash d,
            d_last_login_at := d_last_login_at d, d_last_active_at := d_last_active_at d,
            d_updated_at := d_updated_at d\<rparr>) (user_devices t)\<rparr>"

definition upsertDevice :: "(string \<Rightarrow> string) \<Rightarrow> UserDevice \<Rightarrow> bool io" where
  "upsertDevice coll d =
     (if d_user_id d = 0 \<or> d_device_id d = [] then return False
      else pooled False (do {
        now \<leftarrow> nowMs;
        let login_at = (if d_last_login_at d > 0 then d_last_login_at d else now);
        let active_at = (if d_last_active_at d > 0 then d_last_active_at d else login_at);
        let created = (if d_created_at d > 0 then d_created_at d else now);
        let updated = (if d_updated_at d > 0 then d_updated_at d else now);
        execute (sql_upsertDevice coll (d\<lparr>d_last_login_at := login_at, d_last_active_at := active_at,
                   d_created_at := created, d_updated_at := updated\<rparr>)) }))"

definition getDevice :: "(string \<Rightarrow> string) \<Rightarrow> u64 \<Rightarrow> string \<Rightarrow> UserDevice option io" where
  "getDevice coll uid did =
     (if uid = 0 \<or> did = [] then return None
      else pooled None (do {
        r \<leftarrow> executeQuery (\<lambda>t. select_one (same_device coll uid did) (user_devices t));
        return (Option.bind r id) }))"

definition listDevices :: "u64 \<Rightarrow> UserDevice list io" where
  "listDevices uid =
     (if uid = 0 then return []
      else pooled [] (do {
        r \<leftarrow> executeQuery (\<lambda>t. rev (sort_key (\<lambda>d. (d_last_active_at d, d_last_login_at d))
               (filter (\<lambda>d. d_user_id d = uid) (user_devices t))));
        return (case r of None \<Rightarrow> [] | Some ds \<Rightarrow> ds) }))"

definition updateLastActive :: "(string \<Rightarrow> string) \<Rightarrow> u64 \<Rightarrow> string \<Rightarrow> int \<Rightarrow> bool io" where
  "updateLastActive coll uid did at =
     (if uid = 0 \<or> did = [] then return False
      else pooled False (do {
        now \<leftarrow> nowMs;
        let active_at = (if at > 0 then at else now);
        execute (\<lambda>t. t\<lparr>user_devices := update_where (same_device coll uid did)
          (\<lambda>d. d\<lparr>d_last_active_at := active_at, d_updated_at := now\<rparr>) (user_devices t)\<rparr>) }))"

definition clear_token :: "int \<Rightarrow> UserDevice \<Rightarrow> UserDevice" where
  "clear_token now d = d\<lparr>d_token_hash := [], d_last_active_at := now, d_updated_at := now\<rparr>"

definition clearDeviceToken :: "(string \<Rightarrow> string) \<Rightarrow> u64 \<Rightarrow> string \<Rightarrow> int \<Rightarrow> bool io" where
  "clearDeviceToken coll uid did at =
     (if uid = 0 \<or> did = [] then return False
      else pooled False (do {
        now \<leftarrow> (if at > 0 then return at else nowMs);
        execute (\<lambda>t. t\<lparr>user_devices := update_where (same_device coll uid did) (clear_token now) (user_devices t)\<rparr>) }))"

definition clearAllDeviceTokens :: "u64 \<Rightarrow> int \<Rightarrow> bool io" where
  "clearAllDeviceTokens uid at =
     (if uid = 0 then return False
      else pooled False (do {
        now \<leftarrow> (if at > 0 then return at else nowMs);
        execute (\<lambda>t. t\<lparr>user_devices := update_where (\<lambda>d. d_user_id d = uid) (clear_token now) (user_devices t)\<rparr>) }))"

definition deleteDevice :: "(string \<Rightarrow> string) \<Rightarrow> u64 \<Rightarrow> string \<Rightarrow> bool io" where
  "deleteDevice coll uid did =
     (if uid = 0 \<or> did = [] then return False
      else pooled False (execute (\<lambda>t. t\<lparr>user_devices :=
             filter (\<lambda>d. \<not> same_device coll uid did d) (user_devices t)\<rparr>)))"

definition deleteDevicesByUser :: "u64 \<Rightarrow> bool io" where
  "deleteDevicesByUser uid =
     (if uid = 0 then return False
      else pooled False (execute (\<lambda>t. t\<lparr>user_devices := filter (\<lambda>d. d_user_id d \<noteq> uid) (user_devices t)\<rparr>)))"

section \<open>Friendships\<close>

definition same_friendship :: "u64 \<Rightarrow> u64 \<Rightarrow> Friendship \<Rightarrow> bool" where
  "same_friendship a b f \<longleftrightarrow> fs_user_id f = a \<and> fs_friend_id f = b"

definition sql_addFriend :: "u64 \<Rightarrow> u64 \<Rightarrow> int \<Rightarrow> tables \<Rightarrow> tables" where
  "sql_addFriend a b now t = t\<lparr>friendships := upsert (same_friendship a b)
     \<lparr>fs_user_id = a, fs_friend_id = b, fs_status = 1, fs_created_at = now, fs_updated_at = now\<rparr>
     (\<lambda>f. f\<lparr>fs_status := 1, fs_updated_at := now\<rparr>) (friendships t)\<rparr>"

definition addFriend_on :: "u64 \<Rightarrow> u64 \<Rightarrow> bool io" where
  "addFriend_on a b = (if a = 0 \<or> b = 0 \<or> a = b then return False
     else do { now \<leftarrow> nowMs; execute (sql_addFriend a b now) })"

definition addFriend :: "u64 \<Rightarrow> u64 \<Rightarrow> bool io" where
  "addFriend a b = (if a = 0 \<or> b = 0 \<or> a = b then return False else pooled False (addFriend_on a b))"

definition sql_deleteFriend :: "u64 \<Rightarrow> u64 \<Rightarrow> int \<Rightarrow> tables \<Rightarrow> tables" where
  "sql_deleteFriend a b now t = t\<lparr>friendships := update_where (same_friendship a b)
     (\<lambda>f. f\<lparr>fs_status := 0, fs_updated_at := now\<rparr>) (friendships t)\<rparr>"

definition deleteFriend :: "u64 \<Rightarrow> u64 \<Rightarrow> bool io" where
  "deleteFriend a b = pooled False (do { now \<leftarrow> nowMs; execute (sql_deleteFriend a b now) })"

definition addFriendBidirectional_on :: "u64 \<Rightarrow> u64 \<Rightarrow> bool io" where
  "addFriendBidirectional_on a b = andalso (addFriend_on a b) (addFriend_on b a)"

definition addFriendBidirectional :: "u64 \<Rightarrow> u64 \<Rightarrow> bool io" where
  "addFriendBidirectional a b = (if a = 0 \<or> b = 0 \<or> a = b then return False
     else pooled False (with_tx (\<lambda>active. if \<not> active then return False
            else andalso (addFriendBidirectional_on a b) commit_tx)))"

definition deleteFriendBidirectional :: "u64 \<Rightarrow> u64 \<Rightarrow> bool io" where
  "deleteFriendBidirectional a b = pooled False (with_tx (\<lambda>active. if \<not> active then return False
     else do {
       now1 \<leftarrow> nowMs;
       ok1 \<leftarrow> execute (sql_deleteFriend a b now1);
       if \<not> ok1 then return False
       else do {
         now2 \<leftarrow> nowMs;
         ok2 \<leftarrow> execute (sql_deleteFriend b a now2);
         if \<not> ok2 then return False else commit_tx } }))"

definition friends :: "tables \<Rightarrow> u64 \<Rightarrow> u64 \<Rightarrow> bool" where
  "friends t a b \<longleftrightarrow> list_ex (\<lambda>f. same_friendship a b f \<and> fs_status f = 1) (friendships t)"

definition isFriend :: "u64 \<Rightarrow> u64 \<Rightarrow> bool io" where
  "isFriend a b = pooled False (do { r \<leftarrow> executeQuery (\<lambda>t. friends t a b); return (r = Some True) })"

definition listFriends :: "u64 \<Rightarrow> u64 list io" where
  "listFriends a = pooled [] (do {
     r \<leftarrow> executeQuery (\<lambda>t. sort (map fs_friend_id
            (filter (\<lambda>f. fs_user_id f = a \<and> fs_status f = 1) (friendships t))));
     return (case r of None \<Rightarrow> [] | Some fs \<Rightarrow> fs) })"

section \<open>Friend requests\<close>

definition REQUEST_PENDING :: int where "REQUEST_PENDING = 0"

definition REQUEST_ACCEPTED :: int where "REQUEST_ACCEPTED = 1"

definition REQUEST_REJECTED :: int where "REQUEST_REJECTED = 2"

definition between :: "u64 \<Rightarrow> u64 \<Rightarrow> FriendRequest \<Rightarrow> bool" where
  "between a b r \<longleftrightarrow> (fr_from_user_id r = a \<and> fr_to_user_id r = b) \<or> (fr_from_user_id r = b \<and> fr_to_user_id r = a)"

text \<open>The unique key over the generated columns of the lower and the higher user of a pending request.\<close>

definition sql_createRequest :: "FriendRequest \<Rightarrow> tables \<Rightarrow> (nat \<times> tables) option" where
  "sql_createRequest q t =
     (if list_ex (\<lambda>r. fr_id r = fr_id q \<or> (fr_status q = REQUEST_PENDING \<and> fr_status r = REQUEST_PENDING
           \<and> min (fr_from_user_id r) (fr_to_user_id r) = min (fr_from_user_id q) (fr_to_user_id q)
           \<and> max (fr_from_user_id r) (fr_to_user_id r) = max (fr_from_user_id q) (fr_to_user_id q))) (friend_requests t)
      then None
      else Some (1, t\<lparr>friend_requests := friend_requests t @ [q]\<rparr>))"

definition createRequest :: "FriendRequest \<Rightarrow> u64 option io" where
  "createRequest q = pooled None (do {
     now \<leftarrow> (if fr_created_at q > 0 then return (fr_created_at q) else nowMs);
     i \<leftarrow> auto_increment request_seq (\<lambda>i c. c\<lparr>request_seq := i\<rparr>);
     r \<leftarrow> executeUpdate (sql_createRequest (q\<lparr>fr_id := i, fr_created_at := now,
            fr_updated_at := (if fr_updated_at q > 0 then fr_updated_at q else now)\<rparr>));
     return (if ran r \<and> i \<noteq> 0 then Some i else None) })"

definition hasPendingBetween :: "u64 \<Rightarrow> u64 \<Rightarrow> bool io" where
  "hasPendingBetween a b = pooled False (do {
     r \<leftarrow> executeQuery (\<lambda>t. list_ex (\<lambda>r. fr_status r = REQUEST_PENDING \<and> between a b r) (friend_requests t));
     return (r = Some True) })"

definition getByRequestId :: "u64 \<Rightarrow> FriendRequest option io" where
  "getByRequestId rid = pooled None (do {
     r \<leftarrow> executeQuery (\<lambda>t. select_one (\<lambda>r. fr_id r = rid) (friend_requests t));
     return (Option.bind r id) })"

definition sql_updateStatus :: "u64 \<Rightarrow> int \<Rightarrow> int \<Rightarrow> int \<Rightarrow> tables \<Rightarrow> (nat \<times> tables) option" where
  "sql_updateStatus rid from_status to_status now t =
     (let P = (\<lambda>r. fr_id r = rid \<and> fr_status r = from_status);
          f = (\<lambda>r. r\<lparr>fr_status := to_status, fr_updated_at := now\<rparr>)
      in Some (changed P f (friend_requests t), t\<lparr>friend_requests := update_where P f (friend_requests t)\<rparr>))"

definition updateStatus_on :: "u64 \<Rightarrow> int \<Rightarrow> int \<Rightarrow> bool io" where
  "updateStatus_on rid from_status to_status = do {
     now \<leftarrow> nowMs;
     r \<leftarrow> executeUpdate (sql_updateStatus rid from_status to_status now);
     return (affected r) }"

definition updateStatus :: "u64 \<Rightarrow> int \<Rightarrow> int \<Rightarrow> bool io" where
  "updateStatus rid from_status to_status = pooled False (updateStatus_on rid from_status to_status)"

definition acceptRequestWithFriendship :: "u64 \<Rightarrow> bool io" where
  "acceptRequestWithFriendship rid = pooled False (do {
     r \<leftarrow> executeQuery (\<lambda>t. select_one (\<lambda>r. fr_id r = rid) (friend_requests t));
     case Option.bind r id of None \<Rightarrow> return False
     | Some q \<Rightarrow>
         if fr_status q \<noteq> REQUEST_PENDING then return False
         else with_tx (\<lambda>active. if \<not> active then return False
           else andalso (updateStatus_on rid REQUEST_PENDING REQUEST_ACCEPTED)
                (andalso (addFriendBidirectional_on (fr_from_user_id q) (fr_to_user_id q)) commit_tx)) })"

definition sql_listRequests :: "(FriendRequest \<Rightarrow> u64) \<Rightarrow> u64 \<Rightarrow> int \<Rightarrow> nat \<Rightarrow> tables \<Rightarrow> FriendRequest list" where
  "sql_listRequests side uid st limit t =
     take limit (rev (sort_key fr_created_at
       (filter (\<lambda>r. side r = uid \<and> (st \<ge> 0 \<longrightarrow> fr_status r = st)) (friend_requests t))))"

definition listReceived :: "u64 \<Rightarrow> int \<Rightarrow> nat \<Rightarrow> FriendRequest list io" where
  "listReceived uid st limit = pooled [] (do {
     r \<leftarrow> executeQuery (sql_listRequests fr_to_user_id uid st limit);
     return (case r of None \<Rightarrow> [] | Some rs \<Rightarrow> rs) })"

definition listSent :: "u64 \<Rightarrow> int \<Rightarrow> nat \<Rightarrow> FriendRequest list io" where
  "listSent uid st limit = pooled [] (do {
     r \<leftarrow> executeQuery (sql_listRequests fr_from_user_id uid st limit);
     return (case r of None \<Rightarrow> [] | Some rs \<Rightarrow> rs) })"

section \<open>Groups\<close>

definition sql_insertGroup :: "Group \<Rightarrow> tables \<Rightarrow> (nat \<times> tables) option" where
  "sql_insertGroup g t = (if list_ex (\<lambda>r. group_row_id r = group_row_id g) (groups t) then None
     else Some (1, t\<lparr>groups := groups t @ [g]\<rparr>))"

definition same_member :: "u64 \<Rightarrow> u64 \<Rightarrow> GroupMember \<Rightarrow> bool" where
  "same_member gid uid m \<longleftrightarrow> gm_group_id m = gid \<and> gm_user_id m = uid"

definition sql_insertMember :: "GroupMember \<Rightarrow> tables \<Rightarrow> (nat \<times> tables) option" where
  "sql_insertMember m t =
     (if list_ex (same_member (gm_group_id m) (gm_user_id m)) (group_members t) then None
      else Some (1, t\<lparr>group_members := group_members t @ [m]\<rparr>))"

definition createGroup :: "Group \<Rightarrow> u64 option io" where
  "createGroup g = pooled None (with_tx (\<lambda>active. if \<not> active then return None
     else do {
       i \<leftarrow> auto_increment group_seq (\<lambda>i c. c\<lparr>group_seq := i\<rparr>);
       r1 \<leftarrow> executeUpdate (sql_insertGroup (g\<lparr>group_row_id := i\<rparr>));
       if \<not> ran r1 then return None
       else do {
         r2 \<leftarrow> executeUpdate (sql_insertMember \<lparr>gm_group_id = i, gm_user_id = owner_id g, gm_role = 1,
                 gm_created_at = group_created_at g, gm_updated_at = group_updated_at g\<rparr>);
         if \<not> ran r2 then return None
         else do { ok \<leftarrow> commit_tx; return (if ok then Some i else None) } } }))"

text \<open>A group with its number of members.\<close>

definition with_count :: "tables \<Rightarrow> Group \<Rightarrow> Group \<times> nat" where
  "with_count t g = (g, length (filter (\<lambda>m. gm_group_id m = group_row_id g) (group_members t)))"

definition getGroupById :: "u64 \<Rightarrow> (Group \<times> nat) option io" where
  "getGroupById gid = pooled None (do {
     r \<leftarrow> executeQuery (\<lambda>t. map_option (with_count t) (select_one (\<lambda>g. group_row_id g = gid) (groups t)));
     return (Option.bind r id) })"

definition sql_addMember :: "u64 \<Rightarrow> u64 \<Rightarrow> int \<Rightarrow> int \<Rightarrow> tables \<Rightarrow> tables" where
  "sql_addMember gid uid r now t = t\<lparr>group_members := upsert (same_member gid uid)
     \<lparr>gm_group_id = gid, gm_user_id = uid, gm_role = r, gm_created_at = now, gm_updated_at = now\<rparr>
     (\<lambda>m. m) (group_members t)\<rparr>"

definition addMember :: "u64 \<Rightarrow> u64 \<Rightarrow> int \<Rightarrow> bool io" where
  "addMember gid uid r = pooled False (do { now \<leftarrow> nowMs; execute (sql_addMember gid uid r now) })"

definition sql_removeMember :: "u64 \<Rightarrow> u64 \<Rightarrow> tables \<Rightarrow> tables" where
  "sql_removeMember gid uid t = t\<lparr>group_members := filter (\<lambda>m. \<not> same_member gid uid m) (group_members t)\<rparr>"

definition removeMember :: "u64 \<Rightarrow> u64 \<Rightarrow> bool io" where
  "removeMember gid uid = pooled False (execute (sql_removeMember gid uid))"

definition isMember :: "u64 \<Rightarrow> u64 \<Rightarrow> bool io" where
  "isMember gid uid = pooled False (do {
     r \<leftarrow> executeQuery (\<lambda>t. list_ex (same_member gid uid) (group_members t)); return (r = Some True) })"

definition isOwner :: "u64 \<Rightarrow> u64 \<Rightarrow> bool io" where
  "isOwner gid uid = pooled False (do {
     r \<leftarrow> executeQuery (\<lambda>t. list_ex (\<lambda>m. same_member gid uid m \<and> gm_role m = 1) (group_members t));
     return (r = Some True) })"

definition sql_listMembers :: "u64 \<Rightarrow> tables \<Rightarrow> u64 list" where
  "sql_listMembers gid t = sort (map gm_user_id (filter (\<lambda>m. gm_group_id m = gid) (group_members t)))"

definition listMembers :: "u64 \<Rightarrow> u64 list io" where
  "listMembers gid = pooled [] (do {
     r \<leftarrow> executeQuery (sql_listMembers gid);
     return (case r of None \<Rightarrow> [] | Some ms \<Rightarrow> ms) })"

definition sql_listGroupsForUser :: "u64 \<Rightarrow> nat \<Rightarrow> tables \<Rightarrow> (Group \<times> nat) list" where
  "sql_listGroupsForUser uid limit t =
     map (with_count t) (take limit (rev (sort_key (\<lambda>g. (group_updated_at g, group_row_id g))
       (filter (\<lambda>g. list_ex (same_member (group_row_id g) uid) (group_members t)) (groups t)))))"

definition listGroupsForUser :: "u64 \<Rightarrow> nat \<Rightarrow> (Group \<times> nat) list io" where
  "listGroupsForUser uid limit = do {
     conn \<leftarrow> acquire;
     if \<not> conn \<or> uid = 0 then return []
     else do {
       r \<leftarrow> executeQuery (sql_listGroupsForUser uid (max 1 (min limit 200)));
       return (case r of None \<Rightarrow> [] | Some gs \<Rightarrow> gs) } }"

text \<open>The search: the pattern match and the equality of texts are those of the collation of the database, so
  they are arguments. An id counts as the query only when the whole text is its decimal number.\<close>

definition exact_group_id :: "string \<Rightarrow> u64" where
  "exact_group_id query = (case stoull query of None \<Rightarrow> 0
     | Some (n, consumed) \<Rightarrow> if consumed \<noteq> length query then 0 else of_nat n)"

record text_match =
  contains_text :: "string \<Rightarrow> string \<Rightarrow> bool"
  starts_text :: "string \<Rightarrow> string \<Rightarrow> bool"
  equals_text :: "string \<Rightarrow> string \<Rightarrow> bool"

definition sql_searchGroups :: "text_match \<Rightarrow> string \<Rightarrow> nat \<Rightarrow> tables \<Rightarrow> (Group \<times> nat) list" where
  "sql_searchGroups tm query limit t =
     (let i = exact_group_id query;
          rank = (\<lambda>g. if equals_text tm (group_name g) query then 0 else if starts_text tm (group_name g) query then 1 else 2 :: nat)
      in map (with_count t) (take limit (sort_key (\<lambda>g. (rank g, - group_updated_at g, - int (unat (group_row_id g))))
           (filter (\<lambda>g. contains_text tm (group_name g) query \<or> (i \<noteq> 0 \<and> group_row_id g = i)) (groups t)))))"

definition searchGroups :: "text_match \<Rightarrow> string \<Rightarrow> nat \<Rightarrow> (Group \<times> nat) list io" where
  "searchGroups tm query limit = do {
     conn \<leftarrow> acquire;
     if \<not> conn \<or> query = [] then return []
     else do {
       r \<leftarrow> executeQuery (sql_searchGroups tm query (max 1 (min limit 50)));
       return (case r of None \<Rightarrow> [] | Some gs \<Rightarrow> gs) } }"

section \<open>What the look-ups return\<close>

lemma wp_getUserById [wp_intros]:
  assumes "\<And>r w'. undisturbed w w' \<Longrightarrow> (\<And>u. r = Some u \<Longrightarrow> u \<in> set (users (db w)) \<and> user_id u = uid) \<Longrightarrow> Q r w'"
  shows "wp (getUserById uid) Q w"
  unfolding getUserById_def by (intro wp_pooled_query assms) (auto dest!: sym [THEN select_one_Some] select_one_Some)

lemma wp_isFriend [wp_intros]:
  assumes "\<And>r w'. undisturbed w w' \<Longrightarrow> (r \<Longrightarrow> friends (db w) a b) \<Longrightarrow> Q r w'"
  shows "wp (isFriend a b) Q w"
  unfolding isFriend_def by (intro wp_pooled_query assms) auto

lemma wp_hasPendingBetween [wp_intros]:
  assumes "\<And>r w'. undisturbed w w' \<Longrightarrow>
     (r \<Longrightarrow> list_ex (\<lambda>q. fr_status q = REQUEST_PENDING \<and> between a b q) (friend_requests (db w))) \<Longrightarrow> Q r w'"
  shows "wp (hasPendingBetween a b) Q w"
  unfolding hasPendingBetween_def by (intro wp_pooled_query assms) auto

lemma wp_getByRequestId [wp_intros]:
  assumes "\<And>r w'. undisturbed w w' \<Longrightarrow> (\<And>q. r = Some q \<Longrightarrow> q \<in> set (friend_requests (db w)) \<and> fr_id q = rid) \<Longrightarrow> Q r w'"
  shows "wp (getByRequestId rid) Q w"
  unfolding getByRequestId_def by (intro wp_pooled_query assms) (auto dest!: sym [THEN select_one_Some] select_one_Some)

lemma wp_getGroupById [wp_intros]:
  assumes "\<And>r w'. undisturbed w w' \<Longrightarrow> (\<And>g n. r = Some (g, n) \<Longrightarrow> g \<in> set (groups (db w)) \<and> group_row_id g = gid) \<Longrightarrow> Q r w'"
  shows "wp (getGroupById gid) Q w"
  unfolding getGroupById_def
  by (intro wp_pooled_query assms) (auto simp: with_count_def dest!: sym [of "Some _"] select_one_Some)

lemma wp_isMember [wp_intros]:
  assumes "\<And>r w'. undisturbed w w' \<Longrightarrow> (r \<Longrightarrow> list_ex (same_member gid uid) (group_members (db w))) \<Longrightarrow> Q r w'"
  shows "wp (isMember gid uid) Q w"
  unfolding isMember_def by (intro wp_pooled_query assms) auto

lemma wp_isOwner [wp_intros]:
  assumes "\<And>r w'. undisturbed w w' \<Longrightarrow>
     (r \<Longrightarrow> list_ex (\<lambda>m. same_member gid uid m \<and> gm_role m = 1) (group_members (db w))) \<Longrightarrow> Q r w'"
  shows "wp (isOwner gid uid) Q w"
  unfolding isOwner_def by (intro wp_pooled_query assms) auto

lemma wp_listMembers [wp_intros]:
  assumes "\<And>r w'. undisturbed w w' \<Longrightarrow> r = [] \<or> r = sql_listMembers gid (db w) \<Longrightarrow> Q r w'"
  shows "wp (listMembers gid) Q w"
  unfolding listMembers_def by (intro wp_pooled_query assms) auto

end
