(* ===== verification/Outbox.thy ===== *)
theory Outbox
  imports Service_World
begin

text \<open>
  The outbox: \<^verbatim>\<open>common/outbox/OutboxDao\<close> and \<^verbatim>\<open>OutboxWorker\<close>. The message service stores an event in the
  transaction that stores the message; workers claim events under a lease, publish them to Kafka and
  mark them. The second half has the workers as a step relation, in which any number of workers and of
  event writers interleave, crash and lose answers.
\<close>

section \<open>The table\<close>

definition PENDING :: int where "PENDING = 0"

definition PUBLISHED :: int where "PUBLISHED = 1"

definition FAILED :: int where "FAILED = 2"

definition DEAD :: int where "DEAD = 3"

definition PUBLISHING :: int where "PUBLISHING = 4"

lemmas outbox_status_defs = PENDING_def PUBLISHED_def FAILED_def DEAD_def PUBLISHING_def

definition sql_insertEvent :: "OutboxEvent \<Rightarrow> tables \<Rightarrow> (nat \<times> tables) option" where
  "sql_insertEvent e t =
     (if list_ex (\<lambda>r. ev_event_id r = ev_event_id e) (outbox_events t) then None
      else Some (1, t\<lparr>outbox_events := outbox_events t @ [e]\<rparr>))"

definition insertEvent :: "OutboxEvent \<Rightarrow> bool io" where
  "insertEvent e = do {
     now \<leftarrow> (if ev_created_at e > 0 then return (ev_created_at e) else nowMs);
     i \<leftarrow> auto_increment outbox_seq (\<lambda>i q. q\<lparr>outbox_seq := i\<rparr>);
     r \<leftarrow> executeUpdate (sql_insertEvent (e\<lparr>ev_id := i, ev_created_at := now,
            ev_updated_at := (if ev_updated_at e > 0 then ev_updated_at e else now), ev_claim_token := []\<rparr>));
     return (ran r) }"

definition claimable :: "int \<Rightarrow> OutboxEvent \<Rightarrow> bool" where
  "claimable now e \<longleftrightarrow> ev_status e \<in> {PENDING, FAILED, PUBLISHING} \<and> ev_next_retry_at e \<le> now"

definition sql_pending :: "(OutboxEvent \<Rightarrow> bool) \<Rightarrow> nat \<Rightarrow> tables \<Rightarrow> OutboxEvent list" where
  "sql_pending P limit t =
     take limit (sort_key (\<lambda>e. (ev_created_at e, ev_id e)) (filter P (outbox_events t)))"

definition fetchPendingEvents :: "nat \<Rightarrow> int \<Rightarrow> OutboxEvent list io" where
  "fetchPendingEvents limit now = pooled [] (do {
     r \<leftarrow> executeQuery (sql_pending (\<lambda>e. ev_status e \<in> {PENDING, FAILED} \<and> ev_next_retry_at e \<le> now) limit);
     return (case r of None \<Rightarrow> [] | Some es \<Rightarrow> es) })"

definition on_event :: "u64 \<Rightarrow> (OutboxEvent \<Rightarrow> OutboxEvent) \<Rightarrow> tables \<Rightarrow> tables" where
  "on_event eid f t = t\<lparr>outbox_events := update_where (\<lambda>e. ev_event_id e = eid) f (outbox_events t)\<rparr>"

definition claim_row :: "string \<Rightarrow> int \<Rightarrow> int \<Rightarrow> OutboxEvent \<Rightarrow> OutboxEvent" where
  "claim_row token lease_until now e = e\<lparr>ev_status := PUBLISHING, ev_next_retry_at := lease_until,
     ev_claim_token := token, ev_updated_at := now\<rparr>"

primrec claim_rows :: "string \<Rightarrow> int \<Rightarrow> int \<Rightarrow> OutboxEvent list \<Rightarrow> OutboxEvent list option io" where
  "claim_rows token lease_until now [] = return (Some [])"
| "claim_rows token lease_until now (e # es) = do {
     ok \<leftarrow> execute (on_event (ev_event_id e) (claim_row token lease_until now));
     if \<not> ok then return None
     else do {
       rest \<leftarrow> claim_rows token lease_until now es;
       return (map_option (\<lambda>r. e\<lparr>ev_claim_token := token\<rparr> # r) rest) } }"

definition claimPendingEvents :: "nat \<Rightarrow> int \<Rightarrow> int \<Rightarrow> OutboxEvent list io" where
  "claimPendingEvents limit now lease_ms = pooled [] (with_tx (\<lambda>active.
     if \<not> active then return []
     else do {
       r \<leftarrow> executeQuery (sql_pending (claimable now) limit);
       let events = (case r of None \<Rightarrow> [] | Some es \<Rightarrow> es);
       let lease_until = now + (if lease_ms > 0 then lease_ms else 30000);
       token \<leftarrow> random_token;
       claimed \<leftarrow> claim_rows token lease_until now events;
       case claimed of None \<Rightarrow> return []
       | Some es \<Rightarrow> do { ok \<leftarrow> commit_tx; return (if ok then es else []) } }))"

definition sql_mark :: "u64 \<Rightarrow> string \<Rightarrow> (OutboxEvent \<Rightarrow> OutboxEvent) \<Rightarrow> tables \<Rightarrow> (nat \<times> tables) option" where
  "sql_mark eid token f t =
     (let P = (\<lambda>e. ev_event_id e = eid \<and> ev_status e = PUBLISHING \<and> ev_claim_token e = token)
      in Some (changed P f (outbox_events t), t\<lparr>outbox_events := update_where P f (outbox_events t)\<rparr>))"

definition mark :: "u64 \<Rightarrow> string \<Rightarrow> (int \<Rightarrow> OutboxEvent \<Rightarrow> OutboxEvent) \<Rightarrow> bool io" where
  "mark eid token f = do {
     conn \<leftarrow> acquire;
     if \<not> conn \<or> token = [] then return False
     else do {
       now \<leftarrow> nowMs;
       r \<leftarrow> executeUpdate (sql_mark eid token (f now));
       return (affected r) } }"

definition published_row :: "int \<Rightarrow> OutboxEvent \<Rightarrow> OutboxEvent" where
  "published_row now e = e\<lparr>ev_status := PUBLISHED, ev_claim_token := [], ev_updated_at := now\<rparr>"

definition failed_row :: "int \<Rightarrow> int \<Rightarrow> int \<Rightarrow> OutboxEvent \<Rightarrow> OutboxEvent" where
  "failed_row retry next now e = e\<lparr>ev_status := FAILED, ev_claim_token := [], ev_retry_count := retry,
     ev_next_retry_at := next, ev_updated_at := now\<rparr>"

definition dead_row :: "int \<Rightarrow> OutboxEvent \<Rightarrow> OutboxEvent" where
  "dead_row now e = e\<lparr>ev_status := DEAD, ev_claim_token := [], ev_updated_at := now\<rparr>"

definition markPublished :: "u64 \<Rightarrow> string \<Rightarrow> bool io" where
  "markPublished eid token = mark eid token published_row"

definition markFailed :: "u64 \<Rightarrow> string \<Rightarrow> int \<Rightarrow> int \<Rightarrow> bool io" where
  "markFailed eid token retry next = mark eid token (failed_row retry next)"

definition markDead :: "u64 \<Rightarrow> string \<Rightarrow> bool io" where
  "markDead eid token = mark eid token dead_row"

section \<open>The worker\<close>

record OutboxWorkerOptions =
  worker_interval_ms :: int
  batch_size :: nat
  max_retry_count :: int
  retry_backoff_ms :: int
  claim_lease_ms :: int
  dlq_topic :: string

definition default_OutboxWorkerOptions :: OutboxWorkerOptions where
  "default_OutboxWorkerOptions = \<lparr>worker_interval_ms = 1000, batch_size = 100, max_retry_count = 5,
     retry_backoff_ms = 1000, claim_lease_ms = 30000, dlq_topic = ''nebula.message.dlq''\<rparr>"

text \<open>What follows a failed publication: the dead letter topic after too many attempts, a later retry
  otherwise.\<close>

definition publish_failed :: "OutboxWorkerOptions \<Rightarrow> OutboxEvent \<Rightarrow> unit io" where
  "publish_failed opts e =
     (let retry = ev_retry_count e + 1 in
      if retry > max_retry_count opts then do {
        dlq_ok \<leftarrow> (if dlq_topic opts = [] then return False
                   else produce (dlq_topic opts) (ev_event_key e) (ev_payload e));
        if dlq_ok then do { _ \<leftarrow> markDead (ev_event_id e) (ev_claim_token e); return () }
        else do {
          now \<leftarrow> nowMs;
          _ \<leftarrow> markFailed (ev_event_id e) (ev_claim_token e) (ev_retry_count e)
                 (now + retry_backoff_ms opts * retry);
          return () } }
      else do {
        now \<leftarrow> nowMs;
        _ \<leftarrow> markFailed (ev_event_id e) (ev_claim_token e) retry (now + retry_backoff_ms opts * retry);
        return () })"

definition publish :: "OutboxWorkerOptions \<Rightarrow> OutboxEvent \<Rightarrow> unit io" where
  "publish opts e = do {
     ok \<leftarrow> produce (ev_topic e) (ev_event_key e) (ev_payload e);
     if ok then do { _ \<leftarrow> markPublished (ev_event_id e) (ev_claim_token e); return () }
     else publish_failed opts e }"

primrec run_batch :: "OutboxWorkerOptions \<Rightarrow> nat \<Rightarrow> unit io" where
  "run_batch opts 0 = return ()"
| "run_batch opts (Suc n) = do {
     now \<leftarrow> nowMs;
     events \<leftarrow> claimPendingEvents 1 now (claim_lease_ms opts);
     case events of [] \<Rightarrow> return ()
     | e # _ \<Rightarrow> do { _ \<leftarrow> publish opts e; run_batch opts n } }"

definition runOnce :: "OutboxWorkerOptions \<Rightarrow> unit io" where
  "runOnce opts = run_batch opts (batch_size opts)"

section \<open>Interleaved workers\<close>

text \<open>Where a worker is in the body of its loop, with the event it claimed: claimed and not yet produced,
  produced, not produced as far as the worker knows, or produced to the dead letter topic.\<close>

datatype worker_phase =
  Idle | Claimed OutboxEvent | Delivered OutboxEvent | Undelivered OutboxEvent | Buried OutboxEvent

fun held :: "worker_phase \<Rightarrow> OutboxEvent option" where
  "held Idle = None"
| "held (Claimed e) = Some e"
| "held (Delivered e) = Some e"
| "held (Undelivered e) = Some e"
| "held (Buried e) = Some e"

record outbox_state =
  rows :: "OutboxEvent list"
  log :: "(string \<times> string \<times> string) list"
  phase :: "nat \<Rightarrow> worker_phase"
  issued :: "string set"

definition claim_state :: "OutboxEvent \<Rightarrow> string \<Rightarrow> int \<Rightarrow> int \<Rightarrow> outbox_state \<Rightarrow> outbox_state" where
  "claim_state e token lease now s = s\<lparr>
     rows := update_where (\<lambda>r. ev_event_id r = ev_event_id e) (claim_row token lease now) (rows s),
     issued := insert token (issued s)\<rparr>"

definition mark_state :: "OutboxEvent \<Rightarrow> (OutboxEvent \<Rightarrow> OutboxEvent) \<Rightarrow> outbox_state \<Rightarrow> outbox_state" where
  "mark_state e f s = s\<lparr>rows := update_where (\<lambda>r. ev_event_id r = ev_event_id e
     \<and> ev_status r = PUBLISHING \<and> ev_claim_token r = ev_claim_token e) f (rows s)\<rparr>"

definition set_phase :: "nat \<Rightarrow> worker_phase \<Rightarrow> outbox_state \<Rightarrow> outbox_state" where
  "set_phase i p s = s\<lparr>phase := (phase s)(i := p)\<rparr>"

definition log_state :: "string \<Rightarrow> OutboxEvent \<Rightarrow> outbox_state \<Rightarrow> outbox_state" where
  "log_state topic e s = s\<lparr>log := log s @ [(topic, ev_event_key e, ev_payload e)]\<rparr>"

inductive outbox_step :: "OutboxWorkerOptions \<Rightarrow> outbox_state \<Rightarrow> outbox_state \<Rightarrow> bool" for opts where
  step_insert: "\<lbrakk>ev_event_id e \<notin> ev_event_id ` set (rows s); ev_status e = PENDING; ev_claim_token e = []\<rbrakk>
     \<Longrightarrow> outbox_step opts s (s\<lparr>rows := rows s @ [e]\<rparr>)"
| step_claim: "\<lbrakk>phase s i = Idle; e \<in> set (rows s); claimable now e; token \<noteq> []; token \<notin> issued s\<rbrakk>
     \<Longrightarrow> outbox_step opts s (set_phase i (Claimed (e\<lparr>ev_claim_token := token\<rparr>)) (claim_state e token lease now s))"
| step_claim_lost: "\<lbrakk>e \<in> set (rows s); claimable now e; token \<noteq> []; token \<notin> issued s\<rbrakk>
     \<Longrightarrow> outbox_step opts s (claim_state e token lease now s)"
| step_token: "outbox_step opts s (s\<lparr>issued := insert token (issued s)\<rparr>)"
| step_produce: "phase s i = Claimed e
     \<Longrightarrow> outbox_step opts s (set_phase i (Delivered e) (log_state (ev_topic e) e s))"
| step_produce_lost: "phase s i = Claimed e
     \<Longrightarrow> outbox_step opts s (set_phase i (Undelivered e) (log_state (ev_topic e) e s))"
| step_produce_fails: "phase s i = Claimed e \<Longrightarrow> outbox_step opts s (set_phase i (Undelivered e) s)"
| step_markPublished: "phase s i = Delivered e
     \<Longrightarrow> outbox_step opts s (set_phase i Idle (mark_state e (published_row now) s))"
| step_bury: "\<lbrakk>phase s i = Undelivered e; ev_retry_count e + 1 > max_retry_count opts; dlq_topic opts \<noteq> []\<rbrakk>
     \<Longrightarrow> outbox_step opts s (set_phase i (Buried e) (log_state (dlq_topic opts) e s))"
| step_bury_lost: "\<lbrakk>phase s i = Undelivered e; ev_retry_count e + 1 > max_retry_count opts; dlq_topic opts \<noteq> []\<rbrakk>
     \<Longrightarrow> outbox_step opts s (log_state (dlq_topic opts) e s)"
| step_markDead: "phase s i = Buried e
     \<Longrightarrow> outbox_step opts s (set_phase i Idle (mark_state e (dead_row now) s))"
| step_markFailed: "phase s i = Undelivered e
     \<Longrightarrow> outbox_step opts s (set_phase i Idle (mark_state e (failed_row retry next now) s))"
| step_crash: "outbox_step opts s (set_phase i Idle s)"

abbreviation outbox_steps :: "OutboxWorkerOptions \<Rightarrow> outbox_state \<Rightarrow> outbox_state \<Rightarrow> bool" where
  "outbox_steps opts \<equiv> (outbox_step opts)\<^sup>*\<^sup>*"

definition outbox_start :: outbox_state where
  "outbox_start = \<lparr>rows = [], log = [], phase = (\<lambda>_. Idle), issued = {}\<rparr>"

section \<open>Invariant of the outbox\<close>

definition same_event :: "OutboxEvent \<Rightarrow> OutboxEvent \<Rightarrow> bool" where
  "same_event r e \<longleftrightarrow> ev_event_id r = ev_event_id e \<and> ev_topic r = ev_topic e
     \<and> ev_event_key r = ev_event_key e \<and> ev_payload r = ev_payload e"

definition logged :: "string \<Rightarrow> OutboxEvent \<Rightarrow> outbox_state \<Rightarrow> bool" where
  "logged topic e s \<longleftrightarrow> (topic, ev_event_key e, ev_payload e) \<in> set (log s)"

definition row_ok :: "OutboxWorkerOptions \<Rightarrow> outbox_state \<Rightarrow> OutboxEvent \<Rightarrow> bool" where
  "row_ok opts s r \<longleftrightarrow> ev_status r \<in> {PENDING, PUBLISHED, FAILED, DEAD, PUBLISHING}
     \<and> (ev_status r = PUBLISHED \<longrightarrow> logged (ev_topic r) r s)
     \<and> (ev_status r = DEAD \<longrightarrow> logged (dlq_topic opts) r s)
     \<and> (ev_status r = PUBLISHING \<longrightarrow> ev_claim_token r \<in> issued s)"

definition phase_ok :: "OutboxWorkerOptions \<Rightarrow> outbox_state \<Rightarrow> worker_phase \<Rightarrow> bool" where
  "phase_ok opts s p \<longleftrightarrow>
     (\<forall>e. held p = Some e \<longrightarrow> ev_claim_token e \<in> issued s \<and> ev_claim_token e \<noteq> [] \<and> (\<exists>r \<in> set (rows s). same_event r e))
     \<and> (\<forall>e. p = Delivered e \<longrightarrow> logged (ev_topic e) e s)
     \<and> (\<forall>e. p = Buried e \<longrightarrow> logged (dlq_topic opts) e s)"

definition tokens_exclusive :: "outbox_state \<Rightarrow> bool" where
  "tokens_exclusive s \<longleftrightarrow> (\<forall>i j e e'. held (phase s i) = Some e \<longrightarrow> held (phase s j) = Some e'
     \<longrightarrow> ev_claim_token e = ev_claim_token e' \<longrightarrow> i = j)"

definition outbox_inv :: "OutboxWorkerOptions \<Rightarrow> outbox_state \<Rightarrow> bool" where
  "outbox_inv opts s \<longleftrightarrow> distinct (map ev_event_id (rows s)) \<and> (\<forall>r \<in> set (rows s). row_ok opts s r)
     \<and> (\<forall>i. phase_ok opts s (phase s i)) \<and> tokens_exclusive s \<and> finite (issued s)"

lemma row_edits [simp]:
  "ev_event_id (claim_row token lease now e) = ev_event_id e" "ev_event_id (published_row now e) = ev_event_id e"
  "ev_event_id (failed_row retry next now e) = ev_event_id e" "ev_event_id (dead_row now e) = ev_event_id e"
  "same_event (claim_row token lease now e) = same_event e" "same_event (published_row now e) = same_event e"
  "same_event (failed_row retry next now e) = same_event e" "same_event (dead_row now e) = same_event e"
  "logged topic (claim_row token lease now e) = logged topic e" "logged topic (published_row now e) = logged topic e"
  "logged topic (failed_row retry next now e) = logged topic e" "logged topic (dead_row now e) = logged topic e"
  by (auto simp: claim_row_def published_row_def failed_row_def dead_row_def same_event_def logged_def fun_eq_iff)

lemma row_edit_values [simp]:
  "ev_status (claim_row token lease now e) = PUBLISHING" "ev_status (published_row now e) = PUBLISHED"
  "ev_status (failed_row retry next now e) = FAILED" "ev_status (dead_row now e) = DEAD"
  "ev_claim_token (claim_row token lease now e) = token"
  "ev_topic (published_row now e) = ev_topic e" "ev_topic (claim_row token lease now e) = ev_topic e"
  "ev_event_key (claim_row token lease now e) = ev_event_key e" "ev_payload (claim_row token lease now e) = ev_payload e"
  by (simp_all add: claim_row_def published_row_def failed_row_def dead_row_def)

lemma outbox_state_simps [simp]:
  "rows (set_phase i p s) = rows s" "log (set_phase i p s) = log s" "issued (set_phase i p s) = issued s"
  "phase (set_phase i p s) = (phase s)(i := p)"
  "rows (log_state topic e s) = rows s" "issued (log_state topic e s) = issued s" "phase (log_state topic e s) = phase s"
  "log (log_state topic e s) = log s @ [(topic, ev_event_key e, ev_payload e)]"
  "log (mark_state e f s) = log s" "issued (mark_state e f s) = issued s" "phase (mark_state e f s) = phase s"
  "log (claim_state e token lease now s) = log s" "phase (claim_state e token lease now s) = phase s"
  "issued (claim_state e token lease now s) = insert token (issued s)"
  by (simp_all add: set_phase_def log_state_def mark_state_def claim_state_def)

lemma logged_log_state [simp]: "logged topic' e' (log_state topic e s) \<longleftrightarrow>
    logged topic' e' s \<or> (topic' = topic \<and> ev_event_key e' = ev_event_key e \<and> ev_payload e' = ev_payload e)"
  by (auto simp: logged_def)

lemma logged_same [simp]:
  "logged t e (set_phase i p s) = logged t e s" "logged t e (mark_state e' f s) = logged t e s"
  "logged t e (claim_state e' token lease now s) = logged t e s" "logged t e (s\<lparr>rows := rs\<rparr>) = logged t e s"
  "logged t e (s\<lparr>issued := ts\<rparr>) = logged t e s"
  by (simp_all add: logged_def)

lemma inv_same_event:
  assumes "outbox_inv opts s" and "held (phase s i) = Some e" and "r \<in> set (rows s)" and "ev_event_id r = ev_event_id e"
  shows "same_event r e"
proof -
  obtain r' where "r' \<in> set (rows s)" "same_event r' e"
    using assms(1,2) unfolding outbox_inv_def phase_ok_def by blast
  moreover then have "r' = r"
    using assms by (metis outbox_inv_def distinct_map inj_onD same_event_def)
  ultimately show ?thesis by simp
qed

lemma inv_log_state: "outbox_inv opts s \<Longrightarrow> outbox_inv opts (log_state topic e s)"
  by (auto simp: outbox_inv_def row_ok_def phase_ok_def tokens_exclusive_def)

lemma inv_set_phase:
  assumes "outbox_inv opts s" and "phase_ok opts s p" and "held p = None \<or> held p = held (phase s i)"
  shows "outbox_inv opts (set_phase i p s)"
proof -
  have "held (phase s j) = Some e" if "held (((phase s)(i := p)) j) = Some e" for j e
    using assms(3) that by (cases "j = i") auto
  then have "tokens_exclusive (set_phase i p s)"
    using assms(1) unfolding outbox_inv_def tokens_exclusive_def outbox_state_simps by blast
  then show ?thesis
    using assms(1,2) by (auto simp: outbox_inv_def row_ok_def phase_ok_def)
qed

lemma inv_claim_state:
  assumes "outbox_inv opts s"
  shows "outbox_inv opts (claim_state e token lease now s)"
proof -
  let ?s = "claim_state e token lease now s"
  have "distinct (map ev_event_id (rows ?s))"
    using assms by (simp add: outbox_inv_def claim_state_def map_update_where_key)
  moreover have "\<forall>r \<in> set (rows ?s). row_ok opts ?s r"
    using assms unfolding claim_state_def
    by (simp add: Ball_update_where) (auto simp: outbox_inv_def row_ok_def outbox_status_defs)
  moreover have "\<exists>r' \<in> set (rows ?s). same_event r' x" if "r \<in> set (rows s)" "same_event r x" for r x
    using that by (auto simp: claim_state_def Bex_update_where intro!: bexI [of _ r])
  ultimately show ?thesis
    using assms by (auto simp: outbox_inv_def phase_ok_def tokens_exclusive_def) blast
qed

lemma inv_claim_phase:
  assumes "outbox_inv opts s" and "e \<in> set (rows s)" and "token \<noteq> []" and "token \<notin> issued s"
  shows "outbox_inv opts (set_phase i (Claimed (e\<lparr>ev_claim_token := token\<rparr>)) (claim_state e token lease now s))"
proof -
  let ?s = "claim_state e token lease now s" and ?p = "Claimed (e\<lparr>ev_claim_token := token\<rparr>)"
  have "\<exists>r \<in> set (rows ?s). same_event r (e\<lparr>ev_claim_token := token\<rparr>)"
    using assms(2) by (auto simp: claim_state_def Bex_update_where same_event_def intro!: bexI [of _ e])
  then have "phase_ok opts ?s ?p"
    using assms(3) by (simp add: phase_ok_def)
  moreover have "ev_claim_token x \<noteq> token" if "held (phase s j) = Some x" for j x
    using assms(1,4) that by (auto simp: outbox_inv_def phase_ok_def)
  ultimately show ?thesis
    using inv_claim_state [OF assms(1), of e token lease now]
    by (auto simp: outbox_inv_def row_ok_def phase_ok_def tokens_exclusive_def)
qed

lemma inv_mark_state:
  assumes "outbox_inv opts s"
    and "\<And>r. ev_event_id (f r) = ev_event_id r" and "\<And>r. same_event (f r) = same_event r"
    and "\<And>r. r \<in> set (rows s) \<Longrightarrow> ev_event_id r = ev_event_id e \<Longrightarrow> row_ok opts s (f r)"
  shows "outbox_inv opts (mark_state e f s)"
proof -
  have "row_ok opts (mark_state e f s) = row_ok opts s"
    by (simp add: row_ok_def fun_eq_iff)
  then have "\<forall>r \<in> set (rows (mark_state e f s)). row_ok opts (mark_state e f s) r"
    using assms(1,4) by (simp add: mark_state_def Ball_update_where outbox_inv_def)
  moreover have "distinct (map ev_event_id (rows (mark_state e f s)))"
    using assms(1,2) by (simp add: mark_state_def map_update_where_key outbox_inv_def)
  moreover have "\<exists>r' \<in> set (rows (mark_state e f s)). same_event r' x" if "r \<in> set (rows s)" "same_event r x" for r x
    using that assms(3) by (auto simp: mark_state_def Bex_update_where intro!: bexI [of _ r])
  ultimately show ?thesis
    using assms(1) by (auto simp: outbox_inv_def phase_ok_def tokens_exclusive_def) blast
qed

lemma outbox_inv_start: "outbox_inv opts outbox_start"
  by (simp add: outbox_inv_def outbox_start_def phase_ok_def tokens_exclusive_def)

lemma outbox_inv_step:
  assumes "outbox_step opts s s'" and "outbox_inv opts s"
  shows "outbox_inv opts s'"
  using assms
proof (cases rule: outbox_step.cases)
  case (step_insert e)
  then show ?thesis
    using assms(2) by (fastforce simp: outbox_inv_def row_ok_def phase_ok_def tokens_exclusive_def outbox_status_defs)
next
  case (step_claim i e now token lease)
  then show ?thesis using inv_claim_phase [OF assms(2)] by simp
next
  case (step_token token)
  then show ?thesis using assms(2) by (auto simp: outbox_inv_def row_ok_def phase_ok_def tokens_exclusive_def)
next
  case (step_markPublished i e now)
  then have "logged (ev_topic e) e s" using assms(2) by (auto simp: outbox_inv_def phase_ok_def)
  then have "row_ok opts s (published_row now r)" if "r \<in> set (rows s)" "ev_event_id r = ev_event_id e" for r
    using inv_same_event [OF assms(2) _ that, of i] step_markPublished(2)
    by (auto simp: row_ok_def outbox_status_defs same_event_def logged_def)
  then show ?thesis
    using step_markPublished by (auto intro!: inv_set_phase inv_mark_state assms(2) simp: phase_ok_def)
next
  case (step_markDead i e now)
  then have "logged (dlq_topic opts) e s" using assms(2) by (auto simp: outbox_inv_def phase_ok_def)
  then have "row_ok opts s (dead_row now r)" if "r \<in> set (rows s)" "ev_event_id r = ev_event_id e" for r
    using inv_same_event [OF assms(2) _ that, of i] step_markDead(2)
    by (auto simp: row_ok_def outbox_status_defs same_event_def logged_def)
  then show ?thesis
    using step_markDead by (auto intro!: inv_set_phase inv_mark_state assms(2) simp: phase_ok_def)
next
  case (step_markFailed i e retry "next" now)
  then show ?thesis
    by (auto intro!: inv_set_phase inv_mark_state assms(2) simp: phase_ok_def row_ok_def outbox_status_defs)
next
  case (step_produce i e)
  then have "phase_ok opts s (Claimed e)" using assms(2) by (metis outbox_inv_def)
  with step_produce show ?thesis
    by (auto intro!: inv_set_phase inv_log_state assms(2) simp: phase_ok_def logged_def)
next
  case (step_produce_lost i e)
  then have "phase_ok opts s (Claimed e)" using assms(2) by (metis outbox_inv_def)
  with step_produce_lost show ?thesis
    by (auto intro!: inv_set_phase inv_log_state assms(2) simp: phase_ok_def)
next
  case (step_produce_fails i e)
  then have "phase_ok opts s (Claimed e)" using assms(2) by (metis outbox_inv_def)
  with step_produce_fails show ?thesis
    by (auto intro!: inv_set_phase assms(2) simp: phase_ok_def)
next
  case (step_bury i e)
  then have "phase_ok opts s (Undelivered e)" using assms(2) by (metis outbox_inv_def)
  with step_bury show ?thesis
    by (auto intro!: inv_set_phase inv_log_state assms(2) simp: phase_ok_def logged_def)
qed (auto intro!: inv_claim_state inv_log_state inv_set_phase simp: phase_ok_def)

lemma outbox_inv_steps: "outbox_steps opts s s' \<Longrightarrow> outbox_inv opts s \<Longrightarrow> outbox_inv opts s'"
  by (induction rule: rtranclp_induct) (auto intro: outbox_inv_step)

section \<open>What the outbox guarantees\<close>

lemma same_event_refl [simp]: "same_event e e"
  by (simp add: same_event_def)

lemma same_event_trans: "same_event a b \<Longrightarrow> same_event b c \<Longrightarrow> same_event a c"
  by (simp add: same_event_def)

definition final :: "int \<Rightarrow> bool" where
  "final st \<longleftrightarrow> st = PUBLISHED \<or> st = DEAD"

lemma rows_claim_state: "rows (claim_state e token lease now s)
    = update_where (\<lambda>r. ev_event_id r = ev_event_id e) (claim_row token lease now) (rows s)"
  by (simp add: claim_state_def)

lemma rows_mark_state: "rows (mark_state e f s) = update_where (\<lambda>r. ev_event_id r = ev_event_id e
    \<and> ev_status r = PUBLISHING \<and> ev_claim_token r = ev_claim_token e) f (rows s)"
  by (simp add: mark_state_def)

lemma kept_by_update:
  assumes "r \<in> set rs" and "P r \<Longrightarrow> same_event (f r) r \<and> (final (ev_status r) \<longrightarrow> ev_status (f r) = ev_status r)"
  shows "\<exists>r' \<in> set (update_where P f rs). same_event r' r \<and> (final (ev_status r) \<longrightarrow> ev_status r' = ev_status r)"
  using assms by (auto simp: Bex_update_where intro!: bexI [of _ r])

lemma step_keeps_event:
  assumes "outbox_step opts s s'" and "outbox_inv opts s" and "r \<in> set (rows s)"
  shows "\<exists>r' \<in> set (rows s'). same_event r' r \<and> (final (ev_status r) \<longrightarrow> ev_status r' = ev_status r)"
proof -
  have claim: "\<exists>r' \<in> set (rows (claim_state e token lease now s)). same_event r' r
        \<and> (final (ev_status r) \<longrightarrow> ev_status r' = ev_status r)"
    if "e \<in> set (rows s)" "claimable now e" for e token lease now
  proof -
    have "r = e" if "ev_event_id r = ev_event_id e"
      using assms(2,3) that \<open>e \<in> set (rows s)\<close> by (metis outbox_inv_def distinct_map inj_onD)
    then show ?thesis
      using \<open>claimable now e\<close> unfolding rows_claim_state
      by (intro kept_by_update [OF assms(3)]) (auto simp: claimable_def final_def outbox_status_defs)
  qed
  have mark: "\<exists>r' \<in> set (rows (mark_state e f s)). same_event r' r \<and> (final (ev_status r) \<longrightarrow> ev_status r' = ev_status r)"
    if "\<And>x. same_event (f x) = same_event x" for e f
    unfolding rows_mark_state
    by (rule kept_by_update [OF assms(3)]) (auto simp: that final_def outbox_status_defs)
  have same: "\<exists>r' \<in> set (rows s). same_event r' r \<and> (final (ev_status r) \<longrightarrow> ev_status r' = ev_status r)"
    using assms(3) by (intro bexI [of _ r]) simp_all
  from assms(1) show ?thesis
  proof cases
    case (step_insert e)
    then show ?thesis using same by auto
  qed (simp_all add: claim mark same)
qed

lemma steps_keep_event:
  assumes "outbox_steps opts s s'" and "outbox_inv opts s" and "r \<in> set (rows s)"
  shows "\<exists>r' \<in> set (rows s'). same_event r' r \<and> (final (ev_status r) \<longrightarrow> ev_status r' = ev_status r)"
  using assms
proof (induction rule: rtranclp_induct)
  case (step t u)
  then obtain r1 where "r1 \<in> set (rows t)" "same_event r1 r" "final (ev_status r) \<longrightarrow> ev_status r1 = ev_status r"
    by blast
  with step_keeps_event [OF step.hyps(2) outbox_inv_steps [OF step.hyps(1) step.prems(1)]]
  show ?case by (metis same_event_trans)
next
  case base
  then show ?case by (intro bexI [of _ r]) simp_all
qed

definition event_example :: OutboxEvent where
  "event_example = \<lparr>ev_id = 1, ev_event_id = 7, ev_aggregate_type = ''message'', ev_aggregate_id = 7,
     ev_topic = ''t'', ev_event_key = ''k'', ev_payload = ''p'', ev_status = PENDING, ev_retry_count = 0,
     ev_next_retry_at = 0, ev_created_at = 1, ev_updated_at = 1, ev_trace_id = [], ev_claim_token = []\<rparr>"

definition stored_example :: outbox_state where
  "stored_example = outbox_start\<lparr>rows := [event_example]\<rparr>"

definition claimed_example :: outbox_state where
  "claimed_example = set_phase 0 (Claimed (event_example\<lparr>ev_claim_token := ''x''\<rparr>))
     (claim_state event_example ''x'' 9 5 stored_example)"

lemma stored_example_reachable: "outbox_steps opts outbox_start stored_example"
proof (rule r_into_rtranclp)
  have "outbox_step opts outbox_start (outbox_start\<lparr>rows := rows outbox_start @ [event_example]\<rparr>)"
    by (rule step_insert) (simp_all add: outbox_start_def event_example_def)
  then show "outbox_step opts outbox_start stored_example"
    by (simp add: stored_example_def outbox_start_def)
qed

lemma claimed_example_step: "outbox_step opts stored_example claimed_example"
  unfolding claimed_example_def
  by (rule step_claim) (simp_all add: stored_example_def outbox_start_def event_example_def claimable_def)

text \<open>
  C33. No event is ever lost: however workers interleave, crash, lose their leases or the answers of
  Kafka and MySQL, an event in the outbox stays there with its contents; it is marked published only
  when its record is in the log of its topic, marked dead only when it is in the log of the dead
  letter topic, and otherwise it remains claimable. Both marks are final.
\<close>

theorem outbox_event_never_lost:
  assumes "outbox_steps opts outbox_start s" and "outbox_steps opts s s'" and "r \<in> set (rows s)"
  shows "\<exists>r' \<in> set (rows s'). same_event r' r
     \<and> (ev_status r' = PUBLISHED \<and> logged (ev_topic r) r s'
        \<or> ev_status r' = DEAD \<and> logged (dlq_topic opts) r s'
        \<or> (\<exists>now. claimable now r'))
     \<and> (ev_status r \<in> {PUBLISHED, DEAD} \<longrightarrow> ev_status r' = ev_status r)"
proof -
  have inv: "outbox_inv opts s" by (rule outbox_inv_steps [OF assms(1) outbox_inv_start])
  obtain r' where r': "r' \<in> set (rows s')" "same_event r' r" "final (ev_status r) \<longrightarrow> ev_status r' = ev_status r"
    using steps_keep_event [OF assms(2) inv assms(3)] by blast
  have ok: "row_ok opts s' r'"
    using outbox_inv_steps [OF assms(2) inv] r'(1) by (simp add: outbox_inv_def)
  have lg: "logged topic r' s' = logged topic r s'" for topic
    using r'(2) by (simp add: logged_def same_event_def)
  have "(\<exists>now. claimable now r') \<or> ev_status r' = PUBLISHED \<or> ev_status r' = DEAD"
    using ok by (auto simp: row_ok_def claimable_def)
  with ok r' lg show ?thesis
    by (intro bexI [of _ r']) (auto simp: row_ok_def final_def same_event_def)
qed

theorem outbox_event_never_lost_witness:
  "\<exists>r' \<in> set (rows claimed_example). same_event r' event_example \<and> (\<exists>now. claimable now r')"
proof -
  have r: "ev_status r' \<noteq> PUBLISHED \<and> ev_status r' \<noteq> DEAD" if "r' \<in> set (rows claimed_example)" for r'
    using that by (auto simp: claimed_example_def rows_claim_state stored_example_def outbox_start_def outbox_status_defs)
  have "event_example \<in> set (rows stored_example)"
    by (simp add: stored_example_def)
  then show ?thesis
    using outbox_event_never_lost [OF stored_example_reachable r_into_rtranclp [of "outbox_step default_OutboxWorkerOptions",
        OF claimed_example_step], of event_example] r by blast
qed



lemma fresh_token: "finite ts \<Longrightarrow> \<exists>token. token \<noteq> [] \<and> (token :: string) \<notin> ts"
  using ex_new_if_finite [OF infinite_UNIV_listI, of "insert [] ts"] by auto



section \<open>The worker's code refines the step relation\<close>

text \<open>The outbox state a world shows, given the phases of the workers and the issued tokens.\<close>

definition view :: "(nat \<Rightarrow> worker_phase) \<Rightarrow> string set \<Rightarrow> world \<Rightarrow> outbox_state" where
  "view ph iss w = \<lparr>rows = outbox_events (db w), log = kafka w, phase = ph, issued = iss\<rparr>"

text \<open>The random tokens still to come are new, as those of \<^verbatim>\<open>TraceId::generate\<close> are.\<close>

definition supplied :: "nat \<Rightarrow> string set \<Rightarrow> world \<Rightarrow> bool" where
  "supplied n iss w \<longleftrightarrow> n \<le> length (random w) \<and> distinct (random w) \<and> [] \<notin> set (random w) \<and> set (random w) \<inter> iss = {}"

definition simulated :: "OutboxWorkerOptions \<Rightarrow> outbox_state \<Rightarrow> nat \<Rightarrow> (nat \<Rightarrow> worker_phase) \<Rightarrow> world \<Rightarrow> bool" where
  "simulated opts s n ph w \<longleftrightarrow> tx w = None \<and> (\<exists>iss. outbox_steps opts s (view ph iss w) \<and> supplied n iss w)"

lemma simulated_inputs [simp]:
  "simulated opts s n ph (w\<lparr>script := x\<rparr>) = simulated opts s n ph w"
  "simulated opts s n ph (w\<lparr>clock := c\<rparr>) = simulated opts s n ph w"
  by (simp_all add: simulated_def view_def supplied_def)

lemma simulated_tx [simp]: "tx w = None \<Longrightarrow> simulated opts s n ph (w\<lparr>tx := None\<rparr>) = simulated opts s n ph w"
  by (simp add: simulated_def view_def supplied_def)

lemma view_set_phase [simp]: "set_phase i p (view ph iss w) = view (ph(i := p)) iss w"
  by (simp add: set_phase_def view_def)

lemma view_phase [simp]: "phase (view ph iss w) = ph"
  by (simp add: view_def)

lemma simulated_step:
  assumes "simulated opts s n ph w" and "tx w' = tx w" and "random w' = random w"
    and "\<And>iss. outbox_step opts (view ph iss w) (view ph' iss w')"
  shows "simulated opts s n ph' w'"
  using assms unfolding simulated_def supplied_def by (metis rtranclp.rtrancl_into_rtrancl)

lemma simulated_token:
  assumes "simulated opts s (Suc n) ph w"
  obtains token more where "random w = token # more" "token \<noteq> []" "simulated opts s n ph (w\<lparr>random := more\<rparr>)"
    "\<And>e now lease. \<lbrakk>e \<in> set (outbox_events (db w)); claimable now e\<rbrakk> \<Longrightarrow>
       simulated opts s n ph (w\<lparr>random := more, db := on_event (ev_event_id e) (claim_row token lease now) (db w)\<rparr>)"
    "\<And>i e now lease. \<lbrakk>ph i = Idle; e \<in> set (outbox_events (db w)); claimable now e\<rbrakk> \<Longrightarrow>
       simulated opts s n (ph(i := Claimed (e\<lparr>ev_claim_token := token\<rparr>)))
         (w\<lparr>random := more, db := on_event (ev_event_id e) (claim_row token lease now) (db w)\<rparr>)"
proof -
  obtain iss token more where s: "outbox_steps opts s (view ph iss w)" and r: "random w = token # more"
    and f: "supplied (Suc n) iss w" and t: "tx w = None"
    using assms by (cases "random w") (auto simp: simulated_def supplied_def)
  have f': "supplied n (insert token iss) (w\<lparr>random := more, db := d\<rparr>)" "token \<noteq> []" "token \<notin> iss" for d
    using f r by (auto simp: supplied_def)
  let ?w = "\<lambda>e lease now. w\<lparr>random := more, db := on_event (ev_event_id e) (claim_row token lease now) (db w)\<rparr>"
  have st: "claim_state e token lease now (view ph iss w) = view ph (insert token iss) (?w e lease now)" for e lease now
    by (simp add: claim_state_def view_def on_event_def)
  show thesis
  proof
    show "simulated opts s n ph (w\<lparr>random := more\<rparr>)"
      using s f r t by (auto simp: simulated_def supplied_def view_def)
    show "simulated opts s n ph (?w e lease now)" if "e \<in> set (outbox_events (db w))" "claimable now e" for e now lease
    proof -
      have "outbox_step opts (view ph iss w) (claim_state e token lease now (view ph iss w))"
        by (rule step_claim_lost) (use that f'(2,3) in \<open>simp_all add: view_def\<close>)
      with s have "outbox_steps opts s (view ph (insert token iss) (?w e lease now))"
        unfolding st by (rule rtranclp.rtrancl_into_rtrancl)
      with f'(1) t show ?thesis unfolding simulated_def by auto
    qed
    show "simulated opts s n (ph(i := Claimed (e\<lparr>ev_claim_token := token\<rparr>))) (?w e lease now)"
      if "ph i = Idle" "e \<in> set (outbox_events (db w))" "claimable now e" for i e now lease
    proof -
      have "outbox_step opts (view ph iss w) (set_phase i (Claimed (e\<lparr>ev_claim_token := token\<rparr>))
          (claim_state e token lease now (view ph iss w)))"
        by (rule step_claim) (use that f'(2,3) in \<open>simp_all add: view_def\<close>)
      with s have "outbox_steps opts s (set_phase i (Claimed (e\<lparr>ev_claim_token := token\<rparr>))
          (view ph (insert token iss) (?w e lease now)))"
        unfolding st by (rule rtranclp.rtrancl_into_rtrancl)
      then show ?thesis using f'(1) t unfolding simulated_def by auto
    qed
  qed (use r f' in auto)
qed

lemma wp_random_token_exact: "random w = x # xs \<Longrightarrow> Q x (w\<lparr>random := xs\<rparr>) \<Longrightarrow> wp random_token Q w"
  by (simp add: random_token_def pop_def wp_def)

lemma sql_pending_one:
  "sql_pending P 1 t = [] \<or> (\<exists>e. sql_pending P 1 t = [e] \<and> e \<in> set (outbox_events t) \<and> P e)"
proof (cases "sort_key (\<lambda>e. (ev_created_at e, ev_id e)) (filter P (outbox_events t))")
  case (Cons e es)
  then have "e \<in> set (filter P (outbox_events t))"
    by (metis list.set_intros(1) set_sort)
  with Cons show ?thesis by (auto simp: sql_pending_def)
qed (simp add: sql_pending_def)

lemma wp_claimPendingEvents:
  assumes "simulated opts s (Suc n) ph w" and "ph i = Idle"
  shows "wp (claimPendingEvents 1 now lease) (\<lambda>es w'. case es of [] \<Rightarrow> simulated opts s n ph w'
           | e # _ \<Rightarrow> simulated opts s n (ph(i := Claimed e)) w') w"
proof -
  from simulated_token [OF assms(1)] obtain token more where
    t: "random w = token # more" "token \<noteq> []"
    and none: "simulated opts s n ph (w\<lparr>random := more\<rparr>)"
    and lost: "\<And>e now lease. \<lbrakk>e \<in> set (outbox_events (db w)); claimable now e\<rbrakk> \<Longrightarrow>
       simulated opts s n ph (w\<lparr>random := more, db := on_event (ev_event_id e) (claim_row token lease now) (db w)\<rparr>)"
    and taken: "\<And>e now lease. \<lbrakk>e \<in> set (outbox_events (db w)); claimable now e\<rbrakk> \<Longrightarrow>
       simulated opts s n (ph(i := Claimed (e\<lparr>ev_claim_token := token\<rparr>)))
         (w\<lparr>random := more, db := on_event (ev_event_id e) (claim_row token lease now) (db w)\<rparr>)"
    using assms(2) by metis
  have x: "tx w = None" using assms(1) by (simp add: simulated_def)
  have same: "simulated opts s n ph w" "simulated opts s n ph (w\<lparr>db := db w, tx := None\<rparr>)"
    using assms(1) x by (auto simp: simulated_def supplied_def view_def)
  show ?thesis
    unfolding claimPendingEvents_def
    apply (rule wp_pooled, rule wp_with_tx)
    subgoal
      apply (simp split del: if_split)
      apply (rule wp_bind, rule wp_executeQuery; (rule wp_bind, rule wp_random_token_exact, simp add: t))
      using sql_pending_one [of "claimable now" "db w"] apply (auto intro!: wp_intros simp: none lost taken x)[1]
      apply (auto intro!: wp_intros simp: none x)
      done
    using same x by (auto intro!: wp_intros)
qed

lemma wp_mark:
  assumes "simulated opts s n ph w" and "ph i = p" and "ev_claim_token e \<noteq> []"
    and "\<And>now st. phase st i = p \<Longrightarrow> outbox_step opts st (set_phase i Idle (mark_state e (f now) st))"
  shows "wp (mark (ev_event_id e) (ev_claim_token e) f) (\<lambda>_ w'. simulated opts s n (ph(i := Idle)) w') w"
proof -
  have crash: "simulated opts s n (ph(i := Idle)) w"
    by (rule simulated_step [OF assms(1)]) (use step_crash [of opts "view ph _ w" i] in simp_all)
  have marked: "simulated opts s n (ph(i := Idle)) (w\<lparr>clock := c, script := z, db := t\<rparr>)"
    if "sql_mark (ev_event_id e) (ev_claim_token e) (f now) (db w) = Some (k, t)" for now k t c z
  proof (rule simulated_step [OF assms(1)])
    fix iss
    have "mark_state e (f now) (view ph iss w) = view ph iss (w\<lparr>clock := c, script := z, db := t\<rparr>)"
      using that by (auto simp: sql_mark_def Let_def view_def mark_state_def)
    then show "outbox_step opts (view ph iss w) (view (ph(i := Idle)) iss (w\<lparr>clock := c, script := z, db := t\<rparr>))"
      using assms(4) [of "view ph iss w" now] assms(2) by simp
  qed simp_all
  show ?thesis
    unfolding mark_def by (auto intro!: wp_intros simp: crash marked)
qed

lemma wp_produce_phase:
  assumes "simulated opts s n ph w"
    and "\<And>st. phase st i = ph i \<Longrightarrow> outbox_step opts st (set_phase i p1 (log_state topic e st))"
    and "\<And>st. phase st i = ph i \<Longrightarrow> outbox_step opts st (set_phase i p2 (log_state topic e st))"
    and "simulated opts s n (ph(i := p2)) w"
  shows "wp (produce topic (ev_event_key e) (ev_payload e))
     (\<lambda>ok w'. simulated opts s n (ph(i := if ok then p1 else p2)) w') w"
proof -
  have "simulated opts s n (ph(i := p)) (w\<lparr>script := z, kafka := kafka w @ [(topic, ev_event_key e, ev_payload e)]\<rparr>)"
    if "\<And>st. phase st i = ph i \<Longrightarrow> outbox_step opts st (set_phase i p (log_state topic e st))" for p z
  proof (rule simulated_step [OF assms(1)])
    fix iss
    have "log_state topic e (view ph iss w) = view ph iss (w\<lparr>script := z,
        kafka := kafka w @ [(topic, ev_event_key e, ev_payload e)]\<rparr>)"
      by (simp add: log_state_def view_def)
    then show "outbox_step opts (view ph iss w) (view (ph(i := p)) iss (w\<lparr>script := z,
        kafka := kafka w @ [(topic, ev_event_key e, ev_payload e)]\<rparr>))"
      using that [of "view ph iss w"] by simp
  qed simp_all
  then show ?thesis using assms(2-4) by (auto intro!: wp_intros)
qed

lemma wp_publish_failed:
  assumes "simulated opts s n ph w" and "ph i = Undelivered e" and "ev_claim_token e \<noteq> []"
  shows "wp (publish_failed opts e) (\<lambda>_ w'. simulated opts s n (ph(i := Idle)) w') w"
proof -
  have failed: "wp (markFailed (ev_event_id e) (ev_claim_token e) retry next) Q w'"
    if "simulated opts s n ph w'" "\<And>r w''. simulated opts s n (ph(i := Idle)) w'' \<Longrightarrow> Q r w''" for retry "next" w' Q
    unfolding markFailed_def
    by (rule wp_mono, rule wp_mark [OF that(1) assms(2,3)], erule step_markFailed, erule that(2))
  have dead: "wp (markDead (ev_event_id e) (ev_claim_token e)) Q w'"
    if "simulated opts s n (ph(i := Buried e)) w'" "\<And>r w''. simulated opts s n (ph(i := Idle)) w'' \<Longrightarrow> Q r w''" for w' Q
    unfolding markDead_def
    by (rule wp_mono, rule wp_mark [OF that(1) _ assms(3), of i], rule fun_upd_same,
        erule step_markDead, rule that(2), simp)
  have bury: "wp (produce (dlq_topic opts) (ev_event_key e) (ev_payload e))
      (\<lambda>ok w'. simulated opts s n (ph(i := if ok then Buried e else Undelivered e)) w') w"
    if "ev_retry_count e + 1 > max_retry_count opts" "dlq_topic opts \<noteq> []"
  proof (rule wp_produce_phase [OF assms(1)])
    show "outbox_step opts st (set_phase i (Undelivered e) (log_state (dlq_topic opts) e st))" if "phase st i = ph i" for st
    proof -
      have "set_phase i (Undelivered e) (log_state (dlq_topic opts) e st) = log_state (dlq_topic opts) e st"
        using that assms(2) by (cases st) (simp add: set_phase_def log_state_def fun_upd_idem)
      then show ?thesis using step_bury_lost [of st i e opts] that assms(2) \<open>dlq_topic opts \<noteq> []\<close>
          \<open>ev_retry_count e + 1 > max_retry_count opts\<close> by simp
    qed
  qed (use that assms in \<open>auto intro: step_bury simp: fun_upd_idem\<close>)
  have idem: "ph(i := Undelivered e) = ph" using assms(2) by (simp add: fun_upd_idem)
  show ?thesis
    unfolding publish_failed_def Let_def
    apply (rule wp_if)
    subgoal
      apply (rule wp_bind, rule wp_if)
       apply (auto intro!: wp_intros failed simp: assms(1))[1]
      apply (rule wp_mono [OF bury])
      by (auto intro!: wp_intros failed dead simp: idem split: if_splits)
    by (auto intro!: wp_intros failed simp: assms(1))
qed

lemma wp_publish:
  assumes "simulated opts s n ph w" and "ph i = Claimed e" and "ev_claim_token e \<noteq> []"
  shows "wp (publish opts e) (\<lambda>_ w'. simulated opts s n (ph(i := Idle)) w') w"
proof -
  have published: "wp (markPublished (ev_event_id e) (ev_claim_token e)) Q w'"
    if "simulated opts s n (ph(i := Delivered e)) w'" "\<And>r w''. simulated opts s n (ph(i := Idle)) w'' \<Longrightarrow> Q r w''" for w' Q
    unfolding markPublished_def
    by (rule wp_mono, rule wp_mark [OF that(1) _ assms(3), of i], rule fun_upd_same,
        erule step_markPublished, rule that(2), simp)
  have failed: "wp (publish_failed opts e) (\<lambda>_. simulated opts s n (ph(i := Idle))) w'"
    if "simulated opts s n (ph(i := Undelivered e)) w'" for w'
    using wp_publish_failed [OF that _ assms(3), of i] by simp
  have und: "simulated opts s n (ph(i := Undelivered e)) w"
    by (rule simulated_step [OF assms(1)]) (use step_produce_fails [of "view ph _ w" i e opts] assms(2) in simp_all)
  have "wp (produce (ev_topic e) (ev_event_key e) (ev_payload e))
      (\<lambda>ok w'. simulated opts s n (ph(i := if ok then Delivered e else Undelivered e)) w') w"
    by (rule wp_produce_phase [OF assms(1)])
       (use assms(2) und in \<open>auto intro: step_produce step_produce_lost\<close>)
  then show ?thesis
    unfolding publish_def
    by (intro wp_bind, elim wp_mono) (auto intro!: wp_intros published failed split: if_splits)
qed

lemma simulated_weaken: "simulated opts s n ph w \<Longrightarrow> m \<le> n \<Longrightarrow> simulated opts s m ph w"
  by (auto simp: simulated_def supplied_def)

lemma simulated_token_held:
  assumes "simulated opts s n ph w" and "outbox_inv opts s" and "held (ph i) = Some e"
  shows "ev_claim_token e \<noteq> []"
proof -
  obtain iss where "outbox_steps opts s (view ph iss w)"
    using assms(1) by (auto simp: simulated_def)
  then have "phase_ok opts (view ph iss w) (phase (view ph iss w) i)"
    using outbox_inv_steps [OF _ assms(2)] unfolding outbox_inv_def by blast
  then show ?thesis using assms(3) by (simp add: phase_ok_def)
qed

lemma wp_run_batch:
  assumes "simulated opts s n ph w" and "ph i = Idle" and "outbox_inv opts s"
  shows "wp (run_batch opts n) (\<lambda>_ w'. simulated opts s 0 ph w') w"
  using assms(1)
proof (induction n arbitrary: w)
  case (Suc n)
  have idle: "ph(i := Idle) = ph" using assms(2) by (simp add: fun_upd_idem)
  have "wp (run_batch opts (Suc n)) (\<lambda>_ w'. simulated opts s 0 ph w') w"
    unfolding run_batch.simps
  proof (rule wp_bind, rule wp_nowMs, rule wp_bind)
    fix now c
    show "wp (claimPendingEvents 1 now (claim_lease_ms opts))
        (\<lambda>es. wp (case es of [] \<Rightarrow> return () | e # _ \<Rightarrow> publish opts e \<bind> (\<lambda>_. run_batch opts n))
          (\<lambda>_ w'. simulated opts s 0 ph w')) (w\<lparr>clock := c\<rparr>)"
    proof (rule wp_mono [OF wp_claimPendingEvents [of opts s n ph _ i]])
      fix es w'
      assume es: "case es of [] \<Rightarrow> simulated opts s n ph w' | e # _ \<Rightarrow> simulated opts s n (ph(i := Claimed e)) w'"
      show "wp (case es of [] \<Rightarrow> return () | e # _ \<Rightarrow> publish opts e \<bind> (\<lambda>_. run_batch opts n))
          (\<lambda>_ w'. simulated opts s 0 ph w') w'"
      proof (cases es)
        case Nil
        with es show ?thesis by (auto intro!: wp_intros elim: simulated_weaken)
      next
        case (Cons e rest)
        with es have sim: "simulated opts s n (ph(i := Claimed e)) w'" by simp
        then have "ev_claim_token e \<noteq> []" by (rule simulated_token_held [OF _ assms(3), where i = i]) simp
        from wp_publish [OF sim _ this, of i] have "wp (publish opts e) (\<lambda>_. simulated opts s n ph) w'"
          by (simp add: idle)
        then show ?thesis
          using Cons by (auto intro!: wp_bind elim!: wp_mono Suc.IH)
      qed
    qed (use Suc.prems assms(2) in simp_all)
  qed
  then show ?case .
qed (auto intro!: wp_intros)

text \<open>
  C36. Refinement: one call of \<^verbatim>\<open>OutboxWorker::runOnce\<close>, whatever calls to MySQL and Kafka fail or lose
  their answer in between, is a run of the step relation from the state the tables and the log show
  before the call to the one they show after it. So every guarantee of the relation holds for the code.
\<close>

theorem runOnce_refines_steps:
  assumes "tx w = None" and "outbox_inv opts (view ph iss w)" and "ph i = Idle"
    and "supplied (batch_size opts) iss w" and "run_state (runOnce opts) w = (u, w')"
  shows "tx w' = None \<and> (\<exists>iss'. outbox_steps opts (view ph iss w) (view ph iss' w'))"
proof -
  have "simulated opts (view ph iss w) (batch_size opts) ph w"
    using assms by (auto simp: simulated_def)
  from wp_run_batch [OF this assms(3,2)] show ?thesis
    using assms(5) by (auto simp: runOnce_def wp_def simulated_def)
qed

definition outbox_example :: world where
  "outbox_example = \<lparr>db = empty_tables\<lparr>outbox_events := [\<lparr>ev_id = 1, ev_event_id = 7, ev_aggregate_type = ''message'',
      ev_aggregate_id = 7, ev_topic = ''t'', ev_event_key = ''k'', ev_payload = ''p'', ev_status = 0, ev_retry_count = 0,
      ev_next_retry_at = 0, ev_created_at = 1, ev_updated_at = 1, ev_trace_id = [], ev_claim_token = []\<rparr>]\<rparr>,
     tx = None, seqs = \<lparr>user_seq = 0, request_seq = 0, group_seq = 0, outbox_seq = 1\<rparr>,
     redis = \<lparr>kv = (\<lambda>_. None), smembers_of = (\<lambda>_. [])\<rparr>, kafka = [], script = [], clock = [5],
     random = [''a'', ''b''], ids = [], gateways = (\<lambda>_. None), pushed = []\<rparr>"

definition outbox_example_opts :: OutboxWorkerOptions where
  "outbox_example_opts = default_OutboxWorkerOptions\<lparr>batch_size := 2\<rparr>"

lemma outbox_example_start:
  "tx outbox_example = None \<and> outbox_inv outbox_example_opts (view (\<lambda>_. Idle) {} outbox_example)
     \<and> supplied (batch_size outbox_example_opts) {} outbox_example"
  by (simp add: outbox_example_def outbox_example_opts_def default_OutboxWorkerOptions_def outbox_inv_def view_def
      row_ok_def phase_ok_def tokens_exclusive_def supplied_def empty_tables_def outbox_status_defs)

theorem runOnce_refines_steps_witness:
  "kafka (snd (run_state (runOnce outbox_example_opts) outbox_example)) = [(''t'', ''k'', ''p'')]
   \<and> (\<exists>iss'. outbox_steps outbox_example_opts (view (\<lambda>_. Idle) {} outbox_example)
        (view (\<lambda>_. Idle) iss' (snd (run_state (runOnce outbox_example_opts) outbox_example))))"
proof
  show "kafka (snd (run_state (runOnce outbox_example_opts) outbox_example)) = [(''t'', ''k'', ''p'')]"
    by code_simp
  obtain u w' where r: "run_state (runOnce outbox_example_opts) outbox_example = (u, w')"
    by (cases "run_state (runOnce outbox_example_opts) outbox_example") auto
  show "\<exists>iss'. outbox_steps outbox_example_opts (view (\<lambda>_. Idle) {} outbox_example)
        (view (\<lambda>_. Idle) iss' (snd (run_state (runOnce outbox_example_opts) outbox_example)))"
    using runOnce_refines_steps [of outbox_example outbox_example_opts "\<lambda>_. Idle" "{}" 0 u w'] outbox_example_start r
    by simp
qed

end
