(* ===== verification/Service_Errors.thy ===== *)
theory Service_Errors
  imports Nebula_Prelude
begin

text \<open>
  Error codes (\<^verbatim>\<open>common/error/ErrorCode\<close>) and the common part of every reply (\<^verbatim>\<open>CommonResponse\<close> and the
  \<^verbatim>\<open>fillResponse\<close> of the services). An error code is its integer value, as in the enum class; the constants
  carry the prefix \<open>EC_\<close>.
\<close>

type_synonym ErrorCode = int

abbreviation EC_OK :: ErrorCode where "EC_OK \<equiv> 0"
abbreviation EC_UNKNOWN_ERROR :: ErrorCode where "EC_UNKNOWN_ERROR \<equiv> 1000"
abbreviation EC_INVALID_ARGUMENT :: ErrorCode where "EC_INVALID_ARGUMENT \<equiv> 1001"
abbreviation EC_CONFIG_LOAD_FAILED :: ErrorCode where "EC_CONFIG_LOAD_FAILED \<equiv> 1002"
abbreviation EC_INTERNAL_ERROR :: ErrorCode where "EC_INTERNAL_ERROR \<equiv> 1003"
abbreviation EC_NETWORK_ERROR :: ErrorCode where "EC_NETWORK_ERROR \<equiv> 2000"
abbreviation EC_CONNECTION_CLOSED :: ErrorCode where "EC_CONNECTION_CLOSED \<equiv> 2001"
abbreviation EC_PACKET_INVALID :: ErrorCode where "EC_PACKET_INVALID \<equiv> 2002"
abbreviation EC_PACKET_TOO_LARGE :: ErrorCode where "EC_PACKET_TOO_LARGE \<equiv> 2003"
abbreviation EC_AUTH_FAILED :: ErrorCode where "EC_AUTH_FAILED \<equiv> 3000"
abbreviation EC_TOKEN_INVALID :: ErrorCode where "EC_TOKEN_INVALID \<equiv> 3001"
abbreviation EC_USER_NOT_FOUND :: ErrorCode where "EC_USER_NOT_FOUND \<equiv> 3002"
abbreviation EC_USER_ALREADY_EXISTS :: ErrorCode where "EC_USER_ALREADY_EXISTS \<equiv> 3003"
abbreviation EC_PASSWORD_TOO_SHORT :: ErrorCode where "EC_PASSWORD_TOO_SHORT \<equiv> 3004"
abbreviation EC_USERNAME_EMPTY :: ErrorCode where "EC_USERNAME_EMPTY \<equiv> 3005"
abbreviation EC_PASSWORD_EMPTY :: ErrorCode where "EC_PASSWORD_EMPTY \<equiv> 3006"
abbreviation EC_TOKEN_EXPIRED :: ErrorCode where "EC_TOKEN_EXPIRED \<equiv> 3007"
abbreviation EC_DB_ERROR :: ErrorCode where "EC_DB_ERROR \<equiv> 4000"
abbreviation EC_REDIS_ERROR :: ErrorCode where "EC_REDIS_ERROR \<equiv> 5000"
abbreviation EC_KAFKA_ERROR :: ErrorCode where "EC_KAFKA_ERROR \<equiv> 6000"
abbreviation EC_FRIEND_ALREADY_EXISTS :: ErrorCode where "EC_FRIEND_ALREADY_EXISTS \<equiv> 7001"
abbreviation EC_FRIEND_NOT_FOUND :: ErrorCode where "EC_FRIEND_NOT_FOUND \<equiv> 7002"
abbreviation EC_CANNOT_ADD_SELF :: ErrorCode where "EC_CANNOT_ADD_SELF \<equiv> 7003"
abbreviation EC_GROUP_NOT_FOUND :: ErrorCode where "EC_GROUP_NOT_FOUND \<equiv> 7101"
abbreviation EC_GROUP_ALREADY_JOINED :: ErrorCode where "EC_GROUP_ALREADY_JOINED \<equiv> 7102"
abbreviation EC_GROUP_NOT_MEMBER :: ErrorCode where "EC_GROUP_NOT_MEMBER \<equiv> 7103"
abbreviation EC_GROUP_OWNER_CANNOT_LEAVE :: ErrorCode where "EC_GROUP_OWNER_CANNOT_LEAVE \<equiv> 7104"
abbreviation EC_GROUP_PERMISSION_DENIED :: ErrorCode where "EC_GROUP_PERMISSION_DENIED \<equiv> 7105"
abbreviation EC_MESSAGE_EMPTY :: ErrorCode where "EC_MESSAGE_EMPTY \<equiv> 8001"
abbreviation EC_MESSAGE_TOO_LARGE :: ErrorCode where "EC_MESSAGE_TOO_LARGE \<equiv> 8002"
abbreviation EC_MESSAGE_NOT_FOUND :: ErrorCode where "EC_MESSAGE_NOT_FOUND \<equiv> 8003"
abbreviation EC_MESSAGE_DUPLICATED :: ErrorCode where "EC_MESSAGE_DUPLICATED \<equiv> 8004"
abbreviation EC_MESSAGE_PERSIST_FAILED :: ErrorCode where "EC_MESSAGE_PERSIST_FAILED \<equiv> 8005"
abbreviation EC_MESSAGE_KAFKA_FAILED :: ErrorCode where "EC_MESSAGE_KAFKA_FAILED \<equiv> 8006"
abbreviation EC_MESSAGE_ACK_FAILED :: ErrorCode where "EC_MESSAGE_ACK_FAILED \<equiv> 8007"
abbreviation EC_MESSAGE_PERMISSION_DENIED :: ErrorCode where "EC_MESSAGE_PERMISSION_DENIED \<equiv> 8008"
abbreviation EC_INVALID_CONVERSATION :: ErrorCode where "EC_INVALID_CONVERSATION \<equiv> 8009"
abbreviation EC_PUSH_FAILED :: ErrorCode where "EC_PUSH_FAILED \<equiv> 9001"
abbreviation EC_PUSH_GATEWAY_NOT_FOUND :: ErrorCode where "EC_PUSH_GATEWAY_NOT_FOUND \<equiv> 9002"
abbreviation EC_PUSH_GATEWAY_RPC_FAILED :: ErrorCode where "EC_PUSH_GATEWAY_RPC_FAILED \<equiv> 9003"
abbreviation EC_PUSH_OFFLINE_SAVE_FAILED :: ErrorCode where "EC_PUSH_OFFLINE_SAVE_FAILED \<equiv> 9004"
abbreviation EC_PUSH_RETRY_FAILED :: ErrorCode where "EC_PUSH_RETRY_FAILED \<equiv> 9005"
abbreviation EC_PUSH_DLQ_FAILED :: ErrorCode where "EC_PUSH_DLQ_FAILED \<equiv> 9006"
abbreviation EC_PUSH_INVALID_MESSAGE :: ErrorCode where "EC_PUSH_INVALID_MESSAGE \<equiv> 9007"
abbreviation EC_GATEWAY_NOT_AUTHENTICATED :: ErrorCode where "EC_GATEWAY_NOT_AUTHENTICATED \<equiv> 10001"
abbreviation EC_GATEWAY_ALREADY_AUTHENTICATED :: ErrorCode where "EC_GATEWAY_ALREADY_AUTHENTICATED \<equiv> 10002"
abbreviation EC_GATEWAY_INVALID_PACKET :: ErrorCode where "EC_GATEWAY_INVALID_PACKET \<equiv> 10003"
abbreviation EC_GATEWAY_BACKEND_RPC_FAILED :: ErrorCode where "EC_GATEWAY_BACKEND_RPC_FAILED \<equiv> 10004"
abbreviation EC_GATEWAY_CONNECTION_NOT_FOUND :: ErrorCode where "EC_GATEWAY_CONNECTION_NOT_FOUND \<equiv> 10005"
abbreviation EC_GATEWAY_ONLINE_STATE_FAILED :: ErrorCode where "EC_GATEWAY_ONLINE_STATE_FAILED \<equiv> 10006"
abbreviation EC_GATEWAY_PERMISSION_DENIED :: ErrorCode where "EC_GATEWAY_PERMISSION_DENIED \<equiv> 10007"
abbreviation EC_GATEWAY_HEARTBEAT_TIMEOUT :: ErrorCode where "EC_GATEWAY_HEARTBEAT_TIMEOUT \<equiv> 10008"
abbreviation EC_RATE_LIMITED :: ErrorCode where "EC_RATE_LIMITED \<equiv> 11001"
abbreviation EC_SERVICE_UNAVAILABLE :: ErrorCode where "EC_SERVICE_UNAVAILABLE \<equiv> 11002"
abbreviation EC_CIRCUIT_OPEN :: ErrorCode where "EC_CIRCUIT_OPEN \<equiv> 11003"
abbreviation EC_FRIEND_REQUEST_NOT_FOUND :: ErrorCode where "EC_FRIEND_REQUEST_NOT_FOUND \<equiv> 12001"
abbreviation EC_FRIEND_REQUEST_ALREADY_EXISTS :: ErrorCode where "EC_FRIEND_REQUEST_ALREADY_EXISTS \<equiv> 12002"
abbreviation EC_FRIEND_REQUEST_ALREADY_HANDLED :: ErrorCode where "EC_FRIEND_REQUEST_ALREADY_HANDLED \<equiv> 12003"
abbreviation EC_CONVERSATION_NOT_FOUND :: ErrorCode where "EC_CONVERSATION_NOT_FOUND \<equiv> 13001"
abbreviation EC_MESSAGE_RECALL_TIMEOUT :: ErrorCode where "EC_MESSAGE_RECALL_TIMEOUT \<equiv> 14001"
abbreviation EC_MESSAGE_RECALL_PERMISSION_DENIED :: ErrorCode where "EC_MESSAGE_RECALL_PERMISSION_DENIED \<equiv> 14002"
abbreviation EC_MESSAGE_ALREADY_RECALLED :: ErrorCode where "EC_MESSAGE_ALREADY_RECALLED \<equiv> 14003"
abbreviation EC_DEVICE_NOT_FOUND :: ErrorCode where "EC_DEVICE_NOT_FOUND \<equiv> 15001"
abbreviation EC_TOKEN_REFRESH_FAILED :: ErrorCode where "EC_TOKEN_REFRESH_FAILED \<equiv> 15002"
abbreviation EC_OUTBOX_EVENT_NOT_FOUND :: ErrorCode where "EC_OUTBOX_EVENT_NOT_FOUND \<equiv> 16001"
abbreviation EC_OUTBOX_PUBLISH_FAILED :: ErrorCode where "EC_OUTBOX_PUBLISH_FAILED \<equiv> 16002"

definition errorCodeNames :: "(ErrorCode \<times> string) list" where
  "errorCodeNames = [
     (EC_OK, ''OK''),
     (EC_UNKNOWN_ERROR, ''UNKNOWN_ERROR''),
     (EC_INVALID_ARGUMENT, ''INVALID_ARGUMENT''),
     (EC_CONFIG_LOAD_FAILED, ''CONFIG_LOAD_FAILED''),
     (EC_INTERNAL_ERROR, ''INTERNAL_ERROR''),
     (EC_NETWORK_ERROR, ''NETWORK_ERROR''),
     (EC_CONNECTION_CLOSED, ''CONNECTION_CLOSED''),
     (EC_PACKET_INVALID, ''PACKET_INVALID''),
     (EC_PACKET_TOO_LARGE, ''PACKET_TOO_LARGE''),
     (EC_AUTH_FAILED, ''AUTH_FAILED''),
     (EC_TOKEN_INVALID, ''TOKEN_INVALID''),
     (EC_USER_NOT_FOUND, ''USER_NOT_FOUND''),
     (EC_USER_ALREADY_EXISTS, ''USER_ALREADY_EXISTS''),
     (EC_PASSWORD_TOO_SHORT, ''PASSWORD_TOO_SHORT''),
     (EC_USERNAME_EMPTY, ''USERNAME_EMPTY''),
     (EC_PASSWORD_EMPTY, ''PASSWORD_EMPTY''),
     (EC_TOKEN_EXPIRED, ''TOKEN_EXPIRED''),
     (EC_DB_ERROR, ''DB_ERROR''),
     (EC_REDIS_ERROR, ''REDIS_ERROR''),
     (EC_KAFKA_ERROR, ''KAFKA_ERROR''),
     (EC_FRIEND_ALREADY_EXISTS, ''FRIEND_ALREADY_EXISTS''),
     (EC_FRIEND_NOT_FOUND, ''FRIEND_NOT_FOUND''),
     (EC_CANNOT_ADD_SELF, ''CANNOT_ADD_SELF''),
     (EC_GROUP_NOT_FOUND, ''GROUP_NOT_FOUND''),
     (EC_GROUP_ALREADY_JOINED, ''GROUP_ALREADY_JOINED''),
     (EC_GROUP_NOT_MEMBER, ''GROUP_NOT_MEMBER''),
     (EC_GROUP_OWNER_CANNOT_LEAVE, ''GROUP_OWNER_CANNOT_LEAVE''),
     (EC_GROUP_PERMISSION_DENIED, ''GROUP_PERMISSION_DENIED''),
     (EC_MESSAGE_EMPTY, ''MESSAGE_EMPTY''),
     (EC_MESSAGE_TOO_LARGE, ''MESSAGE_TOO_LARGE''),
     (EC_MESSAGE_NOT_FOUND, ''MESSAGE_NOT_FOUND''),
     (EC_MESSAGE_DUPLICATED, ''MESSAGE_DUPLICATED''),
     (EC_MESSAGE_PERSIST_FAILED, ''MESSAGE_PERSIST_FAILED''),
     (EC_MESSAGE_KAFKA_FAILED, ''MESSAGE_KAFKA_FAILED''),
     (EC_MESSAGE_ACK_FAILED, ''MESSAGE_ACK_FAILED''),
     (EC_MESSAGE_PERMISSION_DENIED, ''MESSAGE_PERMISSION_DENIED''),
     (EC_INVALID_CONVERSATION, ''INVALID_CONVERSATION''),
     (EC_PUSH_FAILED, ''PUSH_FAILED''),
     (EC_PUSH_GATEWAY_NOT_FOUND, ''PUSH_GATEWAY_NOT_FOUND''),
     (EC_PUSH_GATEWAY_RPC_FAILED, ''PUSH_GATEWAY_RPC_FAILED''),
     (EC_PUSH_OFFLINE_SAVE_FAILED, ''PUSH_OFFLINE_SAVE_FAILED''),
     (EC_PUSH_RETRY_FAILED, ''PUSH_RETRY_FAILED''),
     (EC_PUSH_DLQ_FAILED, ''PUSH_DLQ_FAILED''),
     (EC_PUSH_INVALID_MESSAGE, ''PUSH_INVALID_MESSAGE''),
     (EC_GATEWAY_NOT_AUTHENTICATED, ''GATEWAY_NOT_AUTHENTICATED''),
     (EC_GATEWAY_ALREADY_AUTHENTICATED, ''GATEWAY_ALREADY_AUTHENTICATED''),
     (EC_GATEWAY_INVALID_PACKET, ''GATEWAY_INVALID_PACKET''),
     (EC_GATEWAY_BACKEND_RPC_FAILED, ''GATEWAY_BACKEND_RPC_FAILED''),
     (EC_GATEWAY_CONNECTION_NOT_FOUND, ''GATEWAY_CONNECTION_NOT_FOUND''),
     (EC_GATEWAY_ONLINE_STATE_FAILED, ''GATEWAY_ONLINE_STATE_FAILED''),
     (EC_GATEWAY_PERMISSION_DENIED, ''GATEWAY_PERMISSION_DENIED''),
     (EC_GATEWAY_HEARTBEAT_TIMEOUT, ''GATEWAY_HEARTBEAT_TIMEOUT''),
     (EC_RATE_LIMITED, ''RATE_LIMITED''),
     (EC_SERVICE_UNAVAILABLE, ''SERVICE_UNAVAILABLE''),
     (EC_CIRCUIT_OPEN, ''CIRCUIT_OPEN''),
     (EC_FRIEND_REQUEST_NOT_FOUND, ''FRIEND_REQUEST_NOT_FOUND''),
     (EC_FRIEND_REQUEST_ALREADY_EXISTS, ''FRIEND_REQUEST_ALREADY_EXISTS''),
     (EC_FRIEND_REQUEST_ALREADY_HANDLED, ''FRIEND_REQUEST_ALREADY_HANDLED''),
     (EC_CONVERSATION_NOT_FOUND, ''CONVERSATION_NOT_FOUND''),
     (EC_MESSAGE_RECALL_TIMEOUT, ''MESSAGE_RECALL_TIMEOUT''),
     (EC_MESSAGE_RECALL_PERMISSION_DENIED, ''MESSAGE_RECALL_PERMISSION_DENIED''),
     (EC_MESSAGE_ALREADY_RECALLED, ''MESSAGE_ALREADY_RECALLED''),
     (EC_DEVICE_NOT_FOUND, ''DEVICE_NOT_FOUND''),
     (EC_TOKEN_REFRESH_FAILED, ''TOKEN_REFRESH_FAILED''),
     (EC_OUTBOX_EVENT_NOT_FOUND, ''OUTBOX_EVENT_NOT_FOUND''),
     (EC_OUTBOX_PUBLISH_FAILED, ''OUTBOX_PUBLISH_FAILED'')]"

definition errorCodeToString :: "ErrorCode \<Rightarrow> string" where
  "errorCodeToString code = (case map_of errorCodeNames code of
     None \<Rightarrow> ''UNRECOGNIZED_ERROR_CODE'' | Some name \<Rightarrow> name)"

section \<open>Replies\<close>

record CommonResponse =
  rsp_code :: int
  rsp_message :: string
  rsp_request_id :: string

definition fillResponse :: "string \<Rightarrow> ErrorCode \<Rightarrow> string \<Rightarrow> CommonResponse" where
  "fillResponse request_id code message =
     \<lparr>rsp_code = code,
      rsp_message = (if message = [] then errorCodeToString code else message),
      rsp_request_id = (if request_id = [] then ''request-id-empty'' else request_id)\<rparr>"

abbreviation is_ok :: "CommonResponse \<Rightarrow> bool" where
  "is_ok r \<equiv> rsp_code r = EC_OK"

text \<open>What the server side of a call sees of its caller: whether the call carries the internal token and
  the trace id it runs under.\<close>

record rpc_context =
  rpc_authorized :: bool
  rpc_trace :: string

lemma fillResponse_code [simp]: "rsp_code (fillResponse rid code msg) = code"
  by (simp add: fillResponse_def)

lemma errorCodes_distinct: "distinct (map fst errorCodeNames) \<and> distinct (map snd errorCodeNames)"
  by code_simp

end
