(* ===== verification/Message_Service.thy ===== *)
theory Message_Service
  imports Message_Store Directory_Store Outbox Service_Errors Message_Ids
begin

text \<open>
  \<^verbatim>\<open>message_service/src/MessageServiceImpl\<close> and \<^verbatim>\<open>common/message/MessageDeduplicator\<close>: sending, listing,
  acknowledging, pulling, reading and recalling messages. The protobuf coding of a message
  (\<^verbatim>\<open>MessageKafkaPayload\<close>) is an argument, as are the caller's context and the request. The checks for null
  dependencies have no counterpart; spans, metrics and log lines are left out.
\<close>

section \<open>Options and data\<close>

record MessageServiceOptions =
  max_content_length :: int
  offline_pull_limit :: nat
  recall_window_seconds :: int
  topic_single :: string
  topic_group :: string

definition default_MessageServiceOptions :: MessageServiceOptions where
  "default_MessageServiceOptions = \<lparr>max_content_length = 4096, offline_pull_limit = 100,
     recall_window_seconds = 120, topic_single = ''nebula.message.single'',
     topic_group = ''nebula.message.group''\<rparr>"

record MessageData =
  md_message_id :: u64
  md_conversation_id :: u64
  md_from_user_id :: u64
  md_to_user_id :: u64
  md_group_id :: u64
  md_content_type :: int
  md_content :: string
  md_status :: int
  md_timestamp :: int
  md_recalled :: bool
  md_recalled_at :: int
  md_trace_id :: string

record payload_codec =
  serializeMessageData :: "MessageData \<Rightarrow> string"
  deserializeMessageData :: "string \<Rightarrow> MessageData option"

definition toMessageData :: "string \<Rightarrow> MessageRecord \<Rightarrow> MessageData" where
  "toMessageData trace r =
     \<lparr>md_message_id = m_message_id r, md_conversation_id = m_conversation_id r,
      md_from_user_id = m_from_user_id r, md_to_user_id = m_to_user_id r, md_group_id = m_group_id r,
      md_content_type = m_message_type r, md_content = m_content r, md_status = m_status r,
      md_timestamp = m_created_at r, md_recalled = m_recalled r, md_recalled_at = m_recalled_at r,
      md_trace_id = trace\<rparr>"

definition makeOutboxEvent ::
  "string \<Rightarrow> u64 \<Rightarrow> string \<Rightarrow> u64 \<Rightarrow> string \<Rightarrow> string \<Rightarrow> string \<Rightarrow> int \<Rightarrow> OutboxEvent" where
  "makeOutboxEvent trace eid agg_type agg_id topic key data now =
     \<lparr>ev_id = 0, ev_event_id = eid, ev_aggregate_type = agg_type, ev_aggregate_id = agg_id, ev_topic = topic,
      ev_event_key = key, ev_payload = data, ev_status = PENDING, ev_retry_count = 0, ev_next_retry_at = 0,
      ev_created_at = now, ev_updated_at = now, ev_trace_id = trace, ev_claim_token = []\<rparr>"

definition MESSAGE_STATUS_SENT :: int where
  "MESSAGE_STATUS_SENT = 1"

text \<open>A reply with its data; an error carries the default data.\<close>

type_synonym 'a reply = "CommonResponse \<times> 'a"

definition requireInternalRpc :: "rpc_context \<Rightarrow> string \<Rightarrow> 'a \<Rightarrow> 'a reply io \<Rightarrow> 'a reply io" where
  "requireInternalRpc ctx rid none body =
     (if rpc_authorized ctx then body
      else return (fillResponse rid EC_AUTH_FAILED ''internal rpc unauthenticated'', none))"

section \<open>Deduplication\<close>

definition dedup_key :: "u64 \<Rightarrow> u32 \<Rightarrow> string" where
  "dedup_key from client_seq = ''nebula:msg:dedup:'' @ to_string (unat from) @ '':'' @ to_string (unat client_seq)"

definition getExistingMessageId :: "u64 \<Rightarrow> u32 \<Rightarrow> u64 option io" where
  "getExistingMessageId from client_seq =
     (if client_seq = 0 then return None
      else do {
        v \<leftarrow> redis_get (dedup_key from client_seq);
        return (case v of None \<Rightarrow> None
                | Some s \<Rightarrow> map_option (\<lambda>(n, _). of_nat n) (stoull s)) })"

definition markMessage :: "u64 \<Rightarrow> u32 \<Rightarrow> u64 \<Rightarrow> bool io" where
  "markMessage from client_seq mid =
     (if client_seq = 0 then return True
      else redis_setEx (dedup_key from client_seq) (to_string (unat mid)))"

text \<open>The look-up before a send: the cached id is used only when it names the sender's message with this
  sequence, otherwise the table is asked.\<close>

definition find_duplicate :: "u64 \<Rightarrow> u32 \<Rightarrow> MessageRecord option io" where
  "find_duplicate from client_seq =
     (if client_seq = 0 then return None
      else do {
        existing \<leftarrow> getExistingMessageId from client_seq;
        cached \<leftarrow> (case existing of None \<Rightarrow> return None
          | Some mid \<Rightarrow> do {
              p \<leftarrow> getMessageById mid;
              return (case p of None \<Rightarrow> None
                | Some r \<Rightarrow> if m_from_user_id r \<noteq> from \<or> m_client_sequence_id r \<noteq> client_seq then None else Some r) });
        case cached of Some r \<Rightarrow> return (Some r)
        | None \<Rightarrow> getMessageByClientSequence from client_seq })"

section \<open>Sending\<close>

definition validateContent :: "MessageServiceOptions \<Rightarrow> string \<Rightarrow> string \<Rightarrow> CommonResponse option" where
  "validateContent opts rid content =
     (if content = [] then Some (fillResponse rid EC_MESSAGE_EMPTY [])
      else if int (length content) > max_content_length opts then Some (fillResponse rid EC_MESSAGE_TOO_LARGE [])
      else None)"

definition replayed :: "string \<Rightarrow> MessageRecord \<Rightarrow> (u64 \<times> int) reply" where
  "replayed rid r = (fillResponse rid EC_OK ''DUPLICATED_REQUEST_REPLAYED'', m_message_id r, m_created_at r)"

text \<open>The transaction of a send: the message, the conversations of its readers, the outbox event. The
  conversations' statement differs between single and group messages.\<close>

definition store_message ::
  "string \<Rightarrow> MessageRecord \<Rightarrow> bool io \<Rightarrow> OutboxEvent \<Rightarrow> (u64 \<times> int) reply option io" where
  "store_message rid m conversations_stmt event = do {
     conn \<leftarrow> acquire;
     if \<not> conn then return (Some (fillResponse rid EC_DB_ERROR [], 0, 0))
     else with_tx (\<lambda>active.
       if \<not> active then return (Some (fillResponse rid EC_DB_ERROR [], 0, 0))
       else do {
         ok \<leftarrow> insertMessage_on m;
         if \<not> ok then do {
           _ \<leftarrow> rollback_tx;
           existing \<leftarrow> getMessageByClientSequence (m_from_user_id m) (m_client_sequence_id m);
           case existing of Some r \<Rightarrow> return (Some (replayed rid r))
           | None \<Rightarrow> return (Some (fillResponse rid EC_MESSAGE_PERSIST_FAILED [], 0, 0)) }
         else do {
           ok \<leftarrow> conversations_stmt;
           if \<not> ok then return (Some (fillResponse rid EC_DB_ERROR [], 0, 0))
           else do {
             ok \<leftarrow> insertEvent event;
             if \<not> ok then return (Some (fillResponse rid EC_OUTBOX_PUBLISH_FAILED [], 0, 0))
             else do {
               ok \<leftarrow> commit_tx;
               if \<not> ok then return (Some (fillResponse rid EC_DB_ERROR [], 0, 0))
               else return None } } } }) }"

definition finish_send :: "string \<Rightarrow> MessageRecord \<Rightarrow> (u64 \<times> int) reply option \<Rightarrow> (u64 \<times> int) reply io" where
  "finish_send rid m failed =
     (case failed of Some r \<Rightarrow> return r
      | None \<Rightarrow> do {
          _ \<leftarrow> (if m_client_sequence_id m \<noteq> 0
               then markMessage (m_from_user_id m) (m_client_sequence_id m) (m_message_id m) else return True);
          return (fillResponse rid EC_OK ''OK'', m_message_id m, m_created_at m) })"

definition store_and_finish :: "string \<Rightarrow> MessageRecord \<Rightarrow> bool io \<Rightarrow> OutboxEvent \<Rightarrow> (u64 \<times> int) reply io" where
  "store_and_finish rid m conversations_stmt event = do {
     failed \<leftarrow> store_message rid m conversations_stmt event;
     finish_send rid m failed }"

record SendRequest =
  sr_request_id :: string
  sr_from_user_id :: u64
  sr_target :: u64
  sr_content_type :: int
  sr_content :: string
  sr_client_sequence_id :: u32

definition preview_length :: nat where
  "preview_length = 120"

definition single_record :: "SendRequest \<Rightarrow> u64 \<Rightarrow> int \<Rightarrow> MessageRecord" where
  "single_record q mid now =
     \<lparr>m_message_id = mid, m_conversation_id = conversation_single (sr_from_user_id q) (sr_target q),
      m_from_user_id = sr_from_user_id q, m_client_sequence_id = sr_client_sequence_id q,
      m_to_user_id = sr_target q, m_group_id = 0, m_message_type = sr_content_type q, m_content = sr_content q,
      m_status = MESSAGE_STATUS_SENT, m_recalled = False, m_recalled_at = 0, m_created_at = now,
      m_updated_at = now\<rparr>"

definition SendSingleMessage ::
  "MessageServiceOptions \<Rightarrow> payload_codec \<Rightarrow> rpc_context \<Rightarrow> SendRequest \<Rightarrow> (u64 \<times> int) reply io" where
  "SendSingleMessage opts codec ctx q =
     (let rid = sr_request_id q; from = sr_from_user_id q; to = sr_target q in
      requireInternalRpc ctx rid (0, 0)
       (if from = 0 \<or> to = 0 \<or> from = to then return (fillResponse rid EC_INVALID_ARGUMENT [], 0, 0)
        else case validateContent opts rid (sr_content q) of Some r \<Rightarrow> return (r, 0, 0)
        | None \<Rightarrow> do {
            known \<leftarrow> andalso (do { u \<leftarrow> getUserById from; return (u \<noteq> None) })
                             (do { u \<leftarrow> getUserById to; return (u \<noteq> None) });
            if \<not> known then return (fillResponse rid EC_USER_NOT_FOUND [], 0, 0)
            else do {
              allowed \<leftarrow> andalso (isFriend from to) (isFriend to from);
              if \<not> allowed
              then return (fillResponse rid EC_MESSAGE_PERMISSION_DENIED
                             ''single messages require an accepted friendship'', 0, 0)
              else do {
                dup \<leftarrow> find_duplicate from (sr_client_sequence_id q);
                case dup of Some r \<Rightarrow> return (replayed rid r)
                | None \<Rightarrow> do {
                    mid \<leftarrow> next_message_id;
                    now \<leftarrow> nowMs;
                    let m = single_record q mid now;
                    let data = serializeMessageData codec (toMessageData (rpc_trace ctx) m);
                    store_and_finish rid m
                      (upsertSingleConversationForUsers_on (m_conversation_id m) from to mid
                         (buildPreview (sr_content q) preview_length) now)
                      (makeOutboxEvent (rpc_trace ctx) mid ''message'' mid (topic_single opts)
                         (to_string (unat (m_conversation_id m))) data now) } } } }))"

definition group_record :: "SendRequest \<Rightarrow> u64 \<Rightarrow> int \<Rightarrow> MessageRecord" where
  "group_record q mid now =
     \<lparr>m_message_id = mid, m_conversation_id = conversation_group (sr_target q),
      m_from_user_id = sr_from_user_id q, m_client_sequence_id = sr_client_sequence_id q,
      m_to_user_id = 0, m_group_id = sr_target q, m_message_type = sr_content_type q, m_content = sr_content q,
      m_status = MESSAGE_STATUS_SENT, m_recalled = False, m_recalled_at = 0, m_created_at = now,
      m_updated_at = now\<rparr>"

definition SendGroupMessage ::
  "MessageServiceOptions \<Rightarrow> payload_codec \<Rightarrow> rpc_context \<Rightarrow> SendRequest \<Rightarrow> (u64 \<times> int) reply io" where
  "SendGroupMessage opts codec ctx q =
     (let rid = sr_request_id q; from = sr_from_user_id q; gid = sr_target q in
      requireInternalRpc ctx rid (0, 0)
       (if from = 0 \<or> gid = 0 then return (fillResponse rid EC_INVALID_ARGUMENT [], 0, 0)
        else case validateContent opts rid (sr_content q) of Some r \<Rightarrow> return (r, 0, 0)
        | None \<Rightarrow> do {
            u \<leftarrow> getUserById from;
            if u = None then return (fillResponse rid EC_USER_NOT_FOUND [], 0, 0)
            else do {
              g \<leftarrow> getGroupById gid;
              if g = None then return (fillResponse rid EC_GROUP_NOT_FOUND [], 0, 0)
              else do {
                allowed \<leftarrow> isMember gid from;
                if \<not> allowed then return (fillResponse rid EC_MESSAGE_PERMISSION_DENIED [], 0, 0)
                else do {
                  members \<leftarrow> listMembers gid;
                  dup \<leftarrow> find_duplicate from (sr_client_sequence_id q);
                  case dup of Some r \<Rightarrow> return (replayed rid r)
                  | None \<Rightarrow> do {
                      mid \<leftarrow> next_message_id;
                      now \<leftarrow> nowMs;
                      let m = group_record q mid now;
                      let data = serializeMessageData codec (toMessageData (rpc_trace ctx) m);
                      store_and_finish rid m
                        (upsertGroupConversationForMembers_on (m_conversation_id m) gid from members mid
                           (buildPreview (sr_content q) preview_length) now)
                        (makeOutboxEvent (rpc_trace ctx) mid ''message'' mid (topic_group opts)
                           (to_string (unat (m_conversation_id m))) data now) } } } } }))"

section \<open>Reading\<close>

definition canReadConversation :: "u64 \<Rightarrow> u64 \<Rightarrow> bool io" where
  "canReadConversation uid conv =
     (if uid = 0 \<or> conv = 0 then return False else conversation_isOwner uid conv)"

definition canReceiveMessage :: "u64 \<Rightarrow> MessageRecord \<Rightarrow> bool io" where
  "canReceiveMessage uid r =
     (if uid = 0 \<or> m_from_user_id r = uid then return False
      else if m_group_id r \<noteq> 0 then canReadConversation uid (m_conversation_id r)
      else return (m_to_user_id r = uid))"

text \<open>The messages oldest first, whether there are more, and the cursor for the next page.\<close>

record MessagePage =
  page_messages :: "MessageData list"
  page_has_more :: bool
  next_before_time :: int
  next_before_message_id :: u64

definition empty_page :: MessagePage where
  "empty_page = \<lparr>page_messages = [], page_has_more = False, next_before_time = 0, next_before_message_id = 0\<rparr>"

definition make_page :: "string \<Rightarrow> nat \<Rightarrow> MessageRecord list \<Rightarrow> MessagePage" where
  "make_page trace limit ms =
     (let shown = rev (take limit ms)
      in \<lparr>page_messages = map (toMessageData trace) shown, page_has_more = length ms > limit,
          next_before_time = (case shown of [] \<Rightarrow> 0 | m # _ \<Rightarrow> m_created_at m),
          next_before_message_id = (case shown of [] \<Rightarrow> 0 | m # _ \<Rightarrow> m_message_id m)\<rparr>)"

definition ListConversationMessages ::
  "rpc_context \<Rightarrow> string \<Rightarrow> u64 \<Rightarrow> u64 \<Rightarrow> nat \<Rightarrow> int \<Rightarrow> u64 \<Rightarrow> MessagePage reply io" where
  "ListConversationMessages ctx rid requester conv page_size before_time before_id =
     requireInternalRpc ctx rid empty_page (do {
       allowed \<leftarrow> (if requester = 0 \<or> conv = 0 then return False else canReadConversation requester conv);
       if \<not> allowed then return (fillResponse rid EC_CONVERSATION_NOT_FOUND [], empty_page)
       else do {
         let limit = (if page_size = 0 then 50 else min page_size 100);
         ms \<leftarrow> listConversationMessages conv before_time before_id (limit + 1);
         return (fillResponse rid EC_OK ''OK'', make_page (rpc_trace ctx) limit ms) } })"

definition AckMessage :: "rpc_context \<Rightarrow> string \<Rightarrow> u64 \<Rightarrow> u64 \<Rightarrow> unit reply io" where
  "AckMessage ctx rid uid mid =
     requireInternalRpc ctx rid ()
      (if uid = 0 \<or> mid = 0 then return (fillResponse rid EC_INVALID_ARGUMENT [], ())
       else do {
         u \<leftarrow> getUserById uid;
         if u = None then return (fillResponse rid EC_USER_NOT_FOUND [], ())
         else do {
           r \<leftarrow> getMessageById mid;
           case r of None \<Rightarrow> return (fillResponse rid EC_MESSAGE_NOT_FOUND [], ())
           | Some r \<Rightarrow> do {
               allowed \<leftarrow> canReceiveMessage uid r;
               if \<not> allowed then return (fillResponse rid EC_MESSAGE_PERMISSION_DENIED [], ())
               else do {
                 conn \<leftarrow> acquire;
                 if \<not> conn then return (fillResponse rid EC_DB_ERROR [], ())
                 else with_tx (\<lambda>active. do {
                   now \<leftarrow> nowMs;
                   ok \<leftarrow> (if \<not> active then return False
                         else andalso (upsertDelivered_on mid uid now)
                             (andalso (markAsAcked_on uid mid) commit_tx));
                   return (fillResponse rid (if ok then EC_OK else EC_DB_ERROR) (if ok then ''OK'' else []), ()) }) } } } })"

definition PullOfflineMessages ::
  "MessageServiceOptions \<Rightarrow> payload_codec \<Rightarrow> rpc_context \<Rightarrow> string \<Rightarrow> u64 \<Rightarrow> nat \<Rightarrow> MessageData list reply io" where
  "PullOfflineMessages opts codec ctx rid uid page_size =
     requireInternalRpc ctx rid []
      (if uid = 0 then return (fillResponse rid EC_INVALID_ARGUMENT [], [])
       else do {
         u \<leftarrow> getUserById uid;
         if u = None then return (fillResponse rid EC_USER_NOT_FOUND [], [])
         else do {
           let limit = (if page_size = 0 then offline_pull_limit opts else page_size);
           let limit = (if limit > offline_pull_limit opts then offline_pull_limit opts else limit);
           offline \<leftarrow> listOfflineMessages uid limit;
           conn \<leftarrow> acquire;
           if \<not> conn then return (fillResponse rid EC_DB_ERROR [], [])
           else with_tx (\<lambda>active.
             if \<not> active then return (fillResponse rid EC_DB_ERROR [], [])
             else do {
               let parsed = filter (\<lambda>x. deserializeMessageData codec (om_payload x) \<noteq> None) offline;
               ok \<leftarrow> andalso (markBatchAsPulled_on uid (map om_message_id parsed)) commit_tx;
               if \<not> ok then return (fillResponse rid EC_DB_ERROR [], [])
               else return (fillResponse rid EC_OK ''OK'',
                      map (\<lambda>x. the (deserializeMessageData codec (om_payload x))) parsed) }) } })"

definition MarkMessageRead :: "rpc_context \<Rightarrow> string \<Rightarrow> u64 \<Rightarrow> u64 \<Rightarrow> unit reply io" where
  "MarkMessageRead ctx rid uid mid =
     requireInternalRpc ctx rid ()
      (if uid = 0 \<or> mid = 0 then return (fillResponse rid EC_INVALID_ARGUMENT [], ())
       else do {
         r \<leftarrow> getMessageById mid;
         case r of None \<Rightarrow> return (fillResponse rid EC_MESSAGE_NOT_FOUND [], ())
         | Some r \<Rightarrow> do {
             allowed \<leftarrow> canReceiveMessage uid r;
             if \<not> allowed then return (fillResponse rid EC_MESSAGE_PERMISSION_DENIED [], ())
             else do {
               conn \<leftarrow> acquire;
               if \<not> conn then return (fillResponse rid EC_DB_ERROR [], ())
               else with_tx (\<lambda>active. do {
                 now \<leftarrow> nowMs;
                 ok \<leftarrow> (if \<not> active then return False
                       else andalso (receipt_markRead_on mid uid now)
                           (andalso (recalculateUnread uid (m_conversation_id r) now) commit_tx));
                 return (fillResponse rid (if ok then EC_OK else EC_DB_ERROR) (if ok then ''OK'' else []), ()) }) } } })"

definition MarkConversationRead :: "rpc_context \<Rightarrow> string \<Rightarrow> u64 \<Rightarrow> u64 \<Rightarrow> u64 \<Rightarrow> unit reply io" where
  "MarkConversationRead ctx rid uid conv last_id =
     requireInternalRpc ctx rid ()
      (if uid = 0 \<or> conv = 0 \<or> last_id = 0 then return (fillResponse rid EC_INVALID_ARGUMENT [], ())
       else do {
         allowed \<leftarrow> canReadConversation uid conv;
         if \<not> allowed then return (fillResponse rid EC_CONVERSATION_NOT_FOUND [], ())
         else do {
           c \<leftarrow> getMessageById last_id;
           case c of None \<Rightarrow> return (fillResponse rid EC_MESSAGE_NOT_FOUND [], ())
           | Some c \<Rightarrow>
               if m_conversation_id c \<noteq> conv then return (fillResponse rid EC_MESSAGE_NOT_FOUND [], ())
               else do {
                 now \<leftarrow> nowMs;
                 conn \<leftarrow> acquire;
                 if \<not> conn then return (fillResponse rid EC_DB_ERROR [], ())
                 else with_tx (\<lambda>active. do {
                   ok \<leftarrow> (if \<not> active then return False
                         else andalso (markConversationRead_on conv uid last_id (m_created_at c) now)
                             (andalso (recalculateUnread uid conv now) commit_tx));
                   return (fillResponse rid (if ok then EC_OK else EC_DB_ERROR) (if ok then ''OK'' else []), ()) }) } } })"

definition GetMessageReadState ::
  "rpc_context \<Rightarrow> string \<Rightarrow> u64 \<Rightarrow> u64 \<Rightarrow> (u64 \<times> u64 \<times> int \<times> int) list reply io" where
  "GetMessageReadState ctx rid requester mid =
     requireInternalRpc ctx rid []
      (if mid = 0 \<or> requester = 0 then return (fillResponse rid EC_INVALID_ARGUMENT [], [])
       else do {
         r \<leftarrow> getMessageById mid;
         case r of None \<Rightarrow> return (fillResponse rid EC_MESSAGE_NOT_FOUND [], [])
         | Some r \<Rightarrow>
             if m_from_user_id r \<noteq> requester then return (fillResponse rid EC_MESSAGE_PERMISSION_DENIED [], [])
             else do {
               states \<leftarrow> getReadState mid;
               return (fillResponse rid EC_OK ''OK'',
                 map (\<lambda>s. (rc_message_id s, rc_user_id s, rc_delivered_at s, rc_read_at s)) states) } })"

section \<open>Recalling\<close>

definition recalled_record :: "MessageRecord \<Rightarrow> int \<Rightarrow> MessageRecord" where
  "recalled_record r now = r\<lparr>m_recalled := True, m_recalled_at := now, m_status := MESSAGE_STATUS_RECALLED\<rparr>"

definition recall_event ::
  "MessageServiceOptions \<Rightarrow> payload_codec \<Rightarrow> string \<Rightarrow> MessageRecord \<Rightarrow> u64 \<Rightarrow> int \<Rightarrow> OutboxEvent" where
  "recall_event opts codec trace r eid now =
     makeOutboxEvent trace eid ''message_recall'' (m_message_id r)
       (if m_group_id r = 0 then topic_single opts else topic_group opts)
       (to_string (unat (m_conversation_id r)))
       (serializeMessageData codec (toMessageData trace (recalled_record r now))) now"

definition recall_in_tx ::
  "MessageServiceOptions \<Rightarrow> payload_codec \<Rightarrow> rpc_context \<Rightarrow> string \<Rightarrow> MessageRecord \<Rightarrow> int \<Rightarrow> bool \<Rightarrow> (u64 \<times> int) reply io" where
  "recall_in_tx opts codec ctx rid r now active =
     (let mid = m_message_id r in
      if \<not> active then return (fillResponse rid EC_DB_ERROR [], 0, 0)
      else do {
        ok \<leftarrow> recallMessage_on mid now;
        if \<not> ok then do {
          _ \<leftarrow> rollback_tx;
          latest \<leftarrow> getMessageById mid;
          return (fillResponse rid (case latest of Some l \<Rightarrow> if m_recalled l then EC_MESSAGE_ALREADY_RECALLED else EC_DB_ERROR
                    | None \<Rightarrow> EC_DB_ERROR) [], 0, 0) }
        else do {
          eid \<leftarrow> next_message_id;
          ok \<leftarrow> insertEvent (recall_event opts codec (rpc_trace ctx) r eid now);
          if \<not> ok then return (fillResponse rid EC_OUTBOX_PUBLISH_FAILED [], 0, 0)
          else do {
            ok \<leftarrow> andalso (recalculateUnreadForConversation (m_conversation_id r) now)
                   (andalso (markLastMessageRecalled (m_conversation_id r) mid now) commit_tx);
            if \<not> ok then return (fillResponse rid EC_DB_ERROR [], 0, 0)
            else return (fillResponse rid EC_OK ''OK'', mid, now) } } })"

definition RecallMessage ::
  "MessageServiceOptions \<Rightarrow> payload_codec \<Rightarrow> rpc_context \<Rightarrow> string \<Rightarrow> u64 \<Rightarrow> u64 \<Rightarrow> (u64 \<times> int) reply io" where
  "RecallMessage opts codec ctx rid uid mid =
     requireInternalRpc ctx rid (0, 0)
      (if uid = 0 \<or> mid = 0 then return (fillResponse rid EC_INVALID_ARGUMENT [], 0, 0)
       else do {
         r \<leftarrow> getMessageById mid;
         case r of None \<Rightarrow> return (fillResponse rid EC_MESSAGE_NOT_FOUND [], 0, 0)
         | Some r \<Rightarrow>
             if m_from_user_id r \<noteq> uid then return (fillResponse rid EC_MESSAGE_RECALL_PERMISSION_DENIED [], 0, 0)
             else if m_recalled r then return (fillResponse rid EC_MESSAGE_ALREADY_RECALLED [], 0, 0)
             else do {
               now \<leftarrow> nowMs;
               if now - m_created_at r > recall_window_seconds opts * 1000
               then return (fillResponse rid EC_MESSAGE_RECALL_TIMEOUT [], 0, 0)
               else do {
                 conn \<leftarrow> acquire;
                 if \<not> conn then return (fillResponse rid EC_DB_ERROR [], 0, 0)
                 else with_tx (recall_in_tx opts codec ctx rid r now) } } })"

section \<open>A send is all or nothing\<close>

definition single_upserts :: "u64 \<Rightarrow> u64 \<Rightarrow> u64 \<Rightarrow> u64 \<Rightarrow> string \<Rightarrow> int \<Rightarrow> tables \<Rightarrow> tables" where
  "single_upserts conv from to mid preview now =
     sql_upsertOne (new_conversation conv SINGLE to from 0 mid preview now) True
     \<circ> sql_upsertOne (new_conversation conv SINGLE from to 0 mid preview now) False"

lemma writes_single: "writes (upsertSingleConversationForUsers_on conv from to mid preview now)
    (single_upserts conv from to mid preview now)"
  unfolding upsertSingleConversationForUsers_on_def single_upserts_def upsertOne_def
  by (intro writes_andalso writes_execute)

primrec group_upserts :: "u64 \<Rightarrow> u64 \<Rightarrow> u64 \<Rightarrow> u64 list \<Rightarrow> u64 \<Rightarrow> string \<Rightarrow> int \<Rightarrow> tables \<Rightarrow> tables" where
  "group_upserts conv gid sender [] mid preview now = id"
| "group_upserts conv gid sender (u # us) mid preview now = group_upserts conv gid sender us mid preview now
     \<circ> sql_upsertOne (new_conversation conv GROUP u 0 gid mid preview now) (u \<noteq> sender)"

lemma writes_group: "writes (upsertGroupConversationForMembers_on conv gid sender us mid preview now)
    (group_upserts conv gid sender us mid preview now)"
  by (induction us)
    (simp_all only: upsertGroupConversationForMembers_on.simps group_upserts.simps upsertOne_def
       writes_return writes_andalso writes_execute)

text \<open>The effect of a committed send on the tables: one new message, the conversations' upserts \<open>C\<close>, and
  one new pending event with the contents of \<open>ev\<close>.\<close>

definition send_effect :: "MessageRecord \<Rightarrow> (tables \<Rightarrow> tables) \<Rightarrow> OutboxEvent \<Rightarrow> tables \<Rightarrow> tables \<Rightarrow> bool" where
  "send_effect m C ev t t' \<longleftrightarrow> \<not> list_ex (clashes m) (messages t) \<and>
     (\<exists>e. same_event e ev \<and> ev_status e = PENDING \<and> ev_claim_token e = [] \<and>
        (let t1 = C (t\<lparr>messages := messages t @ [m]\<rparr>) in
           ev_event_id ev \<notin> ev_event_id ` set (outbox_events t1)
         \<and> t' = t1\<lparr>outbox_events := outbox_events t1 @ [e]\<rparr>))"

lemma wp_insertMessage_on:
  "wp (insertMessage_on m) (\<lambda>ok w'. tx w' = tx w \<and> redis w' = redis w \<and> kafka w' = kafka w
     \<and> (ok \<longrightarrow> \<not> list_ex (clashes m) (messages (db w)) \<and> db w' = (db w)\<lparr>messages := messages (db w) @ [m]\<rparr>)) w"
  unfolding insertMessage_on_def by (auto intro!: wp_intros simp: ran_def sql_insertMessage_def split: if_splits)

lemma wp_insertEvent:
  assumes "ev_status ev = PENDING"
  shows "wp (insertEvent ev) (\<lambda>ok w'. tx w' = tx w \<and> redis w' = redis w \<and> kafka w' = kafka w
     \<and> (ok \<longrightarrow> ev_event_id ev \<notin> ev_event_id ` set (outbox_events (db w)) \<and>
          (\<exists>e. same_event e ev \<and> ev_status e = PENDING \<and> ev_claim_token e = []
             \<and> db w' = (db w)\<lparr>outbox_events := outbox_events (db w) @ [e]\<rparr>))) w"
proof -
  have inserted: "ev_event_id ev \<notin> ev_event_id ` set (outbox_events d) \<and>
      (\<exists>e. same_event e ev \<and> ev_status e = PENDING \<and> ev_claim_token e = [] \<and> t = d\<lparr>outbox_events := outbox_events d @ [e]\<rparr>)"
    if h: "sql_insertEvent e d = Some (n, t)" and e: "same_event e ev \<and> ev_status e = PENDING \<and> ev_claim_token e = []"
    for e d n t
  proof -
    have "t = d\<lparr>outbox_events := outbox_events d @ [e]\<rparr> \<and> ev_event_id ev \<notin> ev_event_id ` set (outbox_events d)"
      using h e by (auto simp: sql_insertEvent_def list_ex_iff same_event_def split: if_splits)
    with e show ?thesis by blast
  qed
  show ?thesis
    unfolding insertEvent_def
    by (intro wp_bind wp_if wp_return wp_nowMs wp_auto_increment wp_executeUpdate)
       (use assms in \<open>auto simp: ran_def same_event_def intro!: wp_return dest!: inserted\<close>)
qed

text \<open>Under every fault pattern the transaction of a send leaves the tables as they were or applies the
  whole effect; it reports success only after the effect; and what it replays is a stored message.\<close>

lemma wp_store_message:
  assumes w: "tx w = None" and C: "writes conv_stmt C" and ev: "ev_status ev = PENDING"
  shows "wp (store_message rid m conv_stmt ev) (\<lambda>r w'. tx w' = None \<and> redis w' = redis w \<and> kafka w' = kafka w
     \<and> (db w' = db w \<or> send_effect m C ev (db w) (db w'))
     \<and> (r = None \<longrightarrow> send_effect m C ev (db w) (db w'))
     \<and> (\<forall>x. r = Some x \<longrightarrow> \<not> is_ok (fst x) \<or>
          (db w' = db w \<and> m_client_sequence_id m \<noteq> 0 \<and> (\<exists>old\<in>set (messages (db w)). m_from_user_id old = m_from_user_id m
             \<and> m_client_sequence_id old = m_client_sequence_id m \<and> x = replayed rid old)))) w"
proof -
  have conv: "wp conv_stmt Q v" if "\<And>ok w'. tx w' = tx v \<Longrightarrow> redis w' = redis v \<Longrightarrow> kafka w' = kafka v
      \<Longrightarrow> (ok \<longrightarrow> db w' = C (db v)) \<Longrightarrow> Q ok w'" for Q v
    using C that unfolding writes_def by (blast intro: wp_mono)
  note ins = wp_mono [OF wp_insertMessage_on] and evt = wp_mono [OF wp_insertEvent [OF ev]]
  show ?thesis
    unfolding store_message_def
    by (intro wp_bind wp_if wp_acquire wp_with_tx ins conv evt wp_getMessageByClientSequence wp_return wp_rollback_tx wp_commit_tx wp_case_option)
       (auto simp: w send_effect_def Let_def replayed_def undisturbed_def)
qed

lemma wp_find_duplicate [wp_intros]:
  assumes "\<And>r w'. undisturbed w w' \<Longrightarrow> (\<And>m. r = Some m \<Longrightarrow> client_seq \<noteq> 0 \<and> m \<in> set (messages (db w))
      \<and> m_from_user_id m = from \<and> m_client_sequence_id m = client_seq) \<Longrightarrow> Q r w'"
  shows "wp (find_duplicate from client_seq) Q w"
  unfolding find_duplicate_def getExistingMessageId_def
  by (intro wp_intros assms) (auto simp: undisturbed_def split: option.splits if_splits)

lemma wp_markMessage [wp_intros]:
  assumes "\<And>r w'. db w' = db w \<Longrightarrow> tx w' = tx w \<Longrightarrow> kafka w' = kafka w \<Longrightarrow> Q r w'"
  shows "wp (markMessage from client_seq mid) Q w"
  unfolding markMessage_def redis_setEx_def by (intro wp_intros assms) auto

text \<open>What one send did: nothing at all, or the whole effect for one new message id. \<open>answered\<close> relates the
  reply to it: a positive reply names the new message, or the stored message this one repeats.\<close>

definition single_sent ::
  "MessageServiceOptions \<Rightarrow> payload_codec \<Rightarrow> string \<Rightarrow> SendRequest \<Rightarrow> u64 \<Rightarrow> int \<Rightarrow> tables \<Rightarrow> tables \<Rightarrow> bool" where
  "single_sent opts codec trace q mid now =
     (let m = single_record q mid now
      in send_effect m
          (single_upserts (m_conversation_id m) (sr_from_user_id q) (sr_target q) mid
             (buildPreview (sr_content q) preview_length) now)
          (makeOutboxEvent trace mid ''message'' mid (topic_single opts) (to_string (unat (m_conversation_id m)))
             (serializeMessageData codec (toMessageData trace m)) now))"

definition group_sent ::
  "MessageServiceOptions \<Rightarrow> payload_codec \<Rightarrow> string \<Rightarrow> SendRequest \<Rightarrow> u64 list \<Rightarrow> u64 \<Rightarrow> int \<Rightarrow> tables \<Rightarrow> tables \<Rightarrow> bool" where
  "group_sent opts codec trace q members mid now =
     (let m = group_record q mid now
      in send_effect m
          (group_upserts (m_conversation_id m) (sr_target q) (sr_from_user_id q) members mid
             (buildPreview (sr_content q) preview_length) now)
          (makeOutboxEvent trace mid ''message'' mid (topic_group opts) (to_string (unat (m_conversation_id m)))
             (serializeMessageData codec (toMessageData trace m)) now))"

definition repeats :: "SendRequest \<Rightarrow> MessageRecord \<Rightarrow> bool" where
  "repeats q old \<longleftrightarrow> sr_client_sequence_id q \<noteq> 0 \<and> m_from_user_id old = sr_from_user_id q
     \<and> m_client_sequence_id old = sr_client_sequence_id q"

definition answered :: "SendRequest \<Rightarrow> (u64 \<Rightarrow> int \<Rightarrow> bool) \<Rightarrow> tables \<Rightarrow> tables \<Rightarrow> (u64 \<times> int) reply \<Rightarrow> bool" where
  "answered q sent t t' r \<longleftrightarrow>
     (t' = t \<or> (\<exists>mid now. sent mid now)) \<and>
     (is_ok (fst r) \<longrightarrow> sent (fst (snd r)) (snd (snd r)) \<or>
        (t' = t \<and> (\<exists>old \<in> set (messages t). repeats q old \<and> snd r = (m_message_id old, m_created_at old))))"

lemma wp_store_and_finish:
  assumes "tx w = None" and "writes conv_stmt C" and "ev_status ev = PENDING"
    and "m_from_user_id m = sr_from_user_id q" "m_client_sequence_id m = sr_client_sequence_id q"
    and "\<And>r w'. tx w' = None \<Longrightarrow> kafka w' = kafka w \<Longrightarrow>
           db w' = db w \<or> send_effect m C ev (db w) (db w') \<Longrightarrow>
           (is_ok (fst r) \<Longrightarrow> (snd r = (m_message_id m, m_created_at m) \<and> send_effect m C ev (db w) (db w')) \<or>
              (db w' = db w \<and> (\<exists>old \<in> set (messages (db w)). repeats q old \<and> snd r = (m_message_id old, m_created_at old)))) \<Longrightarrow> Q r w'"
  shows "wp (store_and_finish rid m conv_stmt ev) Q w"
  unfolding store_and_finish_def finish_send_def
  by (intro wp_bind wp_mono [OF wp_store_message [OF assms(1-3)]] wp_case_option wp_return wp_if wp_markMessage assms(6))
     (auto simp: repeats_def replayed_def assms(4,5))

lemma wp_store_single:
  assumes "tx w = None"
    and "\<And>r w'. tx w' = None \<Longrightarrow> kafka w' = kafka w \<Longrightarrow>
      answered q (\<lambda>mid now. single_sent opts codec trace q mid now (db w) (db w')) (db w) (db w') r \<Longrightarrow> Q r w'"
  shows "wp (store_and_finish rid (single_record q mid now)
      (upsertSingleConversationForUsers_on (m_conversation_id (single_record q mid now)) (sr_from_user_id q) (sr_target q) mid
         (buildPreview (sr_content q) preview_length) now)
      (makeOutboxEvent trace mid ''message'' mid (topic_single opts)
         (to_string (unat (m_conversation_id (single_record q mid now))))
         (serializeMessageData codec (toMessageData trace (single_record q mid now))) now)) Q w"
  using assms(1)
  by (rule wp_store_and_finish [OF _ writes_single, where q = q])
     (auto simp: makeOutboxEvent_def single_record_def intro!: assms(2) [unfolded answered_def single_sent_def Let_def makeOutboxEvent_def single_record_def])

lemma wp_store_group:
  assumes "tx w = None"
    and "\<And>r w'. tx w' = None \<Longrightarrow> kafka w' = kafka w \<Longrightarrow>
      answered q (\<lambda>mid now. group_sent opts codec trace q members mid now (db w) (db w')) (db w) (db w') r \<Longrightarrow> Q r w'"
  shows "wp (store_and_finish rid (group_record q mid now)
      (upsertGroupConversationForMembers_on (m_conversation_id (group_record q mid now)) (sr_target q) (sr_from_user_id q) members mid
         (buildPreview (sr_content q) preview_length) now)
      (makeOutboxEvent trace mid ''message'' mid (topic_group opts)
         (to_string (unat (m_conversation_id (group_record q mid now))))
         (serializeMessageData codec (toMessageData trace (group_record q mid now))) now)) Q w"
  using assms(1)
  by (rule wp_store_and_finish [OF _ writes_group, where q = q])
     (auto simp: makeOutboxEvent_def group_record_def intro!: assms(2) [unfolded answered_def group_sent_def Let_def makeOutboxEvent_def group_record_def])

lemma answered_unchanged:
  "\<not> is_ok (fst r) \<Longrightarrow> answered q sent t t r"
  "old \<in> set (messages t) \<Longrightarrow> repeats q old \<Longrightarrow> answered q sent t t (replayed rid old)"
  by (auto simp: answered_def replayed_def)

lemma wp_SendSingleMessage:
  assumes w: "tx w = None"
  shows "wp (SendSingleMessage opts codec ctx q) (\<lambda>r w'. tx w' = None \<and> kafka w' = kafka w \<and>
     answered q (\<lambda>mid now. single_sent opts codec (rpc_trace ctx) q mid now (db w) (db w')) (db w) (db w') r \<and>
     ((db w' = db w \<and> \<not> is_ok (fst r)) \<or>
      (rpc_authorized ctx \<and> friends (db w) (sr_from_user_id q) (sr_target q) \<and> friends (db w) (sr_target q) (sr_from_user_id q)))) w"
  unfolding SendSingleMessage_def requireInternalRpc_def Let_def
  by (intro wp_intros wp_store_single)
     (auto simp: w undisturbed_def answered_unchanged repeats_def validateContent_def split: if_splits)

lemma wp_SendGroupMessage:
  assumes w: "tx w = None"
  shows "wp (SendGroupMessage opts codec ctx q) (\<lambda>r w'. tx w' = None \<and> kafka w' = kafka w \<and>
     (\<exists>members. (members = [] \<or> members = sql_listMembers (sr_target q) (db w)) \<and>
       answered q (\<lambda>mid now. group_sent opts codec (rpc_trace ctx) q members mid now (db w) (db w')) (db w) (db w') r) \<and>
     ((db w' = db w \<and> \<not> is_ok (fst r)) \<or>
      (rpc_authorized ctx \<and> list_ex (same_member (sr_target q) (sr_from_user_id q)) (group_members (db w))))) w"
  unfolding SendGroupMessage_def requireInternalRpc_def Let_def
  by (intro wp_intros wp_store_group)
     (auto simp: w undisturbed_def answered_unchanged repeats_def validateContent_def split: if_splits)

end
