(* ===== verification/Message_Invariants.thy ===== *)
theory Message_Invariants
  imports Message_Service
begin

text \<open>
  What every sequence of message service calls and outbox worker rounds keeps, under every fault pattern:
  the keys of the message tables, an outbox event for every stored message, and that an acknowledged
  offline message stays acknowledged. A locale names the SQL statements the handlers are made of and the
  law each has to satisfy; its lemmas lift the laws to the handlers, and each invariant is one
  interpretation.
\<close>

section \<open>Effects of a send\<close>

lemma sql_upsertOne_other [simp]:
  "messages (sql_upsertOne c b t) = messages t" "outbox_events (sql_upsertOne c b t) = outbox_events t"
  "offline_messages (sql_upsertOne c b t) = offline_messages t" "message_receipts (sql_upsertOne c b t) = message_receipts t"
  by (simp_all add: sql_upsertOne_def Let_def)

lemma single_upserts_other [simp]:
  "messages (single_upserts conv a b mid p now t) = messages t"
  "outbox_events (single_upserts conv a b mid p now t) = outbox_events t"
  "offline_messages (single_upserts conv a b mid p now t) = offline_messages t"
  by (simp_all add: single_upserts_def)

lemma group_upserts_other [simp]:
  "messages (group_upserts conv gid s us mid p now t) = messages t"
  "outbox_events (group_upserts conv gid s us mid p now t) = outbox_events t"
  "offline_messages (group_upserts conv gid s us mid p now t) = offline_messages t"
  by (induction us arbitrary: t) simp_all

lemma upserts_ok [inv_intros]:
  "message_tables_ok t \<Longrightarrow> message_tables_ok (single_upserts conv a b mid p now t)"
  "message_tables_ok t \<Longrightarrow> message_tables_ok (group_upserts conv gid s us mid p now t)"
proof -
  show "message_tables_ok t \<Longrightarrow> message_tables_ok (single_upserts conv a b mid p now t)"
    by (auto simp: single_upserts_def intro: inv_intros)
  show "message_tables_ok t \<Longrightarrow> message_tables_ok (group_upserts conv gid s us mid p now t)"
    by (induction us arbitrary: t) (auto intro: inv_intros)
qed

lemma send_effect_ok:
  assumes "message_tables_ok t" and "send_effect m C ev t t'" and "\<And>t. message_tables_ok t \<Longrightarrow> message_tables_ok (C t)"
  shows "message_tables_ok t'"
proof -
  have "sql_insertMessage m t = Some (1, t\<lparr>messages := messages t @ [m]\<rparr>)"
    using assms(2) by (simp add: send_effect_def sql_insertMessage_def)
  with assms(1) have "message_tables_ok (t\<lparr>messages := messages t @ [m]\<rparr>)" by (rule sql_insertMessage_ok)
  then have "message_tables_ok (C (t\<lparr>messages := messages t @ [m]\<rparr>))" by (rule assms(3))
  then show ?thesis using assms(2) by (auto simp: send_effect_def Let_def message_tables_ok_def)
qed

section \<open>Calls in sequence\<close>

text \<open>A call of the message service with its arguments, or a round of an outbox worker.\<close>

datatype message_call =
    Send_single rpc_context SendRequest
  | Send_group rpc_context SendRequest
  | List_messages rpc_context string u64 u64 nat int u64
  | Ack rpc_context string u64 u64
  | Pull rpc_context string u64 nat
  | Read_message rpc_context string u64 u64
  | Read_conversation rpc_context string u64 u64 u64
  | Read_state rpc_context string u64 u64
  | Recall rpc_context string u64 u64
  | Store_offline OfflineMessage
  | Worker_round

fun perform :: "MessageServiceOptions \<Rightarrow> payload_codec \<Rightarrow> OutboxWorkerOptions \<Rightarrow> message_call \<Rightarrow> unit io" where
  "perform opts codec wopts (Send_single ctx q) = do { _ \<leftarrow> SendSingleMessage opts codec ctx q; return () }"
| "perform opts codec wopts (Send_group ctx q) = do { _ \<leftarrow> SendGroupMessage opts codec ctx q; return () }"
| "perform opts codec wopts (List_messages ctx rid u conv n bt bi) = do { _ \<leftarrow> ListConversationMessages ctx rid u conv n bt bi; return () }"
| "perform opts codec wopts (Ack ctx rid u mid) = do { _ \<leftarrow> AckMessage ctx rid u mid; return () }"
| "perform opts codec wopts (Pull ctx rid u n) = do { _ \<leftarrow> PullOfflineMessages opts codec ctx rid u n; return () }"
| "perform opts codec wopts (Read_message ctx rid u mid) = do { _ \<leftarrow> MarkMessageRead ctx rid u mid; return () }"
| "perform opts codec wopts (Read_conversation ctx rid u conv mid) = do { _ \<leftarrow> MarkConversationRead ctx rid u conv mid; return () }"
| "perform opts codec wopts (Read_state ctx rid u mid) = do { _ \<leftarrow> GetMessageReadState ctx rid u mid; return () }"
| "perform opts codec wopts (Recall ctx rid u mid) = do { _ \<leftarrow> RecallMessage opts codec ctx rid u mid; return () }"
| "perform opts codec wopts (Store_offline m) = do { _ \<leftarrow> insertOfflineMessage m; return () }"
| "perform opts codec wopts Worker_round = runOnce wopts"

primrec perform_all :: "MessageServiceOptions \<Rightarrow> payload_codec \<Rightarrow> OutboxWorkerOptions \<Rightarrow> message_call list \<Rightarrow> unit io" where
  "perform_all opts codec wopts [] = return ()"
| "perform_all opts codec wopts (c # cs) = do { _ \<leftarrow> perform opts codec wopts c; perform_all opts codec wopts cs }"

lemma keeps_closed_reads:
  "keeps closed (getUserById u)" "keeps closed (getMessageById mid)" "keeps closed (conversation_isOwner u conv)"
  "keeps closed (listConversationMessages conv bt bi limit)" "keeps closed (listOfflineMessages u limit)"
  "keeps closed (getReadState mid)"
  unfolding getUserById_def getMessageById_def conversation_isOwner_def listConversationMessages_def
    listOfflineMessages_def getReadState_def
  by (intro keeps_intros)+

lemma keeps_closed_handlers:
  "keeps closed (AckMessage ctx rid u mid)" "keeps closed (PullOfflineMessages opts codec ctx rid u n)"
  "keeps closed (MarkMessageRead ctx rid u mid)" "keeps closed (MarkConversationRead ctx rid u conv mid)"
  "keeps closed (RecallMessage opts codec ctx rid u mid)" "keeps closed (GetMessageReadState ctx rid u mid)"
  "keeps closed (ListConversationMessages ctx rid u conv n bt bi)" "keeps closed (insertOfflineMessage m)"
  unfolding AckMessage_def PullOfflineMessages_def MarkMessageRead_def MarkConversationRead_def RecallMessage_def
    GetMessageReadState_def ListConversationMessages_def requireInternalRpc_def canReceiveMessage_def
    canReadConversation_def insertOfflineMessage_def
  by (intro keeps_intros keeps_closed_reads)+

lemma keeps_closed_runOnce: "keeps closed (runOnce wopts)"
proof -
  have "keeps closed (run_batch wopts n)" for n
    by (induction n)
       (auto simp: claimPendingEvents_def publish_def publish_failed_def markPublished_def markFailed_def markDead_def
         mark_def Let_def intro!: keeps_intros)
  then show ?thesis by (simp add: runOnce_def)
qed

section \<open>Properties of the tables and the log\<close>

text \<open>As \<open>stored\<close> and \<open>idle\<close>, for a property that also speaks of the Kafka log.\<close>

type_synonym log = "(string \<times> string \<times> string) list"

definition stored_log :: "(log \<Rightarrow> tables \<Rightarrow> bool) \<Rightarrow> world \<Rightarrow> bool" where
  "stored_log P w \<longleftrightarrow> stored (P (kafka w)) w"

definition idle_log :: "(log \<Rightarrow> tables \<Rightarrow> bool) \<Rightarrow> world \<Rightarrow> bool" where
  "idle_log P w \<longleftrightarrow> P (kafka w) (db w) \<and> tx w = None"

lemma keeps_idle_log: "keeps (stored_log P) m \<Longrightarrow> keeps closed m \<Longrightarrow> keeps (idle_log P) m"
proof -
  have "idle_log P = (\<lambda>w. stored_log P w \<and> closed w)"
    by (auto simp: idle_log_def stored_log_def stored_def closed_def fun_eq_iff)
  then show "keeps (stored_log P) m \<Longrightarrow> keeps closed m \<Longrightarrow> keeps (idle_log P) m" by (simp add: keeps_conj)
qed

lemma keeps_stored_log_calls [keeps_intros]:
  "keeps (stored_log P) (auto_increment sel put)" "keeps (stored_log P) nowMs" "keeps (stored_log P) random_token"
  "keeps (stored_log P) next_message_id" "keeps (stored_log P) acquire" "keeps (stored_log P) (executeQuery q)"
  "keeps (stored_log P) begin_tx" "keeps (stored_log P) commit_tx" "keeps (stored_log P) rollback_tx"
  by (rule keeps_I; rule wp_intros; auto simp: stored_log_def stored_def split: option.splits)+

lemma keeps_log_executeUpdate:
  "(\<And>L t n t'. P L t \<Longrightarrow> stmt t = Some (n, t') \<Longrightarrow> P L t') \<Longrightarrow> keeps (stored_log P) (executeUpdate stmt)"
  by (rule keeps_I; rule wp_intros) (auto simp: stored_log_def stored_def)

lemma keeps_log_execute: "(\<And>L t. P L t \<Longrightarrow> P L (f t)) \<Longrightarrow> keeps (stored_log P) (execute f)"
  unfolding execute_def by (intro keeps_intros keeps_log_executeUpdate) auto

lemma keeps_log_produce: "(\<And>L x t. P L t \<Longrightarrow> P (L @ [x]) t) \<Longrightarrow> keeps (stored_log P) (produce a b c)"
  by (rule keeps_I; rule wp_intros) (auto simp: stored_log_def stored_def pred_option_def)

lemma keeps_log_with_tx [keeps_intros]: "(\<And>b. keeps (stored_log P) (body b)) \<Longrightarrow> keeps (stored_log P) (with_tx body)"
  unfolding with_tx_def by (intro keeps_intros)

lemma keeps_log_pooled [keeps_intros]: "keeps (stored_log P) m \<Longrightarrow> keeps (stored_log P) (pooled failed m)"
  unfolding pooled_def by (intro keeps_intros)

section \<open>The statements of the handlers and their laws\<close>

locale message_statements =
  fixes P :: "log \<Rightarrow> tables \<Rightarrow> bool" and opts :: MessageServiceOptions and codec :: payload_codec
  assumes sent_single: "P L t \<Longrightarrow> single_sent opts codec trace q mid now t t' \<Longrightarrow> P L t'"
    and sent_group: "P L t \<Longrightarrow> sr_target q \<noteq> 0 \<Longrightarrow> group_sent opts codec trace q members mid now t t' \<Longrightarrow> P L t'"
    and delivered: "P L t \<Longrightarrow> P L (sql_upsertDelivered mid u at t)"
    and marked_read: "P L t \<Longrightarrow> P L (sql_markRead mid u at t)"
    and read_up_to: "P L t \<Longrightarrow> P L (sql_markConversationRead conv u last_id last_time at t)"
    and pulled: "P L t \<Longrightarrow> P L (sql_markBatchAsPulled u mids at t)"
    and acked: "P L t \<Longrightarrow> P L (sql_markAsAcked u mid at t)"
    and offline: "P L t \<Longrightarrow> P L (sql_insertOfflineMessage m t)"
    and recalled: "P L t \<Longrightarrow> sql_recallMessage mid at t = Some (n, t') \<Longrightarrow> P L t'"
    and recount: "P L t \<Longrightarrow> P L (sql_recalculateUnread u conv at t)"
    and recount_all: "P L t \<Longrightarrow> P L (sql_recalculateUnreadForConversation conv at t)"
    and last_recalled: "P L t \<Longrightarrow> P L (sql_markLastMessageRecalled conv mid at t)"
    and event_added: "P L t \<Longrightarrow> ev_status e = PENDING \<Longrightarrow> sql_insertEvent e t = Some (n, t') \<Longrightarrow> P L t'"
begin

lemma keeps_reads:
  "keeps (stored_log P) (getUserById u)" "keeps (stored_log P) (getMessageById mid)"
  "keeps (stored_log P) (conversation_isOwner u conv)" "keeps (stored_log P) (getReadState mid)"
  "keeps (stored_log P) (listConversationMessages conv bt bi limit)" "keeps (stored_log P) (listOfflineMessages u limit)"
  unfolding getUserById_def getMessageById_def conversation_isOwner_def listConversationMessages_def
    listOfflineMessages_def getReadState_def
  by (intro keeps_intros)+

lemma keeps_insertEvent: "ev_status e = PENDING \<Longrightarrow> keeps (stored_log P) (insertEvent e)"
  unfolding insertEvent_def by (intro keeps_intros keeps_log_executeUpdate) (erule event_added, simp_all)

lemma keeps_recall_event: "keeps (stored_log P) (insertEvent (recall_event opts codec trace r eid now))"
  by (rule keeps_insertEvent) (simp add: recall_event_def makeOutboxEvent_def)

lemma keeps_statements:
  "keeps (stored_log P) (upsertDelivered_on mid u at)" "keeps (stored_log P) (receipt_markRead_on mid u at)"
  "keeps (stored_log P) (markConversationRead_on conv u last_id last_time at)"
  "keeps (stored_log P) (markBatchAsPulled_on u mids)" "keeps (stored_log P) (markAsAcked_on u mid)"
  "keeps (stored_log P) (insertOfflineMessage m)"
  "keeps (stored_log P) (recallMessage_on mid at)" "keeps (stored_log P) (recalculateUnread u conv at)"
  "keeps (stored_log P) (recalculateUnreadForConversation conv at)" "keeps (stored_log P) (markLastMessageRecalled conv mid at)"
  unfolding upsertDelivered_on_def receipt_markRead_on_def markConversationRead_on_def markBatchAsPulled_on_def
    markAsAcked_on_def insertOfflineMessage_def recallMessage_on_def recalculateUnread_def
    recalculateUnreadForConversation_def markLastMessageRecalled_def
  by (intro keeps_intros keeps_log_execute keeps_log_executeUpdate; (erule delivered marked_read read_up_to pulled acked
        offline recount recount_all last_recalled | erule (1) recalled))+

lemmas keeps_message_calls = keeps_intros keeps_reads keeps_recall_event keeps_statements

lemma keeps_stored_handlers:
  "keeps (stored_log P) (AckMessage ctx rid u mid)" "keeps (stored_log P) (PullOfflineMessages opts codec ctx rid u n)"
  "keeps (stored_log P) (MarkMessageRead ctx rid u mid)" "keeps (stored_log P) (MarkConversationRead ctx rid u conv mid)"
  "keeps (stored_log P) (RecallMessage opts codec ctx rid u mid)" "keeps (stored_log P) (GetMessageReadState ctx rid u mid)"
  "keeps (stored_log P) (ListConversationMessages ctx rid u conv n bt bi)"
  unfolding AckMessage_def PullOfflineMessages_def MarkMessageRead_def MarkConversationRead_def RecallMessage_def
    GetMessageReadState_def ListConversationMessages_def requireInternalRpc_def canReceiveMessage_def
    canReadConversation_def recall_in_tx_def
  by (intro keeps_message_calls)+

lemma keeps_SendSingleMessage: "keeps (idle_log P) (SendSingleMessage opts codec ctx q)"
proof (rule keeps_I)
  fix w assume "idle_log P w"
  then show "wp (SendSingleMessage opts codec ctx q) (\<lambda>_. idle_log P) w"
    by (intro wp_mono [OF wp_SendSingleMessage]) (auto simp: idle_log_def answered_def intro: sent_single)
qed

lemma keeps_SendGroupMessage: "keeps (idle_log P) (SendGroupMessage opts codec ctx q)"
proof (cases "sr_target q = 0")
  case True
  then show ?thesis
    unfolding SendGroupMessage_def requireInternalRpc_def by (simp add: keeps_intros)
next
  case False
  show ?thesis
  proof (rule keeps_I)
    fix w assume "idle_log P w"
    then show "wp (SendGroupMessage opts codec ctx q) (\<lambda>_. idle_log P) w"
      using False by (intro wp_mono [OF wp_SendGroupMessage]) (auto simp: idle_log_def answered_def intro: sent_group)
  qed
qed

end

text \<open>With a worker whose rounds keep the property, every sequence of calls does.\<close>

locale message_system = message_statements +
  fixes wopts :: OutboxWorkerOptions
  assumes worker: "keeps (idle_log P) (runOnce wopts)"
begin

lemma keeps_perform: "keeps (idle_log P) (perform opts codec wopts c)"
  by (cases c)
     (simp_all, (intro keeps_intros keeps_SendSingleMessage keeps_SendGroupMessage worker keeps_idle_log
        keeps_stored_handlers keeps_closed_handlers keeps_statements(6))+)

lemma keeps_perform_all: "keeps (idle_log P) (perform_all opts codec wopts cs)"
  by (induction cs) (auto intro!: keeps_intros keeps_perform)

end

text \<open>A property that neither looks at the state of an event nor minds a longer log is kept by the worker.\<close>

locale message_contents = message_statements +
  fixes wopts :: OutboxWorkerOptions
  assumes event_edited: "P L t \<Longrightarrow> (\<And>e. same_event (f e) e) \<Longrightarrow> P L (t\<lparr>outbox_events := update_where R f (outbox_events t)\<rparr>)"
    and log_extended: "P L t \<Longrightarrow> P (L @ [x]) t"
begin

lemma keeps_mark: "(\<And>now e. same_event (f now e) e) \<Longrightarrow> keeps (stored_log P) (mark eid token f)"
  unfolding mark_def
  by (intro keeps_intros keeps_log_executeUpdate) (auto simp: sql_mark_def Let_def intro!: event_edited)

lemma keeps_claim_rows: "keeps (stored_log P) (claim_rows token lease now es)"
  by (induction es)
     (auto simp: on_event_def intro!: keeps_intros keeps_log_execute event_edited)

lemma keeps_runOnce: "keeps (stored_log P) (runOnce wopts)"
proof -
  have "keeps (stored_log P) (run_batch wopts n)" for n
    by (induction n)
       (auto simp: claimPendingEvents_def publish_def publish_failed_def markPublished_def markFailed_def markDead_def Let_def
         intro!: keeps_intros keeps_claim_rows keeps_mark keeps_log_produce log_extended)
  then show ?thesis by (simp add: runOnce_def)
qed

end

sublocale message_contents \<subseteq> message_system P opts codec wopts
  by unfold_locales (intro keeps_idle_log keeps_runOnce keeps_closed_runOnce)

section \<open>The keys of the message tables\<close>

interpretation keys: message_contents "\<lambda>L. message_tables_ok" opts codec wopts
  for opts codec wopts
proof
  show "message_tables_ok t'" if "message_tables_ok t" "single_sent opts codec trace q mid now t t'" for t t' trace q mid now
    using that by (auto simp: single_sent_def Let_def intro: send_effect_ok inv_intros)
  show "message_tables_ok t'" if "message_tables_ok t" "sr_target q \<noteq> 0" "group_sent opts codec trace q members mid now t t'"
    for t t' trace q members mid now
    using that by (auto simp: group_sent_def Let_def intro: send_effect_ok inv_intros)
  show "message_tables_ok t'" if "message_tables_ok t" "sql_insertEvent e t = Some (n, t')" for t e n t'
    using that by (auto simp: message_tables_ok_def sql_insertEvent_def split: if_splits)
  show "message_tables_ok (t\<lparr>outbox_events := update_where R f (outbox_events t)\<rparr>)" if "message_tables_ok t" for t R f
    using that by (simp add: message_tables_ok_def)
qed (auto intro: inv_intros)

section \<open>Every message has its event\<close>

text \<open>The row of a message as it was sent: a recall sets only these fields.\<close>

definition as_sent :: "MessageRecord \<Rightarrow> MessageRecord" where
  "as_sent m = m\<lparr>m_status := MESSAGE_STATUS_SENT, m_recalled := False, m_recalled_at := 0, m_updated_at := m_created_at m\<rparr>"

definition event_of :: "MessageServiceOptions \<Rightarrow> payload_codec \<Rightarrow> MessageRecord \<Rightarrow> OutboxEvent \<Rightarrow> bool" where
  "event_of opts codec m e \<longleftrightarrow> ev_event_id e = m_message_id m
     \<and> ev_topic e = (if m_group_id m = 0 then topic_single opts else topic_group opts)
     \<and> ev_event_key e = to_string (unat (m_conversation_id m))
     \<and> (\<exists>trace. ev_payload e = serializeMessageData codec (toMessageData trace (as_sent m)))"

definition messages_evented :: "MessageServiceOptions \<Rightarrow> payload_codec \<Rightarrow> tables \<Rightarrow> bool" where
  "messages_evented opts codec t \<longleftrightarrow> (\<forall>m \<in> set (messages t). \<exists>e \<in> set (outbox_events t). event_of opts codec m e)"

lemma event_of_same: "same_event e' e \<Longrightarrow> event_of opts codec m e \<Longrightarrow> event_of opts codec m e'"
  by (auto simp: same_event_def event_of_def)

lemma statements_other [simp]:
  "messages (sql_upsertDelivered mid u at t) = messages t" "outbox_events (sql_upsertDelivered mid u at t) = outbox_events t"
  "messages (sql_markRead mid u at t) = messages t" "outbox_events (sql_markRead mid u at t) = outbox_events t"
  "messages (sql_markBatchAsPulled u mids at t) = messages t" "outbox_events (sql_markBatchAsPulled u mids at t) = outbox_events t"
  "messages (sql_markAsAcked u mid at t) = messages t" "outbox_events (sql_markAsAcked u mid at t) = outbox_events t"
  "messages (sql_insertOfflineMessage m t) = messages t" "outbox_events (sql_insertOfflineMessage m t) = outbox_events t"
  "messages (sql_recalculateUnread u conv at t) = messages t" "outbox_events (sql_recalculateUnread u conv at t) = outbox_events t"
  "messages (sql_recalculateUnreadForConversation conv at t) = messages t"
  "outbox_events (sql_recalculateUnreadForConversation conv at t) = outbox_events t"
  "messages (sql_markLastMessageRecalled conv mid at t) = messages t"
  "outbox_events (sql_markLastMessageRecalled conv mid at t) = outbox_events t"
  by (simp_all add: sql_upsertDelivered_def sql_markRead_def sql_markBatchAsPulled_def sql_markAsAcked_def
      sql_insertOfflineMessage_def sql_recalculateUnread_def sql_recalculateUnreadForConversation_def
      sql_markLastMessageRecalled_def Let_def)

lemma markConversationRead_other [simp]:
  "messages (sql_markConversationRead conv u last_id last_time at t) = messages t"
  "outbox_events (sql_markConversationRead conv u last_id last_time at t) = outbox_events t"
proof -
  have "messages (fold (\<lambda>m. sql_markRead (m_message_id m) u at) ms t) = messages t
      \<and> outbox_events (fold (\<lambda>m. sql_markRead (m_message_id m) u at) ms t) = outbox_events t" for ms :: "MessageRecord list"
    by (induction ms arbitrary: t) simp_all
  then show "messages (sql_markConversationRead conv u last_id last_time at t) = messages t"
    "outbox_events (sql_markConversationRead conv u last_id last_time at t) = outbox_events t"
    by (simp_all add: sql_markConversationRead_def)
qed

lemma send_effect_evented:
  assumes "messages_evented opts codec t" and "send_effect m C ev t t'" and "event_of opts codec m ev"
    and "\<And>t. messages (C t) = messages t" "\<And>t. outbox_events (C t) = outbox_events t"
  shows "messages_evented opts codec t'"
  using assms(1-3) by (auto simp: send_effect_def messages_evented_def Let_def assms(4,5) intro: event_of_same)

lemma event_of_record:
  "event_of opts codec (single_record q mid now) (makeOutboxEvent trace mid ''message'' mid (topic_single opts)
     (to_string (unat (m_conversation_id (single_record q mid now))))
     (serializeMessageData codec (toMessageData trace (single_record q mid now))) now)"
  "sr_target q \<noteq> 0 \<Longrightarrow> event_of opts codec (group_record q mid now) (makeOutboxEvent trace mid ''message'' mid (topic_group opts)
     (to_string (unat (m_conversation_id (group_record q mid now))))
     (serializeMessageData codec (toMessageData trace (group_record q mid now))) now)"
  by (auto simp: event_of_def makeOutboxEvent_def single_record_def group_record_def as_sent_def)

lemma recall_evented:
  assumes "messages_evented opts codec t" and "sql_recallMessage mid at t = Some (n, t')"
  shows "messages_evented opts codec t'"
proof -
  let ?f = "\<lambda>m. m\<lparr>m_recalled := True, m_recalled_at := at, m_status := MESSAGE_STATUS_RECALLED, m_updated_at := at\<rparr>"
  have f: "event_of opts codec (?f m) = event_of opts codec m" for m
    by (simp add: event_of_def as_sent_def toMessageData_def fun_eq_iff)
  have t': "messages t' = update_where (\<lambda>m. m_message_id m = mid \<and> \<not> m_recalled m) ?f (messages t)"
    "outbox_events t' = outbox_events t"
    using assms(2) by (auto simp: sql_recallMessage_def Let_def)
  show ?thesis
    using assms(1) unfolding messages_evented_def t' Ball_update_where f by simp
qed

lemma edited_evented:
  assumes "messages_evented opts codec t" and "\<And>e. same_event (f e) e"
  shows "messages_evented opts codec (t\<lparr>outbox_events := update_where R f (outbox_events t)\<rparr>)"
proof -
  have "\<exists>e \<in> set (outbox_events t). if R e then event_of opts codec m (f e) else event_of opts codec m e"
    if m: "m \<in> set (messages t)" for m
  proof -
    from m obtain e where "e \<in> set (outbox_events t)" "event_of opts codec m e"
      using assms(1) by (auto simp: messages_evented_def)
    then show ?thesis using event_of_same [OF assms(2)] by (intro bexI [of _ e]) auto
  qed
  then show ?thesis by (simp add: messages_evented_def Bex_update_where)
qed

interpretation events: message_contents "\<lambda>L. messages_evented opts codec" opts codec wopts
  for opts codec wopts
proof
  show "messages_evented opts codec t'" if "messages_evented opts codec t" "single_sent opts codec trace q mid now t t'"
    for t t' trace q mid now
    using that by (auto simp: single_sent_def Let_def intro: send_effect_evented event_of_record)
  show "messages_evented opts codec t'" if "messages_evented opts codec t" "sr_target q \<noteq> 0"
    "group_sent opts codec trace q members mid now t t'" for t t' trace q members mid now
    using that by (auto simp: group_sent_def Let_def intro: send_effect_evented event_of_record)
  show "messages_evented opts codec t'" if "messages_evented opts codec t" "sql_recallMessage mid at t = Some (n, t')"
    for t mid at n t'
    using that by (rule recall_evented)
  show "messages_evented opts codec t'" if "messages_evented opts codec t" "sql_insertEvent e t = Some (n, t')" for t e n t'
    using that by (auto simp: sql_insertEvent_def messages_evented_def split: if_splits)
  show "messages_evented opts codec (t\<lparr>outbox_events := update_where R f (outbox_events t)\<rparr>)"
    if "messages_evented opts codec t" "\<And>e. same_event (f e) e" for t R f
    using that by (rule edited_evented)
qed (simp_all add: messages_evented_def)

section \<open>Stored messages stay\<close>

definition still_stored :: "MessageRecord \<Rightarrow> tables \<Rightarrow> bool" where
  "still_stored m t \<longleftrightarrow> (\<exists>m' \<in> set (messages t). as_sent m' = as_sent m)"

interpretation storage: message_contents "\<lambda>L. still_stored m" opts codec wopts
  for m opts codec wopts
proof
  show "still_stored m t'" if "still_stored m t" "single_sent opts codec trace q mid now t t'" for t t' trace q mid now
    using that by (auto simp: single_sent_def Let_def send_effect_def still_stored_def)
  show "still_stored m t'" if "still_stored m t" "group_sent opts codec trace q members mid now t t'"
    for t t' trace q members mid now
    using that by (auto simp: group_sent_def Let_def send_effect_def still_stored_def)
  show "still_stored m t'" if "still_stored m t" "sql_recallMessage mid at t = Some (n, t')" for t mid at n t'
  proof -
    let ?f = "\<lambda>m. m\<lparr>m_recalled := True, m_recalled_at := at, m_status := MESSAGE_STATUS_RECALLED, m_updated_at := at\<rparr>"
    have f: "as_sent (?f m') = as_sent m'" for m' by (simp add: as_sent_def)
    have t': "messages t' = update_where (\<lambda>m. m_message_id m = mid \<and> \<not> m_recalled m) ?f (messages t)"
      using that(2) by (auto simp: sql_recallMessage_def Let_def)
    show ?thesis
      using that(1) unfolding still_stored_def t' Bex_update_where f by simp
  qed
  show "still_stored m t'" if "still_stored m t" "sql_insertEvent e t = Some (n, t')" for t e n t'
    using that by (auto simp: sql_insertEvent_def still_stored_def split: if_splits)
qed (simp_all add: still_stored_def)

section \<open>Acknowledged means never pulled again\<close>

definition is_acked :: "u64 \<Rightarrow> u64 \<Rightarrow> tables \<Rightarrow> bool" where
  "is_acked u mid t \<longleftrightarrow> offline_ok (offline_messages t) \<and>
     (\<exists>r \<in> set (offline_messages t). same_offline u mid r \<and> om_status r = 2)"

lemma offline_other [simp]:
  "offline_messages (sql_upsertDelivered mid u at t) = offline_messages t"
  "offline_messages (sql_markRead mid u at t) = offline_messages t"
  "offline_messages (sql_recalculateUnread u conv at t) = offline_messages t"
  "offline_messages (sql_recalculateUnreadForConversation conv at t) = offline_messages t"
  "offline_messages (sql_markLastMessageRecalled conv mid at t) = offline_messages t"
  by (simp_all add: sql_upsertDelivered_def sql_markRead_def sql_recalculateUnread_def
      sql_recalculateUnreadForConversation_def sql_markLastMessageRecalled_def)

lemma offline_markConversationRead [simp]:
  "offline_messages (sql_markConversationRead conv u last_id last_time at t) = offline_messages t"
proof -
  have "offline_messages (fold (\<lambda>m. sql_markRead (m_message_id m) u at) ms t) = offline_messages t"
    for ms :: "MessageRecord list"
    by (induction ms arbitrary: t) simp_all
  then show ?thesis by (simp add: sql_markConversationRead_def)
qed

lemma is_acked_update:
  assumes "is_acked u mid t" and "offline_messages t' = update_where Q f (offline_messages t)"
    and "\<And>r. Q r \<Longrightarrow> om_user_id (f r) = om_user_id r" "\<And>r. Q r \<Longrightarrow> om_message_id (f r) = om_message_id r"
    and "\<And>r. Q r \<Longrightarrow> om_status r = 2 \<Longrightarrow> om_status (f r) = 2"
  shows "is_acked u mid t'"
proof -
  obtain r where r: "r \<in> set (offline_messages t)" "same_offline u mid r" "om_status r = 2"
    using assms(1) by (auto simp: is_acked_def)
  have "\<exists>r \<in> set (offline_messages t'). same_offline u mid r \<and> om_status r = 2"
    unfolding assms(2) Bex_update_where using r assms(3-5) by (intro bexI [of _ r]) (auto simp: same_offline_def)
  then show ?thesis using assms by (simp add: is_acked_def offline_ok_update)
qed

lemma is_acked_statements:
  assumes "is_acked u mid t"
  shows "is_acked u mid (sql_markBatchAsPulled v mids at t)" "is_acked u mid (sql_markAsAcked v mid' at t)"
    "is_acked u mid (sql_insertOfflineMessage m t)"
proof -
  show "is_acked u mid (sql_markBatchAsPulled v mids at t)"
    by (rule is_acked_update [OF assms], simp add: sql_markBatchAsPulled_def) auto
  show "is_acked u mid (sql_markAsAcked v mid' at t)"
    by (rule is_acked_update [OF assms], simp add: sql_markAsAcked_def) auto
  show "is_acked u mid (sql_insertOfflineMessage m t)"
  proof (cases "list_ex (same_offline (om_user_id m) (om_message_id m)) (offline_messages t)")
    case True
    show ?thesis
      by (rule is_acked_update [OF assms], simp add: True sql_insertOfflineMessage_def Let_def upsert_def) auto
  next
    case False
    then have "offline_messages (sql_insertOfflineMessage m t)
        = offline_messages t @ [m\<lparr>om_payload := toHex (om_payload m)\<rparr>]"
      by (simp add: sql_insertOfflineMessage_def Let_def upsert_def)
    then show ?thesis
      using False assms by (auto simp: is_acked_def offline_ok_def list_ex_iff same_offline_def)
  qed
qed

interpretation acks: message_contents "\<lambda>L. is_acked u mid" opts codec wopts
  for u mid opts codec wopts
proof
  show "is_acked u mid t'" if "is_acked u mid t" "single_sent opts codec trace q mid' now t t'" for t t' trace q mid' now
    using that by (auto simp: single_sent_def Let_def send_effect_def is_acked_def)
  show "is_acked u mid t'" if "is_acked u mid t" "group_sent opts codec trace q members mid' now t t'"
    for t t' trace q members mid' now
    using that by (auto simp: group_sent_def Let_def send_effect_def is_acked_def)
  show "is_acked u mid t'" if "is_acked u mid t" "sql_recallMessage mid' at t = Some (n, t')" for t mid' at n t'
    using that by (auto simp: sql_recallMessage_def Let_def is_acked_def)
  show "is_acked u mid t'" if "is_acked u mid t" "sql_insertEvent e t = Some (n, t')" for t e n t'
    using that by (auto simp: sql_insertEvent_def is_acked_def split: if_splits)
qed (simp_all add: is_acked_statements, simp_all add: is_acked_def)

lemma acked_not_listed:
  assumes "is_acked u mid t" and "x \<in> set (sql_listOfflineMessages u limit t)"
  shows "om_message_id x \<noteq> mid"
proof
  assume x: "om_message_id x = mid"
  obtain r where r: "r \<in> set (offline_messages t)" "om_user_id r = u" "om_message_id r = mid" "om_status r = 2"
    using assms(1) by (auto simp: is_acked_def same_offline_def)
  obtain y where y: "y \<in> set (offline_messages t)" "om_user_id y = u" "om_status y \<noteq> 2" "x = parseOffline y"
    using assms(2) by (auto simp: sql_listOfflineMessages_def dest!: in_set_takeD)
  then have "om_message_id y = mid" using x by (simp add: parseOffline_def)
  with r y have "r = y"
    using assms(1) by (auto simp: is_acked_def offline_ok_def distinct_map dest!: inj_onD)
  with r y show False by simp
qed

section \<open>Published means logged\<close>

text \<open>An event marked as published is in the Kafka log under its topic, an event given up is in the log
  under the dead letter topic.\<close>

definition log_record :: "string \<Rightarrow> OutboxEvent \<Rightarrow> string \<times> string \<times> string" where
  "log_record topic e = (topic, ev_event_key e, ev_payload e)"

definition event_ok :: "string \<Rightarrow> log \<Rightarrow> OutboxEvent \<Rightarrow> bool" where
  "event_ok dlq L e \<longleftrightarrow> ev_status e \<in> {PENDING, PUBLISHED, FAILED, DEAD, PUBLISHING}
     \<and> (ev_status e = PUBLISHED \<longrightarrow> log_record (ev_topic e) e \<in> set L)
     \<and> (ev_status e = DEAD \<longrightarrow> log_record dlq e \<in> set L)"

definition events_logged :: "string \<Rightarrow> log \<Rightarrow> tables \<Rightarrow> bool" where
  "events_logged dlq L t \<longleftrightarrow> distinct (map ev_event_id (outbox_events t)) \<and> (\<forall>e \<in> set (outbox_events t). event_ok dlq L e)"

lemma events_logged_added:
  assumes "events_logged dlq L t" and "outbox_events t' = outbox_events t @ [e]" and "ev_status e = PENDING"
    and "ev_event_id e \<notin> ev_event_id ` set (outbox_events t)"
  shows "events_logged dlq L t'"
  using assms by (auto simp: events_logged_def event_ok_def outbox_status_defs)

lemma events_logged_send:
  assumes "events_logged dlq L t" and "send_effect m C ev t t'" and "\<And>t. outbox_events (C t) = outbox_events t"
  shows "events_logged dlq L t'"
  using assms(2)
  by (auto simp: send_effect_def Let_def assms(3) same_event_def image_iff intro!: events_logged_added [OF assms(1)])

interpretation publications: message_statements "events_logged dlq" opts codec
  for dlq opts codec
proof
  show "events_logged dlq L t'" if "events_logged dlq L t" "single_sent opts codec trace q mid now t t'" for L t t' trace q mid now
    using that by (auto simp: single_sent_def Let_def intro: events_logged_send)
  show "events_logged dlq L t'" if "events_logged dlq L t" "group_sent opts codec trace q members mid now t t'"
    for L t t' trace q members mid now
    using that by (auto simp: group_sent_def Let_def intro: events_logged_send)
  show "events_logged dlq L t'" if "events_logged dlq L t" "sql_recallMessage mid at t = Some (n, t')" for L t mid at n t'
    using that by (auto simp: sql_recallMessage_def Let_def events_logged_def)
  show "events_logged dlq L t'" if "events_logged dlq L t" "ev_status e = PENDING" "sql_insertEvent e t = Some (n, t')" for L t e n t'
    using that(1)
    by (rule events_logged_added [where e = e]) (use that in \<open>auto simp: sql_insertEvent_def list_ex_iff split: if_splits\<close>)
qed (simp_all add: events_logged_def)

lemma events_logged_edited:
  assumes "events_logged dlq L t" and "outbox_events t' = update_where R f (outbox_events t)"
    and "\<And>e. R e \<Longrightarrow> same_event (f e) e"
    and "\<And>e. e \<in> set (outbox_events t) \<Longrightarrow> R e \<Longrightarrow> event_ok dlq L (f e)"
  shows "events_logged dlq L t'"
proof -
  have "distinct (map ev_event_id (outbox_events t'))"
    unfolding assms(2) using assms(1,3) by (subst map_update_where_key) (auto simp: events_logged_def same_event_def)
  moreover have "\<forall>e \<in> set (outbox_events t'). event_ok dlq L e"
    unfolding assms(2) Ball_update_where using assms(1,4) by (auto simp: events_logged_def)
  ultimately show ?thesis by (simp add: events_logged_def)
qed

text \<open>A worker only marks the event it claimed: the rows of that id have the contents it produced.\<close>

definition has_event :: "OutboxEvent \<Rightarrow> tables \<Rightarrow> bool" where
  "has_event e t \<longleftrightarrow> (\<forall>r \<in> set (outbox_events t). ev_event_id r = ev_event_id e \<longrightarrow> same_event r e)"

definition held_event :: "string \<Rightarrow> OutboxEvent \<Rightarrow> log \<Rightarrow> tables \<Rightarrow> bool" where
  "held_event dlq e L t \<longleftrightarrow> events_logged dlq L t \<and> has_event e t"

lemma has_event_row:
  assumes "events_logged dlq L t" and "r \<in> set (outbox_events t)" and "same_event r e"
  shows "has_event e t"
proof -
  have "r' = r" if "r' \<in> set (outbox_events t)" "ev_event_id r' = ev_event_id r" for r'
    using assms(1,2) that by (auto simp: events_logged_def distinct_map dest: inj_onD)
  with assms(3) show ?thesis by (auto simp: has_event_def same_event_def)
qed

lemma held_event_edited:
  assumes "held_event dlq x L t" and "outbox_events t' = update_where R f (outbox_events t)"
    and "\<And>e. same_event (f e) e"
    and "\<And>e. e \<in> set (outbox_events t) \<Longrightarrow> R e \<Longrightarrow> event_ok dlq L (f e)"
  shows "held_event dlq x L t'"
proof -
  have f: "same_event (f r) x" if "ev_event_id r = ev_event_id x \<longrightarrow> same_event r x" "ev_event_id (f r) = ev_event_id x" for r
    using that assms(3) [of r] by (auto simp: same_event_def)
  have "has_event x t'"
    unfolding has_event_def assms(2) Ball_update_where
    using assms(1) by (auto simp: held_event_def has_event_def intro: f)
  moreover have "events_logged dlq L t'"
    by (rule events_logged_edited [OF _ assms(2)]) (use assms in \<open>auto simp: held_event_def\<close>)
  ultimately show ?thesis by (simp add: held_event_def)
qed

lemma wp_mark_held:
  assumes w: "idle_log (held_event dlq e) w" and f: "\<And>now e'. same_event (f now e') e'"
    and "\<And>now e'. same_event e' e \<Longrightarrow> event_ok dlq (kafka w) (f now e')"
    and Q: "\<And>r w'. idle_log (held_event dlq e) w' \<Longrightarrow> Q r w'"
  shows "wp (mark (ev_event_id e) token f) Q w"
proof -
  have "held_event dlq e (kafka w) t" if "sql_mark (ev_event_id e) token (f now) (db w) = Some (n, t)" for now n t
  proof (rule held_event_edited)
    let ?R = "\<lambda>e'. ev_event_id e' = ev_event_id e \<and> ev_status e' = PUBLISHING \<and> ev_claim_token e' = token"
    show "held_event dlq e (kafka w) (db w)" using w by (simp add: idle_log_def)
    show "outbox_events t = update_where ?R (f now) (outbox_events (db w))"
      using that by (auto simp: sql_mark_def Let_def)
    show "same_event (f now e') e'" for e' by (rule f)
    show "event_ok dlq (kafka w) (f now e')" if "e' \<in> set (outbox_events (db w))" "?R e'" for e'
      by (rule assms(3)) (use w that in \<open>auto simp: idle_log_def held_event_def has_event_def\<close>)
  qed
  then show ?thesis
    unfolding mark_def using w by (intro wp_intros) (auto simp: idle_log_def intro!: wp_return Q)
qed

lemma held_event_longer: "held_event dlq e L t \<Longrightarrow> held_event dlq e (L @ xs) t"
  by (auto simp: held_event_def events_logged_def event_ok_def)

lemma event_ok_rows:
  "event_ok dlq L (failed_row retry at now e)" "event_ok dlq L (claim_row token lease now e)"
  "same_event e' e \<Longrightarrow> (ev_topic e, ev_event_key e, ev_payload e) \<in> set L \<Longrightarrow> event_ok dlq L (published_row now e')"
  "same_event e' e \<Longrightarrow> (dlq, ev_event_key e, ev_payload e) \<in> set L \<Longrightarrow> event_ok dlq L (dead_row now e')"
  by (auto simp: event_ok_def failed_row_def claim_row_def published_row_def dead_row_def log_record_def same_event_def
      outbox_status_defs)

lemma wp_publish_held:
  assumes "idle_log (held_event (dlq_topic opts) e) w"
  shows "wp (publish opts e) (\<lambda>_. idle_log (held_event (dlq_topic opts) e)) w"
  unfolding publish_def publish_failed_def markPublished_def markFailed_def markDead_def Let_def
  by (intro wp_bind wp_produce wp_if wp_return wp_nowMs wp_mark_held)
     (use assms in \<open>simp_all add: idle_log_def held_event_longer event_ok_rows\<close>)

lemma wp_all: "(\<And>x. x \<in> A \<Longrightarrow> wp m (Q x) w) \<Longrightarrow> wp m (\<lambda>r w'. \<forall>x \<in> A. Q x r w') w"
  by (auto simp: wp_def split: prod.splits)

lemma keeps_claim_held: "keeps (stored_log (held_event dlq x)) (claim_rows token lease now es)"
proof (induction es)
  case (Cons e es)
  have "keeps (stored_log (held_event dlq x)) (execute (on_event (ev_event_id e) (claim_row token lease now)))"
  proof (rule keeps_log_execute)
    fix L t assume "held_event dlq x L t"
    then show "held_event dlq x L (on_event (ev_event_id e) (claim_row token lease now) t)"
      by (rule held_event_edited [where f = "claim_row token lease now"]) (auto simp: on_event_def event_ok_rows)
  qed
  with Cons.IH show ?case by (auto intro!: keeps_intros)
qed (simp add: keeps_intros)

lemma wp_claim_rows_same:
  "wp (claim_rows token lease now es) (\<lambda>r _. \<forall>es'. r = Some es' \<longrightarrow> (\<forall>e' \<in> set es'. \<exists>e \<in> set es. same_event e e')) w"
proof (induction es arbitrary: w)
  case Nil
  show ?case by (simp add: wp_return)
next
  case (Cons e es)
  have "same_event e (e\<lparr>ev_claim_token := token\<rparr>)" by (simp add: same_event_def)
  then show ?case
    by (simp, intro wp_intros wp_mono [OF Cons.IH]) (auto, blast)
qed

lemma wp_claim_rows_frame: "wp (claim_rows token lease now es) (\<lambda>_ v. kafka v = kafka w \<and> tx v = tx w) w"
proof (induction es arbitrary: w)
  case (Cons e es)
  show ?case
    by (simp, intro wp_intros wp_mono [OF Cons.IH]) auto
qed (simp add: wp_return)

lemma keeps_claim_logged: "keeps (stored_log (events_logged dlq)) (claim_rows token lease now es)"
proof (induction es)
  case (Cons e es)
  have "keeps (stored_log (events_logged dlq)) (execute (on_event (ev_event_id e) (claim_row token lease now)))"
  proof (rule keeps_log_execute)
    fix L t assume "events_logged dlq L t"
    then show "events_logged dlq L (on_event (ev_event_id e) (claim_row token lease now) t)"
      by (rule events_logged_edited [where f = "claim_row token lease now"]) (auto simp: on_event_def event_ok_rows)
  qed
  with Cons.IH show ?case by (auto intro!: keeps_intros)
qed (simp add: keeps_intros)

lemma wp_claim_rows_held:
  assumes v: "db v = db w" "tx v = Some (db w)" "kafka v = kafka w"
    and es: "set es \<subseteq> set (outbox_events (db w))" and w: "events_logged dlq (kafka w) (db w)"
    and R: "\<And>r v'. kafka v' = kafka w \<Longrightarrow> tx v' = Some (db w) \<Longrightarrow> events_logged dlq (kafka w) (db v') \<Longrightarrow>
         (\<And>es'. r = Some es' \<Longrightarrow> \<forall>e \<in> set es'. has_event e (db v')) \<Longrightarrow> R r v'"
  shows "wp (claim_rows token lease now es) R v"
proof (rule wp_mono)
  have "stored_log (held_event dlq x) v" if "x \<in> set es" for x
    using that es v w has_event_row [of dlq "kafka w" "db w" x x]
    by (auto simp: stored_log_def stored_def held_event_def)
  then have held: "wp (claim_rows token lease now es) (\<lambda>_ v'. \<forall>x \<in> set es. stored_log (held_event dlq x) v') v"
    by (intro wp_all) (use keeps_claim_held in \<open>auto simp: keeps_def\<close>)
  have logged: "wp (claim_rows token lease now es) (\<lambda>_. stored_log (events_logged dlq)) v"
    using keeps_claim_logged v w by (auto simp: keeps_def stored_log_def stored_def)
  show "wp (claim_rows token lease now es) (\<lambda>r v'. (kafka v' = kafka v \<and> tx v' = tx v) \<and> stored_log (events_logged dlq) v'
      \<and> (\<forall>x \<in> set es. stored_log (held_event dlq x) v')
      \<and> (\<forall>es'. r = Some es' \<longrightarrow> (\<forall>e' \<in> set es'. \<exists>e \<in> set es. same_event e e'))) v"
    by (intro wp_conj wp_claim_rows_frame held logged wp_claim_rows_same)
next
  have same: "has_event e t" if "has_event x t" "same_event x e" for x e t
    using that by (auto simp: has_event_def same_event_def)
  show "R r v'" if "(kafka v' = kafka v \<and> tx v' = tx v) \<and> stored_log (events_logged dlq) v'
      \<and> (\<forall>x \<in> set es. stored_log (held_event dlq x) v')
      \<and> (\<forall>es'. r = Some es' \<longrightarrow> (\<forall>e' \<in> set es'. \<exists>e \<in> set es. same_event e e'))" for r v'
    using that v by (intro R) (auto simp: stored_log_def stored_def held_event_def, blast intro: same)
qed

lemma wp_claim_held:
  assumes w: "idle_log (events_logged dlq) w"
    and Q: "\<And>es w'. idle_log (events_logged dlq) w' \<Longrightarrow> \<forall>e \<in> set es. has_event e (db w') \<Longrightarrow> Q es w'"
  shows "wp (claimPendingEvents n now lease) Q w"
proof -
  have pending: "set (sql_pending R n (db w)) \<subseteq> set (outbox_events (db w))" for R
    by (auto simp: sql_pending_def dest: in_set_takeD)
  have w': "events_logged dlq (kafka w) (db w)" "tx w = None" using w by (auto simp: idle_log_def)
  show ?thesis
    unfolding claimPendingEvents_def
    by (intro wp_pooled wp_with_tx wp_if wp_bind wp_Let wp_return wp_executeQuery wp_random_token
          wp_claim_rows_held [OF _ _ _ _ w'(1)] wp_case_option wp_commit_tx)
       (use pending w' in \<open>auto simp: idle_log_def intro!: Q split: if_splits\<close>)
qed

lemma keeps_runOnce_logged: "keeps (idle_log (events_logged (dlq_topic wopts))) (runOnce wopts)"
proof -
  have "wp (run_batch wopts n) (\<lambda>_. idle_log (events_logged (dlq_topic wopts))) w"
    if "idle_log (events_logged (dlq_topic wopts)) w" for n w
    using that
  proof (induction n arbitrary: w)
    case (Suc n)
    show ?case
      unfolding run_batch.simps
      by (intro wp_bind wp_nowMs wp_claim_held [of "dlq_topic wopts"] wp_case_list wp_return wp_mono [OF wp_publish_held] Suc.IH)
         (use Suc.prems in \<open>auto simp: idle_log_def held_event_def\<close>)
  qed (simp add: wp_return)
  then show ?thesis by (simp add: runOnce_def keeps_def)
qed

interpretation deliveries: message_system "events_logged (dlq_topic wopts)" opts codec wopts
  for opts codec wopts
  by unfold_locales (rule keeps_runOnce_logged)

end
