(* ===== verification/Message_Properties.thy ===== *)
theory Message_Properties
  imports Message_Invariants
begin

text \<open>
  The properties of the message service: what one send does to the tables, that a repeated send changes
  nothing, who may send, recall and read, what every sequence of calls keeps, and that a stored message
  is in the Kafka log or still queued for it.
\<close>

section \<open>A small instance\<close>

text \<open>Users 1 and 2 are friends and the members of group 7; user 3 knows nobody.\<close>

definition example_user :: "u64 \<Rightarrow> User" where
  "example_user u = \<lparr>user_id = u, username = [], password_hash = [], nickname = [], avatar = [],
     user_created_at = 0, user_updated_at = 0\<rparr>"

definition example_friend :: "u64 \<Rightarrow> u64 \<Rightarrow> Friendship" where
  "example_friend a b = \<lparr>fs_user_id = a, fs_friend_id = b, fs_status = 1, fs_created_at = 0, fs_updated_at = 0\<rparr>"

definition example_member :: "u64 \<Rightarrow> int \<Rightarrow> GroupMember" where
  "example_member u r = \<lparr>gm_group_id = 7, gm_user_id = u, gm_role = r, gm_created_at = 0, gm_updated_at = 0\<rparr>"

definition chat_tables :: tables where
  "chat_tables = empty_tables\<lparr>users := map example_user [1, 2, 3], friendships := [example_friend 1 2, example_friend 2 1],
     groups := [\<lparr>group_row_id = 7, group_name = ''g'', owner_id = 1, group_created_at = 0, group_updated_at = 0\<rparr>],
     group_members := [example_member 1 1, example_member 2 0]\<rparr>"

definition chat_world :: world where
  "chat_world = \<lparr>db = chat_tables, tx = None, seqs = \<lparr>user_seq = 3, request_seq = 0, group_seq = 7, outbox_seq = 0\<rparr>,
     redis = \<lparr>kv = (\<lambda>_. None), smembers_of = (\<lambda>_. [])\<rparr>, kafka = [], script = [],
     clock = [100, 101, 102, 103, 104, 105], random = [''t'', ''u''], ids = [50, 51, 52], gateways = (\<lambda>_. None), pushed = []\<rparr>"

definition plain_codec :: payload_codec where
  "plain_codec = \<lparr>serializeMessageData = (\<lambda>d. md_content d),
     deserializeMessageData = (\<lambda>s. Some (toMessageData [] (single_record \<lparr>sr_request_id = [], sr_from_user_id = 0,
        sr_target = 0, sr_content_type = 0, sr_content = s, sr_client_sequence_id = 0\<rparr> 0 0)))\<rparr>"

definition caller :: rpc_context where
  "caller = \<lparr>rpc_authorized = True, rpc_trace = ''tr''\<rparr>"

definition hello :: "u64 \<Rightarrow> u64 \<Rightarrow> SendRequest" where
  "hello a b = \<lparr>sr_request_id = ''r'', sr_from_user_id = a, sr_target = b, sr_content_type = 1, sr_content = ''hi'',
     sr_client_sequence_id = 9\<rparr>"

abbreviation send_hello :: "u64 \<Rightarrow> u64 \<Rightarrow> (u64 \<times> int) reply io" where
  "send_hello a b \<equiv> SendSingleMessage default_MessageServiceOptions plain_codec caller (hello a b)"

lemma chat_world_simps [simp]: "db chat_world = chat_tables" "tx chat_world = None" "kafka chat_world = []"
  by (simp_all add: chat_world_def)

lemma caller_simps [simp]: "rpc_authorized caller" "rpc_trace caller = ''tr''"
  by (simp_all add: caller_def)

lemma hello_simps [simp]: "sr_from_user_id (hello a b) = a" "sr_target (hello a b) = b" "sr_client_sequence_id (hello a b) = 9"
  by (simp_all add: hello_def)

section \<open>One send\<close>

text \<open>
  C4. A single message is sent entirely or not at all, whatever calls fail or lose their answers: after
  the handler the tables are unchanged, or they hold one new message, the upserted conversations of both
  users and one new pending event. No transaction stays open and nothing is published by the handler.
  A positive reply names the new message after that whole effect, or, with unchanged tables, an earlier
  message of the sender with the same client sequence.
\<close>

theorem SendSingleMessage_all_or_nothing:
  assumes "tx w = None" and "run_state (SendSingleMessage opts codec ctx q) w = (r, w')"
  shows "tx w' = None \<and> kafka w' = kafka w \<and>
     answered q (\<lambda>mid now. single_sent opts codec (rpc_trace ctx) q mid now (db w) (db w')) (db w) (db w') r"
  using wp_I [OF wp_SendSingleMessage [OF assms(1)] assms(2)] by blast

theorem SendSingleMessage_all_or_nothing_witness:
  "let (r, w') = run_state (send_hello 1 2) chat_world
   in answered (hello 1 2) (\<lambda>mid now. single_sent default_MessageServiceOptions plain_codec ''tr'' (hello 1 2) mid now
        chat_tables (db w')) chat_tables (db w') r"
  using SendSingleMessage_all_or_nothing [of chat_world default_MessageServiceOptions plain_codec caller "hello 1 2"]
  by (simp split: prod.splits)



lemma send_effect_new:
  assumes "send_effect m C ev t t'" and "old \<in> set (messages t)"
  shows "\<not> clashes m old"
  using assms by (auto simp: send_effect_def list_ex_iff)

lemma repeats_clashes:
  "repeats q old \<Longrightarrow> clashes (single_record q mid now) old" "repeats q old \<Longrightarrow> clashes (group_record q mid now) old"
  by (simp_all add: repeats_def clashes_def single_record_def group_record_def)

lemma not_sent_again:
  assumes "old \<in> set (messages t)" and "repeats q old"
  shows "\<not> single_sent opts codec trace q mid now t t'" "\<not> group_sent opts codec trace q members mid now t t'"
  using repeats_clashes [OF assms(2)] send_effect_new [OF _ assms(1)]
  unfolding single_sent_def group_sent_def Let_def by blast+

lemma repeats_unique:
  assumes "messages_ok ms" and "old \<in> set ms" "repeats q old" and "old' \<in> set ms" "repeats q old'"
  shows "old' = old"
proof -
  let ?ms = "filter (\<lambda>m. m_client_sequence_id m \<noteq> 0) ms"
  have "inj_on (\<lambda>m. (m_from_user_id m, m_client_sequence_id m)) (set ?ms)"
    using assms(1) by (simp add: messages_ok_def distinct_map)
  then show ?thesis by (rule inj_onD) (use assms(2-) in \<open>auto simp: repeats_def\<close>)
qed

lemma answered_repeat:
  assumes "messages_ok (messages t)" and "old \<in> set (messages t)" and "repeats q old"
    and "answered q sent t t' r" and "\<And>mid now. \<not> sent mid now"
  shows "t' = t \<and> (is_ok (fst r) \<longrightarrow> snd r = (m_message_id old, m_created_at old))"
proof -
  have "t' = t" using assms(4,5) unfolding answered_def by blast
  moreover have "snd r = (m_message_id old, m_created_at old)" if ok: "is_ok (fst r)"
  proof -
    obtain old' where "old' \<in> set (messages t)" "repeats q old'" "snd r = (m_message_id old', m_created_at old')"
      using assms(4,5) ok unfolding answered_def by blast
    with repeats_unique [OF assms(1-3)] show ?thesis by blast
  qed
  ultimately show ?thesis by blast
qed

text \<open>
  C6. Sending is idempotent: once a message of a sender with some client sequence is stored, a further
  single or group send with that sequence, under every fault pattern, changes no table, and a positive
  reply carries the id and the time of the stored message.
\<close>

theorem resend_is_idempotent:
  assumes "tx w = None" and "messages_ok (messages (db w))" and "old \<in> set (messages (db w))" and "repeats q old"
    and "send = SendSingleMessage \<or> send = SendGroupMessage" and "run_state (send opts codec ctx q) w = (r, w')"
  shows "db w' = db w \<and> (is_ok (fst r) \<longrightarrow> snd r = (m_message_id old, m_created_at old))"
  using assms(5)
proof
  assume s: "send = SendSingleMessage"
  show ?thesis
    using wp_I [OF wp_SendSingleMessage [OF assms(1)] assms(6) [unfolded s]] not_sent_again [OF assms(3,4)]
    by (intro answered_repeat [OF assms(2-4)]) blast+
next
  assume s: "send = SendGroupMessage"
  obtain members where "answered q (\<lambda>mid now. group_sent opts codec (rpc_trace ctx) q members mid now (db w) (db w')) (db w) (db w') r"
    using wp_I [OF wp_SendGroupMessage [OF assms(1)] assms(6) [unfolded s]] by blast
  then show ?thesis
    using not_sent_again [OF assms(3,4)] by (intro answered_repeat [OF assms(2-4)]) blast+
qed

definition sent_hello :: world where
  "sent_hello = chat_world\<lparr>db := chat_tables\<lparr>messages := [single_record (hello 1 2) 50 100]\<rparr>\<rparr>"

theorem resend_is_idempotent_witness:
  "db (snd (run_state (send_hello 1 2) sent_hello)) = db sent_hello"
proof -
  let ?old = "single_record (hello 1 2) 50 100"
  obtain r w' where run: "run_state (send_hello 1 2) sent_hello = (r, w')" by fastforce
  have "db w' = db sent_hello"
    by (rule resend_is_idempotent [THEN conjunct1, OF _ _ _ _ disjI1 [OF refl] run, of ?old])
       (simp_all add: sent_hello_def messages_ok_def repeats_def single_record_def)
  then show ?thesis by (simp add: run)
qed

text \<open>
  C7. Nobody writes to strangers: a call that is not an authenticated internal one, a single message
  between users who are not friends of each other, and a group message from a user who is not a member,
  change no table and are answered by an error, under every fault pattern.
\<close>

theorem strangers_cannot_send:
  assumes "tx w = None"
    and "run_state (SendSingleMessage opts codec ctx q) w = (r, w')"
    and "run_state (SendGroupMessage opts codec ctx g) w = (s, v)"
  shows "(\<not> rpc_authorized ctx \<or> \<not> friends (db w) (sr_from_user_id q) (sr_target q)
            \<or> \<not> friends (db w) (sr_target q) (sr_from_user_id q) \<longrightarrow> db w' = db w \<and> \<not> is_ok (fst r)) \<and>
         (\<not> rpc_authorized ctx \<or> \<not> list_ex (same_member (sr_target g) (sr_from_user_id g)) (group_members (db w))
            \<longrightarrow> db v = db w \<and> \<not> is_ok (fst s))"
  using wp_I [OF wp_SendSingleMessage [OF assms(1)] assms(2)] wp_I [OF wp_SendGroupMessage [OF assms(1)] assms(3)]
  by blast

theorem strangers_cannot_send_witness:
  "db (snd (run_state (send_hello 1 3) chat_world)) = chat_tables
   \<and> \<not> is_ok (fst (fst (run_state (send_hello 1 3) chat_world)))"
proof -
  have "\<not> friends chat_tables 1 3"
    by (simp add: friends_def chat_tables_def example_friend_def same_friendship_def)
  moreover obtain r w' where run: "run_state (send_hello 1 3) chat_world = (r, w')" by fastforce
  moreover obtain s v where
    "run_state (SendGroupMessage default_MessageServiceOptions plain_codec caller (hello 1 3)) chat_world = (s, v)" by fastforce
  ultimately show ?thesis
    using strangers_cannot_send [of chat_world default_MessageServiceOptions plain_codec caller "hello 1 3" r w' "hello 1 3" s v]
    by simp
qed

section \<open>Any number of calls\<close>

lemma as_sent_fields:
  "as_sent m' = as_sent m \<Longrightarrow> m_message_id m' = m_message_id m \<and> m_group_id m' = m_group_id m
     \<and> m_conversation_id m' = m_conversation_id m"
proof -
  assume "as_sent m' = as_sent m"
  then have "m_message_id (as_sent m') = m_message_id (as_sent m) \<and> m_group_id (as_sent m') = m_group_id (as_sent m)
      \<and> m_conversation_id (as_sent m') = m_conversation_id (as_sent m)" by simp
  then show ?thesis by (simp add: as_sent_def)
qed

text \<open>
  C8. The message tables stay well formed under every sequence of calls and worker rounds and every fault
  pattern: message ids and the client sequences of a sender are unique, there is one receipt per message
  and user whose read time has a delivery time, one conversation row per owner with a non-negative unread
  count, one offline row per user and message; and no transaction is left open.
\<close>

theorem calls_keep_message_tables:
  assumes "message_tables_ok (db w)" and "tx w = None" and "run_state (perform_all opts codec wopts calls) w = (u, w')"
  shows "message_tables_ok (db w') \<and> tx w' = None"
proof -
  have "idle_log (\<lambda>L. message_tables_ok) w" using assms(1,2) by (simp add: idle_log_def)
  from keeps_D [OF keys.keeps_perform_all this assms(3)] show ?thesis by (simp add: idle_log_def)
qed

definition example_calls :: "message_call list" where
  "example_calls = [Send_single caller (hello 1 2), Send_group caller (hello 1 7), Worker_round,
     Read_conversation caller ''r'' 2 (conversation_single 1 2) 50, Recall caller ''r'' 1 50, Pull caller ''r'' 2 10]"

lemma chat_tables_ok: "message_tables_ok chat_tables"
  by (simp add: chat_tables_def empty_tables_def message_tables_ok_def messages_ok_def receipts_ok_def
      conversations_ok_def offline_ok_def)

theorem calls_keep_message_tables_witness:
  "message_tables_ok (db (snd (run_state (perform_all default_MessageServiceOptions plain_codec
     default_OutboxWorkerOptions example_calls) chat_world)))"
  by (rule calls_keep_message_tables [THEN conjunct1, OF _ _ surjective_pairing]) (simp_all add: chat_tables_ok)

text \<open>
  C1. A stored message is never lost on its way to Kafka: after any further calls and worker rounds, under
  every fault pattern, the message is still stored as it was sent (a recall only sets its status), and the
  outbox holds its event with the topic of its kind, the key of its conversation and its serialized
  contents; this event is marked as published only with its record in the Kafka log, marked as dead only
  with its record in the dead letter topic, and otherwise a worker can still claim it.
\<close>

theorem stored_message_never_lost:
  assumes "messages_evented opts codec (db w)" and "events_logged (dlq_topic wopts) (kafka w) (db w)" and "tx w = None"
    and "m \<in> set (messages (db w))" and "run_state (perform_all opts codec wopts calls) w = (u, w')"
  shows "\<exists>m' \<in> set (messages (db w')). as_sent m' = as_sent m \<and>
     (\<exists>e \<in> set (outbox_events (db w')). event_of opts codec m e \<and>
        (ev_status e = PUBLISHED \<and> log_record (ev_topic e) e \<in> set (kafka w')
         \<or> ev_status e = DEAD \<and> log_record (dlq_topic wopts) e \<in> set (kafka w')
         \<or> (\<exists>now. claimable now e)))"
proof -
  have s: "idle_log (\<lambda>L. still_stored m) w" "idle_log (\<lambda>L. messages_evented opts codec) w"
    "idle_log (events_logged (dlq_topic wopts)) w"
    using assms(1-4) by (auto simp: idle_log_def still_stored_def)
  note e = keeps_D [OF storage.keeps_perform_all s(1) assms(5)] keeps_D [OF events.keeps_perform_all s(2) assms(5)]
    keeps_D [OF deliveries.keeps_perform_all s(3) assms(5)]
  obtain m' where m': "m' \<in> set (messages (db w'))" "as_sent m' = as_sent m"
    using e(1) by (auto simp: idle_log_def still_stored_def)
  moreover obtain ev where ev: "ev \<in> set (outbox_events (db w'))" "event_of opts codec m' ev"
    using e(2) m'(1) by (auto simp: idle_log_def messages_evented_def)
  moreover have "event_of opts codec m ev"
    using ev(2) m'(2) as_sent_fields [OF m'(2)] by (simp add: event_of_def)
  moreover have "event_ok (dlq_topic wopts) (kafka w') ev"
    using e(3) ev(1) by (auto simp: idle_log_def events_logged_def)
  moreover have "\<exists>now. claimable now ev" if "ev_status ev \<in> {PENDING, FAILED, PUBLISHING}"
    using that by (auto simp: claimable_def)
  ultimately show ?thesis unfolding event_ok_def by blast
qed

definition queued_hello :: world where
  "queued_hello = chat_world\<lparr>db := chat_tables\<lparr>messages := [single_record (hello 1 2) 50 100],
     outbox_events := [makeOutboxEvent ''tr'' 50 ''message'' 50 (topic_single default_MessageServiceOptions)
       (to_string (unat (conversation_single 1 2))) ''hi'' 100]\<rparr>\<rparr>"

theorem stored_message_never_lost_witness:
  "let w' = snd (run_state (perform_all default_MessageServiceOptions plain_codec default_OutboxWorkerOptions
       [Worker_round, Recall caller ''r'' 1 50]) queued_hello)
   in \<exists>m' \<in> set (messages (db w')). as_sent m' = single_record (hello 1 2) 50 100"
proof -
  let ?m = "single_record (hello 1 2) 50 100"
  let ?run = "run_state (perform_all default_MessageServiceOptions plain_codec default_OutboxWorkerOptions
       [Worker_round, Recall caller ''r'' 1 50]) queued_hello"
  have m: "as_sent ?m = ?m" by (simp add: as_sent_def single_record_def)
  have "messages_evented default_MessageServiceOptions plain_codec (db queued_hello)"
    by (simp add: messages_evented_def queued_hello_def event_of_def makeOutboxEvent_def single_record_def
        plain_codec_def toMessageData_def as_sent_def hello_def)
  moreover have "events_logged (dlq_topic default_OutboxWorkerOptions) (kafka queued_hello) (db queued_hello)"
    by (simp add: events_logged_def event_ok_def queued_hello_def makeOutboxEvent_def outbox_status_defs)
  moreover have "tx queued_hello = None" "?m \<in> set (messages (db queued_hello))"
    by (simp_all add: queued_hello_def)
  moreover have "?run = (fst ?run, snd ?run)" by (rule surjective_pairing)
  ultimately have "\<exists>m' \<in> set (messages (db (snd ?run))). as_sent m' = as_sent ?m"
    using stored_message_never_lost by blast
  then show ?thesis unfolding Let_def m .
qed

section \<open>Acknowledging\<close>

lemma wp_canReadConversation [wp_intros]:
  assumes "\<And>r w'. undisturbed w w' \<Longrightarrow>
     (r \<Longrightarrow> list_ex (\<lambda>c. same_conversation u conv c \<and> \<not> c_deleted c) (conversations (db w))) \<Longrightarrow> Q r w'"
  shows "wp (canReadConversation u conv) Q w"
  unfolding canReadConversation_def by (intro wp_intros assms) auto

definition may_receive :: "tables \<Rightarrow> u64 \<Rightarrow> MessageRecord \<Rightarrow> bool" where
  "may_receive t u m \<longleftrightarrow> u \<noteq> 0 \<and> m_from_user_id m \<noteq> u \<and>
     (if m_group_id m \<noteq> 0
      then list_ex (\<lambda>c. same_conversation u (m_conversation_id m) c \<and> \<not> c_deleted c) (conversations t)
      else m_to_user_id m = u)"

lemma wp_canReceiveMessage [wp_intros]:
  assumes "\<And>r w'. undisturbed w w' \<Longrightarrow> (r \<Longrightarrow> may_receive (db w) u m) \<Longrightarrow> Q r w'"
  shows "wp (canReceiveMessage u m) Q w"
  unfolding canReceiveMessage_def by (intro wp_intros assms) (auto simp: may_receive_def)

lemma wp_AckMessage:
  assumes "tx w = None"
  shows "wp (AckMessage ctx rid u mid) (\<lambda>r w'. tx w' = None \<and> (db w' = db w \<and> \<not> is_ok (fst r) \<or>
     (\<exists>m \<in> set (messages (db w)). m_message_id m = mid \<and> may_receive (db w) u m) \<and>
     (\<exists>at at'. db w' = sql_markAsAcked u mid at' (sql_upsertDelivered mid u at (db w))))) w"
  unfolding AckMessage_def requireInternalRpc_def upsertDelivered_on_def markAsAcked_on_def
  by (intro wp_intros wp_with_tx) (use assms in \<open>auto simp: undisturbed_def intro!: wp_intros, blast+\<close>)

lemma acked_row:
  assumes "offline_ok (offline_messages t)" and "r \<in> set (offline_messages t)" "same_offline u mid r" "om_status r \<in> {0, 1, 2}"
  shows "is_acked u mid (sql_markAsAcked u mid at (sql_upsertDelivered mid' u' at' t))"
proof -
  let ?R = "\<lambda>r. om_user_id r = u \<and> om_message_id r = mid \<and> om_status r \<in> {0, 1, 2}"
  let ?f = "\<lambda>r. r\<lparr>om_status := 2, om_updated_at := at\<rparr>"
  have o: "offline_messages (sql_markAsAcked u mid at (sql_upsertDelivered mid' u' at' t)) = update_where ?R ?f (offline_messages t)"
    by (simp add: sql_markAsAcked_def)
  have "\<exists>r \<in> set (update_where ?R ?f (offline_messages t)). same_offline u mid r \<and> om_status r = 2"
    unfolding Bex_update_where using assms(2-4) by (intro bexI [of _ r]) (auto simp: same_offline_def)
  moreover have "offline_ok (update_where ?R ?f (offline_messages t))"
    by (rule offline_ok_update [OF assms(1)]) simp_all
  ultimately show ?thesis unfolding is_acked_def o by blast
qed


definition waiting_hello :: world where
  "waiting_hello = chat_world\<lparr>db := chat_tables\<lparr>messages := [single_record (hello 1 2) 50 100],
     offline_messages := [\<lparr>om_user_id = 2, om_message_id = 50, om_payload = ''6869'', om_status = 0,
       om_created_at = 100, om_updated_at = 100\<rparr>]\<rparr>\<rparr>"

lemma ack_example_ok: "is_ok (fst (fst (run_state (AckMessage caller ''r'' 2 50) waiting_hello)))"
  by code_simp


section \<open>Reading\<close>

lemma wp_nowMs_exact: "clock w = t # c \<Longrightarrow> Q t (w\<lparr>clock := c\<rparr>) \<Longrightarrow> wp nowMs Q w"
  by (simp add: nowMs_def pop_def wp_def)

lemma wp_MarkConversationRead:
  assumes "tx w = None" and "clock w = now # c"
  shows "wp (MarkConversationRead ctx rid u conv last_id) (\<lambda>r w'. tx w' = None \<and> (db w' = db w \<and> \<not> is_ok (fst r) \<or>
     (\<exists>m \<in> set (messages (db w)). m_message_id m = last_id \<and> m_conversation_id m = conv \<and>
        list_ex (\<lambda>c. same_conversation u conv c \<and> \<not> c_deleted c) (conversations (db w)) \<and>
        db w' = sql_recalculateUnread u conv now
          (sql_markConversationRead conv u last_id (m_created_at m) now (db w))))) w"
  unfolding MarkConversationRead_def requireInternalRpc_def markConversationRead_on_def recalculateUnread_def
  by (intro wp_bind wp_if wp_return wp_canReadConversation wp_getMessageById wp_case_option wp_nowMs_exact wp_acquire wp_with_tx)
     (use assms in \<open>auto simp: undisturbed_def intro!: wp_intros\<close>)

lemma recalculated_count:
  assumes "c \<in> set (conversations (sql_recalculateUnread u conv now t))" and "same_conversation u conv c"
  shows "c_unread_count c = int (sql_countUnread t u conv)"
  using assms by (auto simp: sql_recalculateUnread_def set_update_where same_conversation_def split: if_splits)

text \<open>
  C10. Reading a conversation up to a message leaves as unread exactly what came later: after a positive
  reply, the unread count of the user's conversation is the number of messages by others, not recalled
  and not read before, that follow the given message in the order of time and id. The reply is positive
  only for a user who has the conversation and a message that belongs to it.
\<close>

theorem read_up_to_counts_the_rest:
  assumes "tx w = None" and "clock w = now # c" and "0 < now" and "message_tables_ok (db w)"
    and "run_state (MarkConversationRead ctx rid u conv last_id) w = (r, w')" and "is_ok (fst r)"
  shows "\<exists>m \<in> set (messages (db w)). m_message_id m = last_id \<and> m_conversation_id m = conv \<and>
     list_ex (\<lambda>c. same_conversation u conv c \<and> \<not> c_deleted c) (conversations (db w)) \<and>
     (\<forall>c \<in> set (conversations (db w')). same_conversation u conv c \<longrightarrow>
        c_unread_count c = int (length (filter (\<lambda>x. m_conversation_id x = conv \<and> m_from_user_id x \<noteq> u \<and> \<not> m_recalled x
           \<and> \<not> has_read (db w) u (m_message_id x) \<and> message_key m < message_key x) (messages (db w)))))"
proof -
  let ?t = "\<lambda>m. sql_markConversationRead conv u last_id (m_created_at m) now (db w)"
  obtain m where m: "m \<in> set (messages (db w))" "m_message_id m = last_id" "m_conversation_id m = conv"
    "list_ex (\<lambda>c. same_conversation u conv c \<and> \<not> c_deleted c) (conversations (db w))"
    "db w' = sql_recalculateUnread u conv now (?t m)"
    using wp_I [OF wp_MarkConversationRead [OF assms(1,2)] assms(5)] assms(6) by blast
  have "c_unread_count c = int (sql_countUnread (?t m) u conv)"
    if "c \<in> set (conversations (db w'))" "same_conversation u conv c" for c
    using recalculated_count that m(5) by metis
  then show ?thesis
    using m(1-4) unread_after_markConversationRead [OF assms(4,3), of conv u last_id "m_created_at m"]
    by (intro bexI [of _ m]) (auto simp: m(2))
qed

definition unread_world :: world where
  "unread_world = chat_world\<lparr>db := page_example\<lparr>conversations := [new_conversation 9 SINGLE 2 1 0 4 ''x'' 7]\<rparr>\<rparr>"

lemma unread_example_ok: "is_ok (fst (fst (run_state (MarkConversationRead caller ''r'' 2 9 2) unread_world)))"
  by code_simp

theorem read_up_to_counts_the_rest_witness:
  "map c_unread_count (filter (same_conversation 2 9) (conversations (db (snd (run_state
     (MarkConversationRead caller ''r'' 2 9 2) unread_world))))) = [1]"
proof -
  let ?run = "run_state (MarkConversationRead caller ''r'' 2 9 2) unread_world"
  have "message_tables_ok (db unread_world)"
    by (simp add: unread_world_def page_example_def empty_tables_def message_tables_ok_def messages_ok_def receipts_ok_def
        conversations_ok_def offline_ok_def new_conversation_def)
  then have "\<exists>m \<in> set (messages (db unread_world)). m_message_id m = 2 \<and> m_conversation_id m = 9 \<and>
     list_ex (\<lambda>c. same_conversation 2 9 c \<and> \<not> c_deleted c) (conversations (db unread_world)) \<and>
     (\<forall>c \<in> set (conversations (db (snd ?run))). same_conversation 2 9 c \<longrightarrow>
        c_unread_count c = int (length (filter (\<lambda>x. m_conversation_id x = 9 \<and> m_from_user_id x \<noteq> 2 \<and> \<not> m_recalled x
           \<and> \<not> has_read (db unread_world) 2 (m_message_id x) \<and> message_key m < message_key x) (messages (db unread_world)))))"
    by (intro read_up_to_counts_the_rest [of unread_world 100 "[101, 102, 103, 104, 105]", OF _ _ _ _ surjective_pairing unread_example_ok])
       (simp_all add: unread_world_def chat_world_def)
  then have n: "\<forall>c \<in> set (conversations (db (snd ?run))). same_conversation 2 9 c \<longrightarrow> c_unread_count c = 1"
    by (auto simp: unread_world_def page_example_def empty_tables_def has_read_def)
  have "length (filter (same_conversation 2 9) (conversations (db (snd ?run)))) = 1"
    by code_simp
  then show ?thesis
    using n by (auto simp: length_Suc_conv filter_eq_Cons_iff)
qed

section \<open>Listing\<close>

text \<open>
  C11. A page of a conversation is the right part of it: the handler changes nothing, serves only a user
  who has the conversation, and shows, oldest first, the newest messages before the cursor up to the page
  size (50 by default, 100 at most), tells whether older ones remain, and gives the time and the id of
  the oldest shown message as the next cursor; when the query fails the page is empty.
\<close>

theorem page_is_part_of_conversation:
  assumes "run_state (ListConversationMessages ctx rid u conv page_size bt bi) w = (r, w')"
    and "limit = (if page_size = 0 then 50 else min page_size 100)"
    and "rest = filter (before_cursor bt bi) (newest_first conv (db w))"
  shows "undisturbed w w' \<and> (is_ok (fst r) \<longrightarrow>
     list_ex (\<lambda>c. same_conversation u conv c \<and> \<not> c_deleted c) (conversations (db w)) \<and>
     (snd r = empty_page \<or>
      page_messages (snd r) = map (toMessageData (rpc_trace ctx)) (rev (take limit rest))
      \<and> page_has_more (snd r) = (limit < length rest)
      \<and> (rest \<noteq> [] \<longrightarrow> (next_before_time (snd r), next_before_message_id (snd r)) = message_key (last (take limit rest)))))"
proof -
  have limit: "0 < limit" using assms(2) by auto
  have page: "make_page trace limit (take (limit + 1) rest) =
      \<lparr>page_messages = map (toMessageData trace) (rev (take limit rest)), page_has_more = limit < length rest,
       next_before_time = (if rest = [] then 0 else m_created_at (last (take limit rest))),
       next_before_message_id = (if rest = [] then 0 else m_message_id (last (take limit rest)))\<rparr>" for trace
    using limit by (cases "take limit rest" rule: rev_cases)
      (auto simp: make_page_def Let_def min_def split: list.splits)
  have empty: "make_page trace limit [] = empty_page" for trace
    by (simp add: make_page_def empty_page_def)
  have "wp (ListConversationMessages ctx rid u conv page_size bt bi) (\<lambda>r w'. undisturbed w w' \<and> (is_ok (fst r) \<longrightarrow>
      list_ex (\<lambda>c. same_conversation u conv c \<and> \<not> c_deleted c) (conversations (db w)) \<and>
      (snd r = empty_page \<or> snd r = make_page (rpc_trace ctx) limit (take (limit + 1) rest)))) w"
    unfolding ListConversationMessages_def requireInternalRpc_def Let_def assms(2) [symmetric]
    by (intro wp_intros) (auto simp: undisturbed_def list_page assms(3) empty)
  from wp_I [OF this assms(1)] show ?thesis unfolding page by auto
qed

lemma page_example_result:
  "map md_message_id (page_messages (snd (fst (run_state (ListConversationMessages caller ''r'' 2 9 2 0 0) unread_world)))) = [2, 4]"
  by code_simp

theorem page_is_part_of_conversation_witness:
  "undisturbed unread_world (snd (run_state (ListConversationMessages caller ''r'' 2 9 2 0 0) unread_world))
   \<and> map md_message_id (page_messages (snd (fst (run_state (ListConversationMessages caller ''r'' 2 9 2 0 0) unread_world)))) = [2, 4]"
  by (intro conjI page_example_result page_is_part_of_conversation [THEN conjunct1, OF surjective_pairing refl refl])

end
