(* ===== verification/Message_Recall.thy ===== *)
theory Message_Recall
  imports Message_Properties
begin

text \<open>
  The effect of \<^verbatim>\<open>RecallMessage\<close>, under every fault pattern.
\<close>

section \<open>Recalling\<close>

definition recall_effect :: "u64 \<Rightarrow> u64 \<Rightarrow> OutboxEvent \<Rightarrow> int \<Rightarrow> tables \<Rightarrow> tables \<Rightarrow> bool" where
  "recall_effect mid conv ev now t t' \<longleftrightarrow> (\<exists>n t1 e. sql_recallMessage mid now t = Some (n, t1) \<and> 0 < n \<and> same_event e ev \<and>
     ev_status e = PENDING \<and> t' = sql_markLastMessageRecalled conv mid now (sql_recalculateUnreadForConversation conv now
       (t1\<lparr>outbox_events := outbox_events t1 @ [e]\<rparr>)))"

lemma recall_effectI:
  "sql_recallMessage mid now t = Some (n, t1) \<Longrightarrow> 0 < n \<Longrightarrow> same_event e ev \<Longrightarrow> ev_status e = PENDING \<Longrightarrow>
     t2 = t1\<lparr>outbox_events := outbox_events t1 @ [e]\<rparr> \<Longrightarrow>
     recall_effect mid conv ev now t (sql_markLastMessageRecalled conv mid now (sql_recalculateUnreadForConversation conv now t2))"
  unfolding recall_effect_def by blast

lemma recall_event_pending [simp]: "ev_status (recall_event opts codec trace m eid now) = PENDING"
  by (simp add: recall_event_def makeOutboxEvent_def)

lemma wp_recallMessage_on:
  assumes "\<And>r w'. tx w' = tx w \<Longrightarrow> (r \<Longrightarrow> \<exists>n. sql_recallMessage mid now (db w) = Some (n, db w') \<and> 0 < n) \<Longrightarrow> Q r w'"
  shows "wp (recallMessage_on mid now) Q w"
  unfolding recallMessage_on_def by (intro wp_intros) (auto simp: affected_def intro!: wp_return assms)

lemma wp_recall_in_tx:
  assumes "tx w = Some (db w)"
  shows "wp (recall_in_tx opts codec ctx rid m now True) (\<lambda>r w'.
     (tx w' = Some (db w) \<and> \<not> is_ok (fst r)) \<or> (tx w' = None \<and> db w' = db w \<and> \<not> is_ok (fst r)) \<or>
     (tx w' = None \<and> (is_ok (fst r) \<longrightarrow> snd r = (m_message_id m, now)) \<and> (\<exists>eid. recall_effect (m_message_id m) (m_conversation_id m)
        (recall_event opts codec (rpc_trace ctx) m eid now) now (db w) (db w')))) w"
  unfolding recall_in_tx_def recalculateUnreadForConversation_def markLastMessageRecalled_def Let_def
  by (intro wp_bind wp_if wp_return wp_recallMessage_on wp_mono [OF wp_insertEvent] wp_rollback_tx wp_getMessageById
        wp_next_message_id wp_andalso wp_execute wp_commit_tx wp_if_post)
     (simp_all add: assms undisturbed_def, (blast intro: recall_effectI | force split: option.splits)+)

lemma wp_recall_tx:
  assumes "tx w = None"
    and Q: "\<And>r w'. tx w' = None \<Longrightarrow> db w' = db w \<and> \<not> is_ok (fst r) \<or>
       (is_ok (fst r) \<longrightarrow> snd r = (m_message_id m, now)) \<and> (\<exists>eid. recall_effect (m_message_id m) (m_conversation_id m)
        (recall_event opts codec (rpc_trace ctx) m eid now) now (db w) (db w')) \<Longrightarrow> Q r w'"
  shows "wp (with_tx (recall_in_tx opts codec ctx rid m now)) Q w"
proof (rule wp_with_tx)
  show "wp (recall_in_tx opts codec ctx rid m now True) (\<lambda>r w'. case tx w' of None \<Rightarrow> Q r w'
      | Some t \<Rightarrow> Q r (w'\<lparr>db := t, tx := None\<rparr>)) (w\<lparr>script := s, tx := Some (db w)\<rparr>)" for s
    by (rule wp_mono [OF wp_recall_in_tx]) (auto intro!: Q)
  show "wp (recall_in_tx opts codec ctx rid m now False) (\<lambda>r w'. case tx w' of None \<Rightarrow> Q r w'
      | Some t \<Rightarrow> Q r (w'\<lparr>db := t, tx := None\<rparr>)) (w\<lparr>script := s\<rparr>)" for s
    by (simp add: recall_in_tx_def assms(1), rule wp_return) (simp add: assms(1) Q)
qed

lemma wp_RecallMessage:
  assumes "tx w = None"
  shows "wp (RecallMessage opts codec ctx rid u mid) (\<lambda>r w'. tx w' = None \<and> (db w' = db w \<and> \<not> is_ok (fst r) \<or>
     (\<exists>m \<in> set (messages (db w)). \<exists>now eid. m_message_id m = mid \<and> m_from_user_id m = u \<and> \<not> m_recalled m
        \<and> now - m_created_at m \<le> recall_window_seconds opts * 1000
        \<and> (is_ok (fst r) \<longrightarrow> snd r = (mid, now))
        \<and> recall_effect mid (m_conversation_id m) (recall_event opts codec (rpc_trace ctx) m eid now) now (db w) (db w')))) w"
  unfolding RecallMessage_def requireInternalRpc_def
  by (intro wp_bind wp_if wp_return wp_getMessageById wp_case_option wp_nowMs wp_acquire wp_recall_tx)
     (use assms in \<open>simp_all add: undisturbed_def, (force+)?\<close>)

lemma recall_effect_messages:
  assumes "recall_effect mid conv ev now t t'"
  shows "messages t' = update_where (\<lambda>m. m_message_id m = mid \<and> \<not> m_recalled m)
      (\<lambda>m. m\<lparr>m_recalled := True, m_recalled_at := now, m_status := MESSAGE_STATUS_RECALLED, m_updated_at := now\<rparr>) (messages t)"
    and "\<exists>e \<in> set (outbox_events t'). same_event e ev \<and> ev_status e = PENDING"
  using assms by (auto simp: recall_effect_def sql_recallMessage_def Let_def)

lemma sql_countUnread_cong:
  "messages t' = messages t \<Longrightarrow> message_receipts t' = message_receipts t \<Longrightarrow> sql_countUnread t' u conv = sql_countUnread t u conv"
proof -
  assume h: "messages t' = messages t" "message_receipts t' = message_receipts t"
  then have "unread_rows t' u = unread_rows t u" by (simp add: unread_rows_def fun_eq_iff)
  with h show ?thesis by (simp add: sql_countUnread_def)
qed

lemma in_update_where:
  assumes "c \<in> set (update_where P f rs)"
  obtains r where "r \<in> set rs" "c = (if P r then f r else r)"
  using assms unfolding set_update_where by (rule imageE)

lemma recall_effect_conversations:
  assumes "recall_effect mid conv ev now t t'" and "c \<in> set (conversations t')" and "c_conversation_id c = conv"
  shows "c_unread_count c = int (sql_countUnread t' (c_owner_user_id c) conv)"
    and "c_last_message_id c = mid \<Longrightarrow> c_last_message_preview c = ''__NEBULA_MESSAGE_RECALLED__''"
proof -
  obtain t2 where t2: "t' = sql_markLastMessageRecalled conv mid now (sql_recalculateUnreadForConversation conv now t2)"
    using assms(1) unfolding recall_effect_def by blast
  let ?f = "\<lambda>c. c\<lparr>c_unread_count := int (sql_countUnread t2 (c_owner_user_id c) (c_conversation_id c)), c_updated_at := now\<rparr>"
  let ?g = "\<lambda>c. c\<lparr>c_last_message_preview := ''__NEBULA_MESSAGE_RECALLED__'', c_last_message_at := now, c_updated_at := now\<rparr>"
  have n: "sql_countUnread t' u conv = sql_countUnread t2 u conv" for u
    by (rule sql_countUnread_cong) (simp_all add: t2 sql_markLastMessageRecalled_def sql_recalculateUnreadForConversation_def)
  have t': "conversations t' = update_where (\<lambda>c. c_conversation_id c = conv \<and> c_last_message_id c = mid) ?g
      (update_where (\<lambda>c. c_conversation_id c = conv) ?f (conversations t2))"
    by (simp add: t2 sql_markLastMessageRecalled_def sql_recalculateUnreadForConversation_def)
  obtain c1 where c1: "c1 \<in> set (update_where (\<lambda>c. c_conversation_id c = conv) ?f (conversations t2))"
    "c = (if c_conversation_id c1 = conv \<and> c_last_message_id c1 = mid then ?g c1 else c1)"
    using assms(2) unfolding t' by (rule in_update_where)
  obtain c2 where "c2 \<in> set (conversations t2)" and c2: "c1 = (if c_conversation_id c2 = conv then ?f c2 else c2)"
    using c1(1) by (rule in_update_where)
  have c': "c1 = ?f c2" "c_conversation_id c2 = conv" "c = (if c_last_message_id c1 = mid then ?g c1 else c1)"
    using c1(2) c2 assms(3) by (simp_all split: if_splits)
  show "c_unread_count c = int (sql_countUnread t' (c_owner_user_id c) conv)"
    unfolding n c'(3) c'(1) using c'(2) by simp
  show "c_last_message_preview c = ''__NEBULA_MESSAGE_RECALLED__''" if "c_last_message_id c = mid"
    using that unfolding c'(3) by (cases "c_last_message_id c1 = mid") simp_all
qed

text \<open>
  C12. A recall is authorised, timely and complete, or it changes nothing: under every fault pattern the
  tables are unchanged and the reply is an error, or the message is one of the caller's own, was not
  recalled before and is within the recall window; then exactly its row is marked as recalled, every
  participant's unread count is the number of messages that are still unread and not recalled, the
  previews that showed it are replaced, and the outbox holds an event with the recalled message. A
  positive reply implies the latter and names the time of the recall.
\<close>

theorem recall_is_authorised_and_complete:
  assumes "tx w = None" and "run_state (RecallMessage opts codec ctx rid u mid) w = (r, w')"
  shows "tx w' = None \<and> (db w' = db w \<and> \<not> is_ok (fst r) \<or>
     (\<exists>m \<in> set (messages (db w)). \<exists>now eid. m_message_id m = mid \<and> m_from_user_id m = u \<and> \<not> m_recalled m
        \<and> now - m_created_at m \<le> recall_window_seconds opts * 1000
        \<and> (is_ok (fst r) \<longrightarrow> snd r = (mid, now))
        \<and> messages (db w') = update_where (\<lambda>m. m_message_id m = mid \<and> \<not> m_recalled m)
            (\<lambda>m. m\<lparr>m_recalled := True, m_recalled_at := now, m_status := MESSAGE_STATUS_RECALLED, m_updated_at := now\<rparr>)
            (messages (db w))
        \<and> (\<forall>c \<in> set (conversations (db w')). c_conversation_id c = m_conversation_id m \<longrightarrow>
             c_unread_count c = int (sql_countUnread (db w') (c_owner_user_id c) (m_conversation_id m))
             \<and> (c_last_message_id c = mid \<longrightarrow> c_last_message_preview c = ''__NEBULA_MESSAGE_RECALLED__''))
        \<and> (\<exists>e \<in> set (outbox_events (db w')). ev_status e = PENDING
             \<and> same_event e (recall_event opts codec (rpc_trace ctx) m eid now))))"
proof -
  from wp_I [OF wp_RecallMessage [OF assms(1)] assms(2)] show ?thesis
  proof (elim conjE disjE bexE exE)
    assume "tx w' = None" "db w' = db w" "\<not> is_ok (fst r)"
    then show ?thesis by simp
  next
    fix m now eid
    assume h: "tx w' = None" "m \<in> set (messages (db w))" "m_message_id m = mid" "m_from_user_id m = u" "\<not> m_recalled m"
      "now - m_created_at m \<le> recall_window_seconds opts * 1000" "is_ok (fst r) \<longrightarrow> snd r = (mid, now)"
      "recall_effect mid (m_conversation_id m) (recall_event opts codec (rpc_trace ctx) m eid now) now (db w) (db w')"
    note e = recall_effect_messages [OF h(8)]
    have c: "\<forall>c \<in> set (conversations (db w')). c_conversation_id c = m_conversation_id m \<longrightarrow>
        c_unread_count c = int (sql_countUnread (db w') (c_owner_user_id c) (m_conversation_id m))
        \<and> (c_last_message_id c = mid \<longrightarrow> c_last_message_preview c = ''__NEBULA_MESSAGE_RECALLED__'')"
      using recall_effect_conversations [OF h(8)] by blast
    have o: "\<exists>e \<in> set (outbox_events (db w')). ev_status e = PENDING
        \<and> same_event e (recall_event opts codec (rpc_trace ctx) m eid now)"
      using e(2) by blast
    show ?thesis
      by (intro conjI disjI2 bexI [of _ m] exI [of _ now] exI [of _ eid]; (fact h e c o))
  qed
qed

definition recall_world :: world where
  "recall_world = chat_world\<lparr>db := page_example\<lparr>conversations := [new_conversation 9 SINGLE 2 1 0 4 ''x'' 7]\<rparr>,
     clock := [200]\<rparr>"

lemma recall_example_reply: "snd (fst (run_state (RecallMessage default_MessageServiceOptions plain_codec caller ''r'' 1 4) recall_world)) = (4, 200)"
  by code_simp

theorem recall_is_authorised_and_complete_witness:
  "db (snd (run_state (RecallMessage default_MessageServiceOptions plain_codec caller ''r'' 2 4) recall_world)) = db recall_world
   \<and> snd (fst (run_state (RecallMessage default_MessageServiceOptions plain_codec caller ''r'' 1 4) recall_world)) = (4, 200)"
proof -
  have "\<not> (\<exists>m \<in> set (messages (db recall_world)). m_from_user_id m = 2)"
    by (simp add: recall_world_def page_example_def)
  then show ?thesis
    using recall_is_authorised_and_complete [of recall_world default_MessageServiceOptions plain_codec caller "''r''" 2 4,
        OF _ surjective_pairing] recall_example_reply
    by (simp add: recall_world_def)
qed

end
