(* ===== verification/Relation_Service.thy ===== *)
theory Relation_Service
  imports Directory_Store Message_Service
begin

text \<open>
  \<^verbatim>\<open>relation_service/src/RelationServiceImpl\<close>: friend requests, friendships and groups. The checks for null
  dependencies have no counterpart and log lines are left out.
\<close>

section \<open>Replies\<close>

record UserInfo =
  ui_user_id :: u64
  ui_username :: string
  ui_nickname :: string
  ui_avatar :: string
  ui_created_at :: int

definition fillUser :: "User \<Rightarrow> UserInfo" where
  "fillUser u = \<lparr>ui_user_id = user_id u, ui_username = username u, ui_nickname = nickname u, ui_avatar = avatar u,
     ui_created_at = user_created_at u\<rparr>"

record FriendRequestInfo =
  fi_friend_request_id :: u64
  fi_from_user_id :: u64
  fi_to_user_id :: u64
  fi_message :: string
  fi_status :: int
  fi_created_at :: int
  fi_updated_at :: int

definition fillFriendRequest :: "FriendRequest \<Rightarrow> FriendRequestInfo" where
  "fillFriendRequest q = \<lparr>fi_friend_request_id = fr_id q, fi_from_user_id = fr_from_user_id q, fi_to_user_id = fr_to_user_id q,
     fi_message = fr_message q, fi_status = fr_status q, fi_created_at = fr_created_at q, fi_updated_at = fr_updated_at q\<rparr>"

record GroupInfo =
  gi_group_id :: u64
  gi_name :: string
  gi_owner_id :: u64
  gi_member_count :: nat
  gi_created_at :: int
  gi_updated_at :: int

definition fillGroup :: "Group \<times> nat \<Rightarrow> GroupInfo" where
  "fillGroup g = \<lparr>gi_group_id = group_row_id (fst g), gi_name = group_name (fst g), gi_owner_id = owner_id (fst g),
     gi_member_count = snd g, gi_created_at = group_created_at (fst g), gi_updated_at = group_updated_at (fst g)\<rparr>"

text \<open>The users of a list of ids that can be loaded, in its order.\<close>

primrec load_users :: "u64 list \<Rightarrow> UserInfo list io" where
  "load_users [] = return []"
| "load_users (i # is) = do {
     u \<leftarrow> getUserById i;
     rest \<leftarrow> load_users is;
     return (case u of None \<Rightarrow> rest | Some u \<Rightarrow> fillUser u # rest) }"

section \<open>Friends\<close>

definition DeleteFriend :: "rpc_context \<Rightarrow> string \<Rightarrow> u64 \<Rightarrow> u64 \<Rightarrow> unit reply io" where
  "DeleteFriend ctx rid uid fid = requireInternalRpc ctx rid ()
     (if uid = 0 \<or> fid = 0 \<or> uid = fid then return (fillResponse rid EC_INVALID_ARGUMENT [], ())
      else do {
        known \<leftarrow> isFriend uid fid;
        if \<not> known then return (fillResponse rid EC_FRIEND_NOT_FOUND [], ())
        else do {
          ok \<leftarrow> deleteFriendBidirectional uid fid;
          if \<not> ok then return (fillResponse rid EC_DB_ERROR [], ())
          else return (fillResponse rid EC_OK ''OK'', ()) } })"

definition ListFriends :: "rpc_context \<Rightarrow> string \<Rightarrow> u64 \<Rightarrow> UserInfo list reply io" where
  "ListFriends ctx rid uid = requireInternalRpc ctx rid []
     (if uid = 0 then return (fillResponse rid EC_INVALID_ARGUMENT [], [])
      else do {
        u \<leftarrow> getUserById uid;
        if u = None then return (fillResponse rid EC_USER_NOT_FOUND [], [])
        else do {
          fs \<leftarrow> listFriends uid;
          infos \<leftarrow> load_users fs;
          return (fillResponse rid EC_OK ''OK'', infos) } })"

definition SendFriendRequest :: "rpc_context \<Rightarrow> string \<Rightarrow> u64 \<Rightarrow> u64 \<Rightarrow> string \<Rightarrow> u64 reply io" where
  "SendFriendRequest ctx rid from to message = requireInternalRpc ctx rid 0
     (if from = 0 \<or> to = 0 \<or> from = to \<or> length message > 255 then return (fillResponse rid EC_INVALID_ARGUMENT [], 0)
      else do {
        known \<leftarrow> andalso (do { u \<leftarrow> getUserById from; return (u \<noteq> None) })
                         (do { u \<leftarrow> getUserById to; return (u \<noteq> None) });
        if \<not> known then return (fillResponse rid EC_USER_NOT_FOUND [], 0)
        else do {
          fr \<leftarrow> isFriend from to;
          if fr then return (fillResponse rid EC_FRIEND_ALREADY_EXISTS [], 0)
          else do {
            now \<leftarrow> nowMs;
            r \<leftarrow> createRequest \<lparr>fr_id = 0, fr_from_user_id = from, fr_to_user_id = to, fr_message = message,
                   fr_status = REQUEST_PENDING, fr_created_at = now, fr_updated_at = now\<rparr>;
            case r of None \<Rightarrow> do {
                pending \<leftarrow> hasPendingBetween from to;
                return (fillResponse rid (if pending then EC_FRIEND_REQUEST_ALREADY_EXISTS else EC_DB_ERROR) [], 0) }
            | Some i \<Rightarrow> return (fillResponse rid EC_OK ''OK'', i) } } })"

text \<open>The checks that accepting and rejecting share.\<close>

definition on_request :: "string \<Rightarrow> u64 \<Rightarrow> u64 \<Rightarrow> bool io \<Rightarrow> unit reply io" where
  "on_request rid uid frid act = do {
     item \<leftarrow> getByRequestId frid;
     case item of None \<Rightarrow> return (fillResponse rid EC_FRIEND_REQUEST_NOT_FOUND [], ())
     | Some q \<Rightarrow>
         if fr_to_user_id q \<noteq> uid then return (fillResponse rid EC_GATEWAY_PERMISSION_DENIED [], ())
         else if fr_status q \<noteq> REQUEST_PENDING then return (fillResponse rid EC_FRIEND_REQUEST_ALREADY_HANDLED [], ())
         else do {
           ok \<leftarrow> act;
           if \<not> ok then return (fillResponse rid EC_DB_ERROR [], ())
           else return (fillResponse rid EC_OK ''OK'', ()) } }"

definition AcceptFriendRequest :: "rpc_context \<Rightarrow> string \<Rightarrow> u64 \<Rightarrow> u64 \<Rightarrow> unit reply io" where
  "AcceptFriendRequest ctx rid uid frid = requireInternalRpc ctx rid ()
     (on_request rid uid frid (acceptRequestWithFriendship frid))"

definition RejectFriendRequest :: "rpc_context \<Rightarrow> string \<Rightarrow> u64 \<Rightarrow> u64 \<Rightarrow> unit reply io" where
  "RejectFriendRequest ctx rid uid frid = requireInternalRpc ctx rid ()
     (on_request rid uid frid (updateStatus frid REQUEST_PENDING REQUEST_REJECTED))"

text \<open>The reply has the requests, the page number that was asked for and the page size that was used.\<close>

definition ListFriendRequests ::
  "rpc_context \<Rightarrow> string \<Rightarrow> u64 \<Rightarrow> bool \<Rightarrow> int \<Rightarrow> nat \<Rightarrow> nat \<Rightarrow> (FriendRequestInfo list \<times> nat \<times> nat) reply io" where
  "ListFriendRequests ctx rid uid incoming st page page_size = requireInternalRpc ctx rid ([], 0, 0)
     (if uid = 0 then return (fillResponse rid EC_INVALID_ARGUMENT [], [], 0, 0)
      else do {
        let limit = (if page_size = 0 then 50 else page_size);
        let limit = (if limit > 200 then 200 else limit);
        items \<leftarrow> (if incoming then listReceived uid st limit else listSent uid st limit);
        return (fillResponse rid EC_OK ''OK'', map fillFriendRequest items, page, limit) })"

section \<open>Groups\<close>

definition CreateGroup :: "rpc_context \<Rightarrow> string \<Rightarrow> u64 \<Rightarrow> string \<Rightarrow> u64 reply io" where
  "CreateGroup ctx rid owner name = requireInternalRpc ctx rid 0
     (if owner = 0 \<or> name = [] \<or> length name > 128 then return (fillResponse rid EC_INVALID_ARGUMENT [], 0)
      else do {
        u \<leftarrow> getUserById owner;
        if u = None then return (fillResponse rid EC_USER_NOT_FOUND [], 0)
        else do {
          now \<leftarrow> nowMs;
          g \<leftarrow> createGroup \<lparr>group_row_id = 0, group_name = name, owner_id = owner, group_created_at = now,
                 group_updated_at = now\<rparr>;
          case g of None \<Rightarrow> return (fillResponse rid EC_DB_ERROR [], 0)
          | Some i \<Rightarrow> return (fillResponse rid EC_OK ''OK'', i) } })"

definition JoinGroup :: "rpc_context \<Rightarrow> string \<Rightarrow> u64 \<Rightarrow> u64 \<Rightarrow> unit reply io" where
  "JoinGroup ctx rid uid gid = requireInternalRpc ctx rid ()
     (if uid = 0 \<or> gid = 0 then return (fillResponse rid EC_INVALID_ARGUMENT [], ())
      else do {
        u \<leftarrow> getUserById uid;
        if u = None then return (fillResponse rid EC_USER_NOT_FOUND [], ())
        else do {
          g \<leftarrow> getGroupById gid;
          if g = None then return (fillResponse rid EC_GROUP_NOT_FOUND [], ())
          else do {
            member \<leftarrow> isMember gid uid;
            if member then return (fillResponse rid EC_GROUP_ALREADY_JOINED [], ())
            else do {
              ok \<leftarrow> addMember gid uid 0;
              if \<not> ok then return (fillResponse rid EC_DB_ERROR [], ())
              else return (fillResponse rid EC_OK ''OK'', ()) } } } })"

definition LeaveGroup :: "rpc_context \<Rightarrow> string \<Rightarrow> u64 \<Rightarrow> u64 \<Rightarrow> unit reply io" where
  "LeaveGroup ctx rid uid gid = requireInternalRpc ctx rid ()
     (if uid = 0 \<or> gid = 0 then return (fillResponse rid EC_INVALID_ARGUMENT [], ())
      else do {
        g \<leftarrow> getGroupById gid;
        if g = None then return (fillResponse rid EC_GROUP_NOT_FOUND [], ())
        else do {
          member \<leftarrow> isMember gid uid;
          if \<not> member then return (fillResponse rid EC_GROUP_NOT_MEMBER [], ())
          else do {
            owner \<leftarrow> isOwner gid uid;
            if owner then return (fillResponse rid EC_GROUP_OWNER_CANNOT_LEAVE [], ())
            else do {
              ok \<leftarrow> removeMember gid uid;
              if \<not> ok then return (fillResponse rid EC_DB_ERROR [], ())
              else return (fillResponse rid EC_OK ''OK'', ()) } } } })"

definition ListGroupMembers :: "rpc_context \<Rightarrow> string \<Rightarrow> u64 \<Rightarrow> u64 \<Rightarrow> UserInfo list reply io" where
  "ListGroupMembers ctx rid requester gid = requireInternalRpc ctx rid []
     (if gid = 0 \<or> requester = 0 then return (fillResponse rid EC_INVALID_ARGUMENT [], [])
      else do {
        g \<leftarrow> getGroupById gid;
        if g = None then return (fillResponse rid EC_GROUP_NOT_FOUND [], [])
        else do {
          member \<leftarrow> isMember gid requester;
          if \<not> member then return (fillResponse rid EC_GROUP_NOT_MEMBER [], [])
          else do {
            ids \<leftarrow> listMembers gid;
            infos \<leftarrow> load_users ids;
            return (fillResponse rid EC_OK ''OK'', infos) } } })"

definition GetGroup :: "rpc_context \<Rightarrow> string \<Rightarrow> u64 \<Rightarrow> GroupInfo option reply io" where
  "GetGroup ctx rid gid = requireInternalRpc ctx rid None
     (if gid = 0 then return (fillResponse rid EC_INVALID_ARGUMENT [], None)
      else do {
        g \<leftarrow> getGroupById gid;
        case g of None \<Rightarrow> return (fillResponse rid EC_GROUP_NOT_FOUND [], None)
        | Some g \<Rightarrow> return (fillResponse rid EC_OK ''OK'', Some (fillGroup g)) })"

definition ListGroups :: "rpc_context \<Rightarrow> string \<Rightarrow> u64 \<Rightarrow> nat \<Rightarrow> GroupInfo list reply io" where
  "ListGroups ctx rid uid asked = requireInternalRpc ctx rid []
     (if uid = 0 then return (fillResponse rid EC_INVALID_ARGUMENT [], [])
      else do {
        let limit = (if asked = 0 then 100 else asked);
        let limit = (if limit > 200 then 200 else limit);
        gs \<leftarrow> listGroupsForUser uid limit;
        return (fillResponse rid EC_OK ''OK'', map fillGroup gs) })"

definition SearchGroups :: "text_match \<Rightarrow> rpc_context \<Rightarrow> string \<Rightarrow> string \<Rightarrow> nat \<Rightarrow> GroupInfo list reply io" where
  "SearchGroups tm ctx rid query asked = requireInternalRpc ctx rid []
     (if query = [] \<or> length query > 128 then return (fillResponse rid EC_INVALID_ARGUMENT [], [])
      else do {
        let limit = (if asked = 0 then 12 else asked);
        let limit = (if limit > 50 then 50 else limit);
        gs \<leftarrow> searchGroups tm query limit;
        return (fillResponse rid EC_OK ''OK'', map fillGroup gs) })"

end
