(* ===== verification/Service_Calm.thy ===== *)
theory Service_Calm
  imports Directory_Store
begin

text \<open>
  Runs in which every external call succeeds: in a world with an empty script a query gives its rows, a
  statement takes effect and a look-up is the pure function of the tables it stands for. The rules compute
  what a handler answers, where the rules of the weakest preconditions say what holds under every fault.
\<close>

named_theorems calm \<open>runs of calls that succeed\<close>

lemma run_bind [calm]: "run_state (State_Monad.bind m f) w = (case run_state m w of (x, w') \<Rightarrow> run_state (f x) w')"
  by (simp add: State_Monad.bind_def)

lemma run_basic [calm]:
  "run_state (return x) w = (x, w)" "run_state State_Monad.get w = (w, w)" "run_state (State_Monad.set v) w = ((), v)"
  "run_state (if b then m else n) w = (if b then run_state m w else run_state n w)"
  by (simp_all add: State_Monad.return_def State_Monad.get_def State_Monad.set_def)

lemma run_andalso [calm]:
  "run_state (andalso m n) w = (case run_state m w of (b, w') \<Rightarrow> if b then run_state n w' else (False, w'))"
  by (simp add: andalso_def calm split: prod.splits)

lemma run_pop_outcome [calm]: "script w = [] \<Longrightarrow> run_state pop_outcome w = (Succeeds, w)"
  by (simp add: pop_outcome_def pop_def calm)

lemma run_mysql [calm]:
  assumes "script w = []"
  shows "run_state acquire w = (True, w)" "run_state (pooled d m) w = run_state m w"
    "run_state (executeQuery q) w = (Some (q (db w)), w)" "run_state (execute f) w = (True, w\<lparr>db := f (db w)\<rparr>)"
    "run_state begin_tx w = (True, w\<lparr>tx := Some (db w)\<rparr>)" "run_state commit_tx w = (True, w\<lparr>tx := None\<rparr>)"
  using assms
  by (simp_all add: acquire_def pooled_def executeQuery_def execute_def executeUpdate_def begin_tx_def commit_tx_def calm)

lemma run_executeUpdate [calm]:
  "script w = [] \<Longrightarrow> run_state (executeUpdate stmt) w =
     (case stmt (db w) of None \<Rightarrow> (None, w) | Some (n, t) \<Rightarrow> (Some n, w\<lparr>db := t\<rparr>))"
  by (simp add: executeUpdate_def calm split: option.splits)

lemma run_redis [calm]:
  assumes "script w = []"
  shows "run_state (redis_get k) w = (kv (redis w) k, w)" "run_state (redis_exists k) w = (kv (redis w) k \<noteq> None, w)"
    "run_state (redis_smembers k) w = (smembers_of (redis w) k, w)"
    "run_state (redis_write f) w = (True, w\<lparr>redis := f (redis w)\<rparr>)"
    "run_state (redis_expire k) w = (kv (redis w) k \<noteq> None \<or> smembers_of (redis w) k \<noteq> [], w)"
  using assms
  by (simp_all add: redis_get_def redis_exists_def redis_smembers_def redis_write_def redis_expire_def calm)

lemma run_lookups [calm]:
  assumes "script w = []"
  shows "run_state (getUserById u) w = (select_one (\<lambda>r. user_id r = u) (users (db w)), w)"
    "run_state (isFriend a b) w = (friends (db w) a b, w)"
    "run_state (getGroupById g) w = (map_option (with_count (db w)) (select_one (\<lambda>x. group_row_id x = g) (groups (db w))), w)"
    "run_state (isMember g u) w = (list_ex (same_member g u) (group_members (db w)), w)"
    "run_state (isOwner g u) w = (list_ex (\<lambda>m. same_member g u m \<and> gm_role m = 1) (group_members (db w)), w)"
  using assms
  by (simp_all add: getUserById_def isFriend_def getGroupById_def isMember_def isOwner_def calm)

section \<open>Quiet worlds\<close>

text \<open>No call fails from here on.\<close>

definition quiet :: "world \<Rightarrow> bool" where
  "quiet w \<longleftrightarrow> script w = []"

lemma run_nowMs [calm]: "run_state nowMs w = (case clock w of [] \<Rightarrow> (0, w) | t # ts \<Rightarrow> (t, w\<lparr>clock := ts\<rparr>))"
  by (simp add: nowMs_def pop_def calm split: list.splits)

lemma run_random_token [calm]: "run_state random_token w = (case random w of [] \<Rightarrow> ([], w) | t # ts \<Rightarrow> (t, w\<lparr>random := ts\<rparr>))"
  by (simp add: random_token_def pop_def calm split: list.splits)

lemma keeps_quiet_calls [keeps_intros]:
  "keeps quiet nowMs" "keeps quiet random_token" "keeps quiet pop_outcome" "keeps quiet acquire" "keeps quiet (executeQuery q)" "keeps quiet (execute f)"
  "keeps quiet (redis_get k)" "keeps quiet (redis_write h)" "keeps quiet (redis_smembers k)" "keeps quiet State_Monad.get"
  by (auto simp: keeps_def wp_def quiet_def calm split: list.splits)

lemma keeps_quiet_redis [keeps_intros]:
  "keeps quiet (redis_setEx k v)" "keeps quiet (redis_del k)" "keeps quiet (redis_sadd k v)" "keeps quiet (redis_srem k v)"
  by (simp_all add: redis_setEx_def redis_del_def redis_sadd_def redis_srem_def keeps_intros)

lemma keeps_quiet_pooled [keeps_intros]: "keeps quiet m \<Longrightarrow> keeps quiet (pooled d m)"
  unfolding pooled_def by (intro keeps_intros)

lemma wp_keeps: "keeps I m \<Longrightarrow> I w \<Longrightarrow> (\<And>r w'. I w' \<Longrightarrow> Q r w') \<Longrightarrow> wp m Q w"
  unfolding keeps_def by (rule wp_mono [of m "\<lambda>_. I"]) auto

lemma wp_quiet_redis:
  "quiet w \<Longrightarrow> R (kv (redis w) k) w \<Longrightarrow> wp (redis_get k) R w"
  "quiet w \<Longrightarrow> Q True (w\<lparr>redis := (redis w)\<lparr>kv := (kv (redis w))(k := None),
      smembers_of := (smembers_of (redis w))(k := [])\<rparr>\<rparr>) \<Longrightarrow> wp (redis_del k) Q w"
  "quiet w \<Longrightarrow> Q True (w\<lparr>redis := (redis w)\<lparr>kv := (kv (redis w))(k := Some v)\<rparr>\<rparr>) \<Longrightarrow> wp (redis_setEx k v) Q w"
  by (simp_all add: quiet_def wp_def redis_del_def redis_setEx_def calm)


end
