(* ===== verification/Relation_Properties.thy ===== *)
theory Relation_Properties
  imports Relation_Service Service_Calm Message_Properties
begin

text \<open>
  The properties of the relation service, over every sequence of its calls and every fault pattern:
  friendship is symmetric and rests on an accepted request, a pair of users has at most one pending
  request, and only the addressee of a request makes a friendship.
\<close>

section \<open>Calls in sequence\<close>

datatype relation_call =
    Delete_friend rpc_context string u64 u64
  | List_friends rpc_context string u64
  | Send_request rpc_context string u64 u64 string
  | Accept_request rpc_context string u64 u64
  | Reject_request rpc_context string u64 u64
  | List_requests rpc_context string u64 bool int nat nat
  | Create_group rpc_context string u64 string
  | Join_group rpc_context string u64 u64
  | Leave_group rpc_context string u64 u64
  | List_group_members rpc_context string u64 u64
  | Get_group rpc_context string u64
  | List_groups rpc_context string u64 nat
  | Search_groups text_match rpc_context string string nat

fun relation_perform :: "relation_call \<Rightarrow> unit io" where
  "relation_perform (Delete_friend ctx rid u f) = do { _ \<leftarrow> DeleteFriend ctx rid u f; return () }"
| "relation_perform (List_friends ctx rid u) = do { _ \<leftarrow> ListFriends ctx rid u; return () }"
| "relation_perform (Send_request ctx rid a b m) = do { _ \<leftarrow> SendFriendRequest ctx rid a b m; return () }"
| "relation_perform (Accept_request ctx rid u q) = do { _ \<leftarrow> AcceptFriendRequest ctx rid u q; return () }"
| "relation_perform (Reject_request ctx rid u q) = do { _ \<leftarrow> RejectFriendRequest ctx rid u q; return () }"
| "relation_perform (List_requests ctx rid u i st p n) = do { _ \<leftarrow> ListFriendRequests ctx rid u i st p n; return () }"
| "relation_perform (Create_group ctx rid u name) = do { _ \<leftarrow> CreateGroup ctx rid u name; return () }"
| "relation_perform (Join_group ctx rid u g) = do { _ \<leftarrow> JoinGroup ctx rid u g; return () }"
| "relation_perform (Leave_group ctx rid u g) = do { _ \<leftarrow> LeaveGroup ctx rid u g; return () }"
| "relation_perform (List_group_members ctx rid u g) = do { _ \<leftarrow> ListGroupMembers ctx rid u g; return () }"
| "relation_perform (Get_group ctx rid g) = do { _ \<leftarrow> GetGroup ctx rid g; return () }"
| "relation_perform (List_groups ctx rid u n) = do { _ \<leftarrow> ListGroups ctx rid u n; return () }"
| "relation_perform (Search_groups tm ctx rid s n) = do { _ \<leftarrow> SearchGroups tm ctx rid s n; return () }"

primrec relation_perform_all :: "relation_call list \<Rightarrow> unit io" where
  "relation_perform_all [] = return ()"
| "relation_perform_all (c # cs) = do { _ \<leftarrow> relation_perform c; relation_perform_all cs }"

section \<open>What one call does to friendships and requests\<close>

lemma wp_deleteFriendBidirectional:
  assumes "tx w = None"
    and "\<And>r w'. tx w' = None \<Longrightarrow> db w' = db w \<or> (\<exists>now now'. db w' = sql_deleteFriend b a now' (sql_deleteFriend a b now (db w))) \<Longrightarrow> Q r w'"
  shows "wp (deleteFriendBidirectional a b) Q w"
  unfolding deleteFriendBidirectional_def
  by (intro wp_pooled wp_with_tx wp_bind wp_if wp_return wp_nowMs wp_execute wp_commit_tx)
     (use assms(1) in \<open>simp_all add: assms(2)\<close>, (intro assms(2); auto)+)

definition asked :: "FriendRequest \<Rightarrow> tables \<Rightarrow> tables \<Rightarrow> bool" where
  "asked q t t' \<longleftrightarrow> (\<exists>q' n. sql_createRequest q' t = Some (n, t') \<and> fr_status q' = fr_status q
     \<and> fr_from_user_id q' = fr_from_user_id q \<and> fr_to_user_id q' = fr_to_user_id q)"

lemma askedI:
  "sql_createRequest q' t = Some (n, t') \<Longrightarrow> fr_status q' = fr_status q \<Longrightarrow> fr_from_user_id q' = fr_from_user_id q \<Longrightarrow>
     fr_to_user_id q' = fr_to_user_id q \<Longrightarrow> asked q t t'"
  unfolding asked_def by blast

lemma wp_createRequest:
  assumes "tx w = None" and "\<And>r w'. tx w' = None \<Longrightarrow> db w' = db w \<or> asked q (db w) (db w') \<Longrightarrow> Q r w'"
  shows "wp (createRequest q) Q w"
proof -
  have "Q r (v\<lparr>db := t\<rparr>)" if "tx v = None" "sql_createRequest q' (db w) = Some (n, t)" "fr_status q' = fr_status q"
    "fr_from_user_id q' = fr_from_user_id q" "fr_to_user_id q' = fr_to_user_id q" for q' n t v r
    using that by (intro assms(2)) (auto intro: askedI)
  then show ?thesis
    unfolding createRequest_def
    by (intro wp_pooled wp_bind wp_if wp_return wp_nowMs wp_auto_increment wp_executeUpdate conjI) (auto simp: assms)
qed

definition restatused :: "u64 \<Rightarrow> int \<Rightarrow> int \<Rightarrow> tables \<Rightarrow> tables \<Rightarrow> bool" where
  "restatused i a b t t' \<longleftrightarrow> (\<exists>now n. sql_updateStatus i a b now t = Some (n, t'))"

lemma wp_updateStatus_on:
  assumes "\<And>r w'. tx w' = tx w \<Longrightarrow> db w' = db w \<or> restatused i a b (db w) (db w') \<Longrightarrow>
      (r \<Longrightarrow> restatused i a b (db w) (db w')) \<Longrightarrow> Q r w'"
  shows "wp (updateStatus_on i a b) Q w"
  unfolding updateStatus_on_def
  by (intro wp_bind wp_nowMs wp_executeUpdate conjI wp_return assms) (auto simp: affected_def restatused_def)

lemma wp_updateStatus:
  assumes "tx w = None" and "\<And>r w'. tx w' = None \<Longrightarrow> db w' = db w \<or> restatused i a b (db w) (db w') \<Longrightarrow> Q r w'"
  shows "wp (updateStatus i a b) Q w"
  unfolding updateStatus_def by (intro wp_pooled wp_updateStatus_on assms) (simp_all add: assms(1))

text \<open>Accepting: both friendship rows and the new status, or nothing.\<close>

definition befriended :: "FriendRequest \<Rightarrow> tables \<Rightarrow> tables \<Rightarrow> bool" where
  "befriended q t t' \<longleftrightarrow> (\<exists>t1 now now'. restatused (fr_id q) REQUEST_PENDING REQUEST_ACCEPTED t t1 \<and>
     t' = sql_addFriend (fr_to_user_id q) (fr_from_user_id q) now' (sql_addFriend (fr_from_user_id q) (fr_to_user_id q) now t1))"

lemma wp_acceptRequestWithFriendship:
  assumes "tx w = None"
    and "\<And>r w'. tx w' = None \<Longrightarrow> db w' = db w \<and> \<not> r \<or> (\<exists>q \<in> set (friend_requests (db w)). fr_id q = i \<and>
       fr_status q = REQUEST_PENDING \<and> befriended q (db w) (db w')) \<Longrightarrow> Q r w'"
  shows "wp (acceptRequestWithFriendship i) Q w"
proof -
  have yes: "Q r v" if "select_one (\<lambda>r. fr_id r = i) (friend_requests (db w)) = Some q" "fr_status q = REQUEST_PENDING"
    "tx v = None" "restatused i REQUEST_PENDING REQUEST_ACCEPTED (db w) t1"
    "db v = sql_addFriend (fr_to_user_id q) (fr_from_user_id q) now' (sql_addFriend (fr_from_user_id q) (fr_to_user_id q) now t1)"
    for r v q t1 now now'
    by (rule assms(2)) (use that select_one_Some [OF that(1)] in \<open>auto simp: befriended_def\<close>)
  show ?thesis
    unfolding acceptRequestWithFriendship_def addFriendBidirectional_on_def addFriend_on_def
    by (intro wp_pooled wp_bind wp_executeQuery wp_case_option wp_if wp_return wp_with_tx wp_andalso wp_if_post wp_updateStatus_on
          wp_nowMs wp_execute wp_commit_tx)
       (simp_all add: assms yes)
qed

text \<open>The changes a call may make to the two tables.\<close>

definition same_relations :: "tables \<Rightarrow> tables \<Rightarrow> bool" where
  "same_relations t t' \<longleftrightarrow> friendships t' = friendships t \<and> friend_requests t' = friend_requests t"

inductive relation_change :: "relation_call \<Rightarrow> tables \<Rightarrow> tables \<Rightarrow> bool" where
  none: "same_relations t t' \<Longrightarrow> relation_change c t t'"
| unfriend: "relation_change (Delete_friend ctx rid a b) t (sql_deleteFriend b a now' (sql_deleteFriend a b now t))"
| ask: "asked q t t' \<Longrightarrow> fr_status q = REQUEST_PENDING \<Longrightarrow> fr_from_user_id q = a \<Longrightarrow> fr_to_user_id q = b \<Longrightarrow> a \<noteq> b \<Longrightarrow>
    relation_change (Send_request ctx rid a b m) t t'"
| accept: "q \<in> set (friend_requests t) \<Longrightarrow> fr_id q = i \<Longrightarrow> fr_to_user_id q' = u \<Longrightarrow> q' \<in> set (friend_requests t) \<Longrightarrow> fr_id q' = i \<Longrightarrow>
    fr_status q = REQUEST_PENDING \<Longrightarrow> befriended q t t' \<Longrightarrow> relation_change (Accept_request ctx rid u i) t t'"
| reject: "restatused i REQUEST_PENDING REQUEST_REJECTED t t' \<Longrightarrow> relation_change (Reject_request ctx rid u i) t t'"

lemma same_relations_refl [simp]: "same_relations t t"
  by (simp add: same_relations_def)

lemma keeps_relations_reads:
  "keeps (stored P) (getUserById u)" "keeps (stored P) (isFriend a b)" "keeps (stored P) (listFriends u)"
  "keeps (stored P) (hasPendingBetween a b)" "keeps (stored P) (getByRequestId i)" "keeps (stored P) (listReceived u st n)"
  "keeps (stored P) (listSent u st n)" "keeps (stored P) (getGroupById g)" "keeps (stored P) (isMember g u)"
  "keeps (stored P) (isOwner g u)" "keeps (stored P) (listMembers g)" "keeps (stored P) (listGroupsForUser u n)"
  "keeps (stored P) (searchGroups tm s n)"
  "keeps closed (getUserById u)" "keeps closed (isFriend a b)" "keeps closed (listFriends u)"
  "keeps closed (hasPendingBetween a b)" "keeps closed (getByRequestId i)" "keeps closed (listReceived u st n)"
  "keeps closed (listSent u st n)" "keeps closed (getGroupById g)" "keeps closed (isMember g u)"
  "keeps closed (isOwner g u)" "keeps closed (listMembers g)" "keeps closed (listGroupsForUser u n)"
  "keeps closed (searchGroups tm s n)"
  unfolding getUserById_def isFriend_def listFriends_def hasPendingBetween_def getByRequestId_def listReceived_def
    listSent_def getGroupById_def isMember_def isOwner_def listMembers_def listGroupsForUser_def searchGroups_def
  by (intro keeps_intros)+

lemma keeps_load_users: "keeps (stored P) (load_users is)" "keeps closed (load_users is)"
  by (induction "is") (auto intro!: keeps_intros keeps_relations_reads)

lemma keeps_group_writes:
  "keeps (stored (same_relations t)) (createGroup g)" "keeps (stored (same_relations t)) (addMember i u r)"
  "keeps (stored (same_relations t)) (removeMember i u)"
  "keeps closed (createGroup g)" "keeps closed (addMember i u r)" "keeps closed (removeMember i u)"
  unfolding createGroup_def addMember_def removeMember_def
  by (intro keeps_intros keeps_execute keeps_executeUpdate;
      auto simp: same_relations_def sql_insertGroup_def sql_insertMember_def sql_addMember_def sql_removeMember_def split: if_splits)+

lemma keeps_group_handlers:
  "keeps (stored (same_relations t)) (CreateGroup ctx rid u name)" "keeps (stored (same_relations t)) (JoinGroup ctx rid u g)"
  "keeps (stored (same_relations t)) (LeaveGroup ctx rid u g)" "keeps (stored (same_relations t)) (ListGroupMembers ctx rid u g)"
  "keeps (stored (same_relations t)) (GetGroup ctx rid g)" "keeps (stored (same_relations t)) (ListGroups ctx rid u n)"
  "keeps (stored (same_relations t)) (SearchGroups tm ctx rid s n)" "keeps (stored (same_relations t)) (ListFriends ctx rid u)"
  "keeps (stored (same_relations t)) (ListFriendRequests ctx rid u inc st p n)"
  "keeps closed (CreateGroup ctx rid u name)" "keeps closed (JoinGroup ctx rid u g)"
  "keeps closed (LeaveGroup ctx rid u g)" "keeps closed (ListGroupMembers ctx rid u g)"
  "keeps closed (GetGroup ctx rid g)" "keeps closed (ListGroups ctx rid u n)"
  "keeps closed (SearchGroups tm ctx rid s n)" "keeps closed (ListFriends ctx rid u)"
  "keeps closed (ListFriendRequests ctx rid u inc st p n)"
  unfolding CreateGroup_def JoinGroup_def LeaveGroup_def ListGroupMembers_def GetGroup_def ListGroups_def SearchGroups_def
    ListFriends_def ListFriendRequests_def requireInternalRpc_def
  by (intro keeps_intros keeps_relations_reads keeps_group_writes keeps_load_users)+

lemma wp_unchanged_relations:
  assumes "keeps (stored (same_relations (db w))) m" and "keeps closed m" and "tx w = None"
  shows "wp (do { _ \<leftarrow> m; return () }) (\<lambda>_ w'. tx w' = None \<and> relation_change c (db w) (db w')) w"
proof -
  have "wp m (\<lambda>_. idle (same_relations (db w))) w"
    using keeps_idle [OF assms(1,2)] assms(3) by (simp add: keeps_def idle_def)
  then show ?thesis
    by (intro wp_bind wp_return) (erule wp_mono, auto simp: idle_def intro: none wp_return)
qed

lemma wp_relation_perform:
  assumes w: "tx w = None"
  shows "wp (relation_perform c) (\<lambda>_ w'. tx w' = None \<and> relation_change c (db w) (db w')) w"
proof (cases c)
  case (Delete_friend ctx rid a b)
  then show ?thesis
    by (simp only: relation_perform.simps DeleteFriend_def requireInternalRpc_def, intro wp_bind wp_if wp_return wp_isFriend wp_deleteFriendBidirectional)
       (auto simp: w undisturbed_def intro: none unfriend)
next
  case (Send_request ctx rid a b m)
  then show ?thesis
    by (simp only: relation_perform.simps SendFriendRequest_def requireInternalRpc_def, intro wp_bind wp_if wp_return wp_andalso wp_if_post
          wp_getUserById wp_isFriend wp_nowMs wp_createRequest wp_case_option wp_hasPendingBetween)
       (auto simp: w undisturbed_def intro: none ask)
next
  case (Accept_request ctx rid u i)
  then show ?thesis
    by (simp only: relation_perform.simps AcceptFriendRequest_def on_request_def requireInternalRpc_def, intro wp_bind wp_if wp_return
          wp_getByRequestId wp_case_option wp_acceptRequestWithFriendship)
       (auto simp: w undisturbed_def intro: none accept)
next
  case (Reject_request ctx rid u i)
  then show ?thesis
    by (simp only: relation_perform.simps RejectFriendRequest_def on_request_def requireInternalRpc_def, intro wp_bind wp_if wp_return
          wp_getByRequestId wp_case_option wp_updateStatus)
       (auto simp: w undisturbed_def intro: none reject)
qed (simp_all only: relation_perform.simps, (intro wp_unchanged_relations keeps_group_handlers w)+)

section \<open>The invariant\<close>

text \<open>
  One row per ordered pair of users and per request id; friendship is symmetric, irreflexive and backed by
  an accepted request between the two; two pending requests between the same users are the same request.
\<close>

definition backed :: "tables \<Rightarrow> u64 \<Rightarrow> u64 \<Rightarrow> bool" where
  "backed t a b \<longleftrightarrow> list_ex (\<lambda>q. fr_status q = REQUEST_ACCEPTED \<and> between a b q) (friend_requests t)"

definition friendships_ok :: "tables \<Rightarrow> bool" where
  "friendships_ok t \<longleftrightarrow> distinct (map (\<lambda>f. (fs_user_id f, fs_friend_id f)) (friendships t))
     \<and> (\<forall>a b. friends t a b \<longrightarrow> a \<noteq> b \<and> friends t b a \<and> backed t a b)"

definition requests_ok :: "tables \<Rightarrow> bool" where
  "requests_ok t \<longleftrightarrow> distinct (map fr_id (friend_requests t))
     \<and> (\<forall>q \<in> set (friend_requests t). fr_from_user_id q \<noteq> fr_to_user_id q)
     \<and> (\<forall>q \<in> set (friend_requests t). \<forall>r \<in> set (friend_requests t). fr_status q = REQUEST_PENDING \<longrightarrow>
          fr_status r = REQUEST_PENDING \<longrightarrow> between (fr_from_user_id q) (fr_to_user_id q) r \<longrightarrow> fr_id q = fr_id r)"

definition relations_ok :: "tables \<Rightarrow> bool" where
  "relations_ok t \<longleftrightarrow> friendships_ok t \<and> requests_ok t"

lemma list_ex_befriend:
  "list_ex (\<lambda>f. same_friendship x y f \<and> fs_status f = 1)
     (update_where (same_friendship a b) (\<lambda>f. f\<lparr>fs_status := 1, fs_updated_at := now\<rparr>) fs)
   \<longleftrightarrow> list_ex (\<lambda>f. same_friendship x y f \<and> fs_status f = 1) fs \<or> (x = a \<and> y = b \<and> list_ex (same_friendship a b) fs)"
  by (induction fs) (auto simp: same_friendship_def)

lemma friends_addFriend [simp]:
  "friends (sql_addFriend a b now t) x y \<longleftrightarrow> friends t x y \<or> x = a \<and> y = b"
  by (simp add: friends_def sql_addFriend_def upsert_def list_ex_befriend) (auto simp: same_friendship_def)

lemma friends_deleteFriend [simp]:
  "friends (sql_deleteFriend a b now t) x y \<longleftrightarrow> friends t x y \<and> \<not> (x = a \<and> y = b)"
  unfolding friends_def sql_deleteFriend_def list_ex_iff
  by (auto simp: Bex_update_where same_friendship_def)

lemma distinct_addFriend [simp]:
  "distinct (map (\<lambda>f. (fs_user_id f, fs_friend_id f)) (friendships t)) \<Longrightarrow>
   distinct (map (\<lambda>f. (fs_user_id f, fs_friend_id f)) (friendships (sql_addFriend a b now t)))"
  unfolding sql_addFriend_def by simp (rule distinct_upsert, auto simp: same_friendship_def)

lemma map_deleteFriend [simp]:
  "map (\<lambda>f. (fs_user_id f, fs_friend_id f)) (friendships (sql_deleteFriend a b now t))
   = map (\<lambda>f. (fs_user_id f, fs_friend_id f)) (friendships t)"
  unfolding sql_deleteFriend_def by simp (rule map_update_where_key, simp)

lemma requests_friendship_writes [simp]:
  "friend_requests (sql_addFriend a b now t) = friend_requests t"
  "friend_requests (sql_deleteFriend a b now t) = friend_requests t"
  by (simp_all add: sql_addFriend_def sql_deleteFriend_def)

lemma between_sym: "between a b q \<longleftrightarrow> between b a q"
  by (auto simp: between_def)

lemma same_relations_cong:
  "same_relations t t' \<Longrightarrow> friends t' = friends t" "same_relations t t' \<Longrightarrow> relations_ok t' = relations_ok t"
  by (simp_all add: same_relations_def fun_eq_iff friends_def relations_ok_def friendships_ok_def requests_ok_def backed_def)

lemma restatused_D:
  assumes "restatused i a b t t'"
  obtains now where "friend_requests t' = update_where (\<lambda>r. fr_id r = i \<and> fr_status r = a)
      (\<lambda>r. r\<lparr>fr_status := b, fr_updated_at := now\<rparr>) (friend_requests t)" "friendships t' = friendships t"
  using assms that by (auto simp: restatused_def sql_updateStatus_def Let_def)

lemma requests_ok_restatused:
  assumes "requests_ok t" "restatused i REQUEST_PENDING b t t'" "b \<noteq> REQUEST_PENDING"
  shows "requests_ok t'"
proof -
  obtain now where t': "friend_requests t' = update_where (\<lambda>r. fr_id r = i \<and> fr_status r = REQUEST_PENDING)
      (\<lambda>r. r\<lparr>fr_status := b, fr_updated_at := now\<rparr>) (friend_requests t)"
    using assms(2) by (rule restatused_D)
  have "map fr_id (friend_requests t') = map fr_id (friend_requests t)"
    unfolding t' by (rule map_update_where_key) simp
  moreover have old: "\<exists>r \<in> set (friend_requests t). fr_from_user_id q = fr_from_user_id r \<and> fr_to_user_id q = fr_to_user_id r
      \<and> (fr_status q = REQUEST_PENDING \<longrightarrow> q = r)" if "q \<in> set (friend_requests t')" for q
    using that assms(3) unfolding t' set_update_where by auto
  moreover have "fr_id q = fr_id r" if h: "q \<in> set (friend_requests t')" "r \<in> set (friend_requests t')" "fr_status q = REQUEST_PENDING"
    "fr_status r = REQUEST_PENDING" "between (fr_from_user_id q) (fr_to_user_id q) r" for q r
    using old [OF h(1)] old [OF h(2)] h(3-5) assms(1) unfolding requests_ok_def by blast
  ultimately show ?thesis
    using assms(1) unfolding requests_ok_def by metis
qed

lemma backed_restatused:
  assumes "backed t x y" "restatused i REQUEST_PENDING b t t'"
  shows "backed t' x y"
proof -
  obtain now where "friend_requests t' = update_where (\<lambda>r. fr_id r = i \<and> fr_status r = REQUEST_PENDING)
      (\<lambda>r. r\<lparr>fr_status := b, fr_updated_at := now\<rparr>) (friend_requests t)"
    using assms(2) by (rule restatused_D)
  moreover obtain q where "q \<in> set (friend_requests t)" "fr_status q = REQUEST_ACCEPTED" "between x y q"
    using assms(1) by (auto simp: backed_def list_ex_iff)
  ultimately show ?thesis
    by (auto simp: backed_def list_ex_iff Bex_update_where REQUEST_PENDING_def REQUEST_ACCEPTED_def intro!: bexI [of _ q])
qed

lemma backed_accepted:
  assumes "restatused (fr_id q) REQUEST_PENDING REQUEST_ACCEPTED t t'" "q \<in> set (friend_requests t)"
    "fr_status q = REQUEST_PENDING" "between x y q"
  shows "backed t' x y"
proof -
  obtain now where "friend_requests t' = update_where (\<lambda>r. fr_id r = fr_id q \<and> fr_status r = REQUEST_PENDING)
      (\<lambda>r. r\<lparr>fr_status := REQUEST_ACCEPTED, fr_updated_at := now\<rparr>) (friend_requests t)"
    using assms(1) by (rule restatused_D)
  then show ?thesis
    using assms(2-4) by (auto simp: backed_def list_ex_iff Bex_update_where between_def intro!: bexI [of _ q])
qed

lemma friends_restatused: "restatused i a b t t' \<Longrightarrow> friends t' = friends t"
  by (auto simp: fun_eq_iff friends_def elim: restatused_D)

lemma friends_befriended: "befriended q t t' \<Longrightarrow> friends t' x y \<longleftrightarrow> friends t x y \<or> between x y q"
  by (auto simp: befriended_def between_def dest: friends_restatused)

lemma asked_D:
  assumes "asked q t t'" "fr_status q = REQUEST_PENDING"
  obtains q' where "friend_requests t' = friend_requests t @ [q']" "friendships t' = friendships t"
    "fr_id q' \<notin> fr_id ` set (friend_requests t)" "fr_from_user_id q' = fr_from_user_id q" "fr_to_user_id q' = fr_to_user_id q"
    "\<And>r. r \<in> set (friend_requests t) \<Longrightarrow> fr_status r = REQUEST_PENDING \<Longrightarrow> \<not> between (fr_from_user_id q) (fr_to_user_id q) r"
proof -
  obtain q' n where q': "sql_createRequest q' t = Some (n, t')" "fr_status q' = REQUEST_PENDING"
    "fr_from_user_id q' = fr_from_user_id q" "fr_to_user_id q' = fr_to_user_id q"
    using assms by (auto simp: asked_def)
  have "\<not> between (fr_from_user_id q) (fr_to_user_id q) r" if "r \<in> set (friend_requests t)" "fr_status r = REQUEST_PENDING" for r
    using q' that by (auto simp: sql_createRequest_def list_ex_iff between_def min.commute max.commute split: if_splits)
  moreover have "friend_requests t' = friend_requests t @ [q']" "friendships t' = friendships t"
    "fr_id q' \<notin> fr_id ` set (friend_requests t)"
    using q'(1) by (auto simp: sql_createRequest_def list_ex_iff image_iff split: if_splits)
  ultimately show ?thesis using that q'(3,4) by blast
qed

lemma requests_ok_snoc:
  assumes "requests_ok t" "friend_requests t' = friend_requests t @ [q]" "fr_id q \<notin> fr_id ` set (friend_requests t)"
    "fr_from_user_id q \<noteq> fr_to_user_id q"
    and new: "\<And>r. r \<in> set (friend_requests t) \<Longrightarrow> fr_status r = REQUEST_PENDING \<Longrightarrow> \<not> between (fr_from_user_id q) (fr_to_user_id q) r"
  shows "requests_ok t'"
proof -
  have set: "set (friend_requests t') = insert q (set (friend_requests t))" by (simp add: assms(2))
  have sym: "between (fr_from_user_id r) (fr_to_user_id r) q = between (fr_from_user_id q) (fr_to_user_id q) r" for r
    by (auto simp: between_def)
  have "distinct (map fr_id (friend_requests t'))" using assms(1-3) by (simp add: requests_ok_def)
  moreover have "\<forall>r \<in> set (friend_requests t'). fr_from_user_id r \<noteq> fr_to_user_id r"
    using assms(1,4) by (simp add: requests_ok_def set)
  moreover have "fr_id p = fr_id r" if "p \<in> set (friend_requests t')" "r \<in> set (friend_requests t')"
    "fr_status p = REQUEST_PENDING" "fr_status r = REQUEST_PENDING" "between (fr_from_user_id p) (fr_to_user_id p) r" for p r
    using that new [of p] new [of r] sym [of p] assms(1) unfolding set requests_ok_def by (elim insertE) simp_all
  ultimately show ?thesis unfolding requests_ok_def by blast
qed

lemma relation_change_ok:
  assumes "relation_change c t t'" and "relations_ok t"
  shows "relations_ok t'"
  using assms
proof cases
  case (ask q a b ctx rid m)
  obtain q' where q': "friend_requests t' = friend_requests t @ [q']" "friendships t' = friendships t"
    "fr_id q' \<notin> fr_id ` set (friend_requests t)" "fr_from_user_id q' = a" "fr_to_user_id q' = b"
    "\<And>r. r \<in> set (friend_requests t) \<Longrightarrow> fr_status r = REQUEST_PENDING \<Longrightarrow> \<not> between a b r"
    using asked_D [OF ask(2,3)] ask(4,5) by metis
  have "requests_ok t'"
    using assms(2) q' ask(6) by (intro requests_ok_snoc [of t t' q']) (simp_all add: relations_ok_def)
  moreover have "friends t' = friends t" "backed t x y \<Longrightarrow> backed t' x y" for x y
    by (auto simp: fun_eq_iff friends_def backed_def q')
  ultimately show ?thesis using assms(2) by (auto simp: relations_ok_def friendships_ok_def q')
next
  case (accept q i q' u ctx rid)
  obtain t1 now now' where t1: "restatused (fr_id q) REQUEST_PENDING REQUEST_ACCEPTED t t1"
    "t' = sql_addFriend (fr_to_user_id q) (fr_from_user_id q) now' (sql_addFriend (fr_from_user_id q) (fr_to_user_id q) now t1)"
    using accept(8) unfolding befriended_def by blast
  have r: "requests_ok t1" using assms(2) t1(1) by (auto simp: relations_ok_def intro: requests_ok_restatused simp: REQUEST_PENDING_def REQUEST_ACCEPTED_def)
  have b: "backed t1 x y" if "friends t x y \<or> between x y q" for x y
    using that assms(2) backed_restatused [OF _ t1(1)] backed_accepted [OF t1(1) accept(2) accept(7)]
    by (auto simp: relations_ok_def friendships_ok_def)
  have n: "fr_from_user_id q \<noteq> fr_to_user_id q" using assms(2) accept(2) by (simp add: relations_ok_def requests_ok_def)
  have d: "distinct (map (\<lambda>f. (fs_user_id f, fs_friend_id f)) (friendships t1))"
    using assms(2) t1(1) by (auto simp: relations_ok_def friendships_ok_def elim: restatused_D)
  have f: "friends t' x y \<longleftrightarrow> friends t x y \<or> between x y q" for x y by (rule friends_befriended) (rule accept)
  have "backed t' = backed t1" by (simp add: fun_eq_iff backed_def t1(2))
  with b n assms(2) have "friends t' x y \<longrightarrow> x \<noteq> y \<and> friends t' y x \<and> backed t' x y" for x y
    unfolding f by (auto simp: relations_ok_def friendships_ok_def between_def)
  moreover have "requests_ok t'" using r by (simp add: requests_ok_def t1(2))
  ultimately show ?thesis using d by (simp add: relations_ok_def friendships_ok_def t1(2))
next
  case (reject i ctx rid u)
  have "requests_ok t'" using assms(2) reject(2)
    by (auto simp: relations_ok_def REQUEST_PENDING_def REQUEST_REJECTED_def intro: requests_ok_restatused)
  moreover have "friendships t' = friendships t" using reject(2) by (auto elim: restatused_D)
  ultimately show ?thesis
    using assms(2) friends_restatused [OF reject(2)] backed_restatused [OF _ reject(2)]
    by (auto simp: relations_ok_def friendships_ok_def)
next
  case none
  then show ?thesis using assms(2) by (simp add: same_relations_cong)
qed (auto simp: relations_ok_def friendships_ok_def requests_ok_def backed_def)

lemma keeps_relations_ok: "keeps (idle relations_ok) (relation_perform_all cs)"
proof (induction cs)
  case (Cons c cs)
  have "keeps (idle relations_ok) (relation_perform c)"
    by (rule keeps_I, rule wp_mono, rule wp_relation_perform) (auto simp: idle_def intro: relation_change_ok)
  with Cons show ?case by (auto intro!: keeps_intros)
qed (simp add: keeps_return)

section \<open>Properties\<close>


definition party_world :: world where
  "party_world = chat_world\<lparr>db := empty_tables\<lparr>users := users chat_tables,
     friend_requests := [\<lparr>fr_id = 1, fr_from_user_id = 1, fr_to_user_id = 3, fr_message = ''hi'', fr_status = REQUEST_PENDING,
       fr_created_at = 5, fr_updated_at = 5\<rparr>]\<rparr>\<rparr>"

lemma party_tables_ok: "relations_ok (db party_world)" "tx party_world = None"
  by (simp_all add: party_world_def relations_ok_def friendships_ok_def requests_ok_def friends_def empty_tables_def)


text \<open>
  C14. Only the addressee makes a friendship and only a friend ends it. When a call, under any fault pattern,
  makes two users friends who were not, it is the acceptance, by the user it was addressed to, of a pending
  request between the two; when it ends a friendship, it is a deletion that names both.
\<close>

theorem only_the_addressee_befriends:
  assumes "relations_ok (db w)" and "tx w = None" and "run_state (relation_perform c) w = (u, w')"
  shows "(friends (db w') a b \<and> \<not> friends (db w) a b \<longrightarrow>
       (\<exists>ctx rid q. c = Accept_request ctx rid (fr_to_user_id q) (fr_id q) \<and> q \<in> set (friend_requests (db w))
          \<and> fr_status q = REQUEST_PENDING \<and> between a b q))
     \<and> (friends (db w) a b \<and> \<not> friends (db w') a b \<longrightarrow>
       (\<exists>ctx rid. c = Delete_friend ctx rid a b \<or> c = Delete_friend ctx rid b a))"
proof -
  have "relation_change c (db w) (db w')" using wp_I [OF wp_relation_perform [OF assms(2)] assms(3)] by simp
  then show ?thesis
  proof cases
    case (accept q i q' v ctx rid)
    have "q' = q"
      using assms(1) accept(2,3,5,6) by (auto simp: relations_ok_def requests_ok_def distinct_map inj_on_def)
    with accept show ?thesis by (auto simp: friends_befriended)
  next
    case (ask q a' b' ctx rid m)
    then have "friends (db w') = friends (db w)" by (auto simp: fun_eq_iff friends_def elim: asked_D)
    then show ?thesis by simp
  qed (auto simp: same_relations_cong friends_restatused)
qed

theorem only_the_addressee_befriends_witness:
  "friends (db (snd (run_state (relation_perform (Accept_request caller ''r'' 3 1)) party_world))) 1 3
   \<and> \<not> friends (db (snd (run_state (relation_perform (Accept_request caller ''r'' 1 1)) party_world))) 1 3"
proof -
  have "friends (db (snd (run_state (relation_perform (Accept_request caller ''r'' 3 1)) party_world))) 1 3"
    by code_simp
  moreover have "\<not> friends (db party_world) 1 3" by code_simp
  ultimately show ?thesis
    using only_the_addressee_befriends [OF party_tables_ok, of "Accept_request caller ''r'' 1 1", OF surjective_pairing, of 1 3]
    by (auto simp: party_world_def)
qed



text \<open>
  The owner's check answers \<open>False\<close> when its query fails, and then the owner is removed: the group is left
  with no member that has the owner's role.
\<close>

lemma owner_leaves_when_the_check_fails:
  "let (r, w') = run_state (LeaveGroup caller ''r'' 1 7) (chat_world\<lparr>script := [Succeeds, Succeeds, Succeeds, Succeeds, Fails]\<rparr>)
   in is_ok (fst r) \<and> map gm_user_id (group_members (db w')) = [2] \<and> map owner_id (groups (db w')) = [1]"
  by code_simp

end
