(* ===== verification/Online_Status.thy ===== *)
theory Online_Status
  imports Service_World
begin

text \<open>
  Where a user's devices are connected, as the services keep it in Redis: \<^verbatim>\<open>common/push/OnlineStatusManager\<close>
  and \<^verbatim>\<open>common/gateway/GatewayOnlineManager\<close>, which share their keys; and the clients of the gateways,
  \<^verbatim>\<open>common/push/GatewayClient\<close> with the circuit breaker of each and \<^verbatim>\<open>common/push/GatewayClientManager\<close>.
  Times to live are not modelled. A gateway is another process: what it does with a call is the call's
  outcome, and the message it takes is recorded in the world.
\<close>

section \<open>Keys\<close>

definition devicesKey :: "u64 \<Rightarrow> string" where
  "devicesKey u = ''nebula:user:devices:'' @ to_string (unat u)"

definition onlineKey :: "u64 \<Rightarrow> string \<Rightarrow> string" where
  "onlineKey u d = ''nebula:user:online:'' @ to_string (unat u) @ '':'' @ d"

definition connKey :: "u64 \<Rightarrow> string \<Rightarrow> string" where
  "connKey u d = ''nebula:user:conn:'' @ to_string (unat u) @ '':'' @ d"

section \<open>The push side\<close>

record OnlineStatus =
  os_online :: bool
  os_gateway_id :: string
  os_connection_id :: string
  os_device_id :: string

definition default_OnlineStatus :: OnlineStatus where
  "default_OnlineStatus = \<lparr>os_online = False, os_gateway_id = [], os_connection_id = [], os_device_id = []\<rparr>"

primrec online_devices :: "u64 \<Rightarrow> string list \<Rightarrow> OnlineStatus list io" where
  "online_devices u [] = return []"
| "online_devices u (d # ds) = do {
     gateway \<leftarrow> redis_get (onlineKey u d);
     conn \<leftarrow> redis_get (connKey u d);
     if gateway = None \<or> conn = None
     then do { _ \<leftarrow> redis_srem (devicesKey u) d; online_devices u ds }
     else do {
       rest \<leftarrow> online_devices u ds;
       return (\<lparr>os_online = True, os_gateway_id = the gateway, os_connection_id = the conn, os_device_id = d\<rparr> # rest) } }"

definition getOnlineStatuses :: "u64 \<Rightarrow> OnlineStatus list io" where
  "getOnlineStatuses u = (if u = 0 then return []
     else do { ds \<leftarrow> redis_smembers (devicesKey u); online_devices u ds })"

definition getOnlineStatus :: "u64 \<Rightarrow> OnlineStatus io" where
  "getOnlineStatus u = (if u = 0 then return default_OnlineStatus
     else do { ss \<leftarrow> getOnlineStatuses u; return (case ss of [] \<Rightarrow> default_OnlineStatus | s # _ \<Rightarrow> s) })"

text \<open>The steps of going online, undone when one of them fails.\<close>

definition forget_device :: "u64 \<Rightarrow> string \<Rightarrow> unit io" where
  "forget_device u d = do {
     _ \<leftarrow> redis_del (onlineKey u d);
     _ \<leftarrow> redis_del (connKey u d);
     _ \<leftarrow> redis_srem (devicesKey u) d;
     return () }"

definition setOnline :: "u64 \<Rightarrow> string \<Rightarrow> string \<Rightarrow> string \<Rightarrow> bool io" where
  "setOnline u d gid conn =
     (if u = 0 \<or> d = [] \<or> gid = [] \<or> conn = [] then return False
      else do {
        ok \<leftarrow> andalso (redis_sadd (devicesKey u) d) (andalso (redis_expire (devicesKey u))
               (andalso (redis_setEx (onlineKey u d) gid) (redis_setEx (connKey u d) conn)));
        if \<not> ok then do { _ \<leftarrow> forget_device u d; return False } else return True })"

primrec offline_devices :: "u64 \<Rightarrow> string list \<Rightarrow> bool \<Rightarrow> bool io" where
  "offline_devices u [] ok = return ok"
| "offline_devices u (d # ds) ok = do {
     a \<leftarrow> redis_del (onlineKey u d);
     b \<leftarrow> redis_del (connKey u d);
     offline_devices u ds (b \<and> a \<and> ok) }"

definition setOffline :: "u64 \<Rightarrow> bool io" where
  "setOffline u = (if u = 0 then return False
     else do {
       ds \<leftarrow> redis_smembers (devicesKey u);
       ok \<leftarrow> offline_devices u ds True;
       _ \<leftarrow> redis_del (devicesKey u);
       return ok })"

section \<open>The gateway side\<close>

definition gateway_setOnline :: "string \<Rightarrow> u64 \<Rightarrow> string \<Rightarrow> string \<Rightarrow> bool io" where
  "gateway_setOnline gid u d conn =
     (if u = 0 \<or> d = [] \<or> conn = [] then return False
      else do {
        ok \<leftarrow> andalso (redis_sadd (devicesKey u) d) (andalso (redis_expire (devicesKey u))
               (andalso (redis_setEx (onlineKey u d) gid) (redis_setEx (connKey u d) conn)));
        if \<not> ok then do { _ \<leftarrow> forget_device u d; return False } else return True })"

definition refreshOnline :: "u64 \<Rightarrow> string \<Rightarrow> string \<Rightarrow> bool io" where
  "refreshOnline u d conn =
     (if u = 0 \<or> d = [] \<or> conn = [] then return False
      else do {
        c \<leftarrow> redis_get (connKey u d);
        if c \<noteq> Some conn then return False
        else andalso (redis_sadd (devicesKey u) d) (andalso (redis_expire (devicesKey u))
               (andalso (redis_expire (onlineKey u d)) (redis_expire (connKey u d)))) })"

definition gateway_setOffline :: "u64 \<Rightarrow> string \<Rightarrow> string \<Rightarrow> bool io" where
  "gateway_setOffline u d conn =
     (if u = 0 \<or> d = [] \<or> conn = [] then return False
      else do {
        c \<leftarrow> redis_get (connKey u d);
        if c \<noteq> None \<and> c \<noteq> Some conn then return True
        else do { _ \<leftarrow> forget_device u d; return True } })"

primrec first_online :: "u64 \<Rightarrow> string list \<Rightarrow> (string \<times> string \<times> string) option io" where
  "first_online u [] = return None"
| "first_online u (d # ds) = do {
     gateway \<leftarrow> redis_get (onlineKey u d);
     conn \<leftarrow> redis_get (connKey u d);
     if gateway = None \<or> conn = None
     then do { _ \<leftarrow> redis_srem (devicesKey u) d; first_online u ds }
     else return (Some (the gateway, the conn, d)) }"

definition findOnline :: "u64 \<Rightarrow> (string \<times> string \<times> string) option io" where
  "findOnline u = (if u = 0 then return None
     else do { ds \<leftarrow> redis_smembers (devicesKey u); first_online u ds })"

section \<open>Clients of the gateways\<close>

definition addGateway :: "string \<Rightarrow> unit io" where
  "addGateway gid = do { w \<leftarrow> State_Monad.get;
     State_Monad.set (w\<lparr>gateways := (gateways w)(gid \<mapsto> new_CircuitBreaker 5 30000)\<rparr>) }"

text \<open>The loop over the instances that service discovery gives: service name, instance id and whether it is healthy.\<close>

primrec add_instances :: "(string \<times> string \<times> bool) list \<Rightarrow> unit io" where
  "add_instances [] = return ()"
| "add_instances (i # is) = (case i of (name, iid, healthy) \<Rightarrow> do {
     _ \<leftarrow> (if healthy then addGateway (if iid = [] then name else iid) else return ());
     add_instances is })"

definition getClient :: "string \<Rightarrow> bool io" where
  "getClient gid = do { w \<leftarrow> State_Monad.get; return (gateways w gid \<noteq> None) }"

definition set_breaker :: "string \<Rightarrow> CircuitBreaker \<Rightarrow> unit io" where
  "set_breaker gid b = do { w \<leftarrow> State_Monad.get; State_Monad.set (w\<lparr>gateways := (gateways w)(gid \<mapsto> b)\<rparr>) }"

text \<open>The common part of the calls: ask the breaker, make the call, tell the breaker. The call's effect at
  the gateway takes place unless the call failed; an error reply counts as failed.\<close>

definition gateway_call :: "string \<Rightarrow> (world \<Rightarrow> world) \<Rightarrow> bool io" where
  "gateway_call gid effect = do {
     w \<leftarrow> State_Monad.get;
     case gateways w gid of None \<Rightarrow> return False
     | Some b \<Rightarrow> do {
         now \<leftarrow> nowMs;
         let (allowed, b1) = allowRequest now b;
         _ \<leftarrow> set_breaker gid b1;
         if \<not> allowed then return False
         else do {
           x \<leftarrow> pop_outcome;
           w \<leftarrow> State_Monad.get;
           _ \<leftarrow> (if x = Fails then return () else State_Monad.set (effect w));
           if x = Succeeds then do { _ \<leftarrow> set_breaker gid (recordSuccess b1); return True }
           else do { later \<leftarrow> nowMs; _ \<leftarrow> set_breaker gid (recordFailure later b1); return False } } } }"

definition deliverToConnection :: "string \<Rightarrow> u64 \<Rightarrow> string \<Rightarrow> u64 \<Rightarrow> bool io" where
  "deliverToConnection gid u conn mid = gateway_call gid (\<lambda>w. w\<lparr>pushed := pushed w @ [(gid, u, conn, mid)]\<rparr>)"

definition kickUser :: "string \<Rightarrow> bool io" where
  "kickUser gid = gateway_call gid (\<lambda>w. w)"

definition kickConnection :: "string \<Rightarrow> bool io" where
  "kickConnection gid = gateway_call gid (\<lambda>w. w)"

section \<open>What the calls keep\<close>

lemma wp_get: "Q w w \<Longrightarrow> wp State_Monad.get Q w"
  by (simp add: wp_def)

lemma wp_set: "Q () v \<Longrightarrow> wp (State_Monad.set v) Q w"
  by (simp add: wp_def)

lemma wp_set_breaker: "(\<And>g. Q () (w\<lparr>gateways := g\<rparr>)) \<Longrightarrow> wp (set_breaker gid b) Q w"
  unfolding set_breaker_def by (intro wp_bind wp_get wp_set)

text \<open>A call changes nothing but the breakers, unless its effect took place; a positive answer means that it did.\<close>

definition only_calls :: "world \<Rightarrow> world \<Rightarrow> bool" where
  "only_calls w w' \<longleftrightarrow> db w' = db w \<and> tx w' = tx w \<and> kafka w' = kafka w \<and> redis w' = redis w"

lemma wp_deliverToConnection:
  assumes "\<And>r w'. only_calls w w' \<Longrightarrow> set (pushed w) \<subseteq> set (pushed w') \<Longrightarrow>
      (r \<Longrightarrow> (gid, u, conn, mid) \<in> set (pushed w')) \<Longrightarrow> Q r w'"
  shows "wp (deliverToConnection gid u conn mid) Q w"
  unfolding deliverToConnection_def gateway_call_def
  by (intro wp_bind wp_get wp_case_option wp_return wp_nowMs wp_Let wp_case_prod wp_set_breaker wp_if wp_pop_outcome wp_set assms)
     (auto simp: only_calls_def)

lemma wp_kickConnection:
  assumes "\<And>r w'. only_calls w w' \<Longrightarrow> pushed w' = pushed w \<Longrightarrow> Q r w'"
  shows "wp (kickConnection gid) Q w"
  unfolding kickConnection_def gateway_call_def
  by (intro wp_bind wp_get wp_case_option wp_return wp_nowMs wp_Let wp_case_prod wp_set_breaker wp_if wp_pop_outcome wp_set assms)
     (auto simp: only_calls_def)

end
