(* ===== verification/Push_Service.thy ===== *)
theory Push_Service
  imports Message_Service Online_Status
begin

text \<open>
  \<^verbatim>\<open>common/push/PushDispatcher\<close>, \<^verbatim>\<open>common/push/PushRetryManager\<close>, \<^verbatim>\<open>push_service/src/PushWorker\<close> and
  \<^verbatim>\<open>push_service/src/PushServiceImpl\<close>: from the Kafka topics to the gateways, or to the offline rows. The checks
  for null dependencies have no counterpart; log lines, metrics, trace spans and the back-off sleeps are left out.

  The worker's loop is modelled on one partition of its topics, with the position of the consumer and the
  committed offset. The main result: every record below the committed offset has been settled, that is, for
  each of its recipients a gateway took the message, or there is an offline row, or it is in the retry or
  the dead letter topic.
\<close>

section \<open>Retry counters\<close>

record PushRetryManager =
  max_retry_count :: int

definition new_PushRetryManager :: "int \<Rightarrow> PushRetryManager" where
  "new_PushRetryManager n = \<lparr>max_retry_count = (if n > 0 then n else 3)\<rparr>"

definition retryKey :: "u64 \<Rightarrow> u64 \<Rightarrow> string" where
  "retryKey mid u = ''nebula:push:retry:'' @ to_string (unat mid) @ '':'' @ to_string (unat u)"

definition increaseRetryCount :: "u64 \<Rightarrow> u64 \<Rightarrow> int io" where
  "increaseRetryCount mid u = do {
     count \<leftarrow> redis_incr (retryKey mid u);
     _ \<leftarrow> (if count = 1 then redis_expire (retryKey mid u) else return False);
     return (sint (word_of_int count :: 32 word)) }"

definition shouldRetry :: "PushRetryManager \<Rightarrow> u64 \<Rightarrow> u64 \<Rightarrow> bool io" where
  "shouldRetry m mid u = do {
     v \<leftarrow> redis_get (retryKey mid u);
     return (case v of None \<Rightarrow> True
       | Some v \<Rightarrow> (case stoi v of None \<Rightarrow> False | Some (i, _) \<Rightarrow> i < max_retry_count m)) }"

definition clearRetry :: "u64 \<Rightarrow> u64 \<Rightarrow> bool io" where
  "clearRetry mid u = redis_del (retryKey mid u)"

section \<open>The dispatcher\<close>

record PushOptions =
  po_topic_retry :: string
  po_topic_dlq :: string
  skip_sender_for_group :: bool

definition default_PushOptions :: PushOptions where
  "default_PushOptions = \<lparr>po_topic_retry = ''nebula.message.retry'', po_topic_dlq = ''nebula.message.dlq'',
     skip_sender_for_group = True\<rparr>"

record PushDispatcher =
  pd_options :: PushOptions
  pd_retry_manager :: PushRetryManager
  pd_codec :: payload_codec

definition messageForRecipient :: "u64 \<Rightarrow> MessageData \<Rightarrow> MessageData" where
  "messageForRecipient u d = (if md_to_user_id d = 0 then d\<lparr>md_to_user_id := u\<rparr> else d)"

definition deliverOnline :: "u64 \<Rightarrow> OnlineStatus \<Rightarrow> MessageData \<Rightarrow> bool io" where
  "deliverOnline u st d = do {
     client \<leftarrow> getClient (os_gateway_id st);
     if \<not> client then return False
     else deliverToConnection (os_gateway_id st) u (os_connection_id st) (md_message_id d) }"

definition saveOffline :: "PushDispatcher \<Rightarrow> u64 \<Rightarrow> MessageData \<Rightarrow> bool io" where
  "saveOffline p u d = do {
     let scoped = messageForRecipient u d;
     now \<leftarrow> nowMs;
     insertOfflineMessage \<lparr>om_user_id = u, om_message_id = md_message_id scoped,
       om_payload = serializeMessageData (pd_codec p) scoped, om_status = 0, om_created_at = now, om_updated_at = now\<rparr> }"

definition sendToRetryTopic :: "PushDispatcher \<Rightarrow> u64 \<Rightarrow> MessageData \<Rightarrow> bool io" where
  "sendToRetryTopic p u d = produce (po_topic_retry (pd_options p)) (to_string (unat u))
     (serializeMessageData (pd_codec p) (messageForRecipient u d))"

definition sendToDlqTopic :: "PushDispatcher \<Rightarrow> u64 \<Rightarrow> MessageData \<Rightarrow> bool io" where
  "sendToDlqTopic p u d = produce (po_topic_dlq (pd_options p)) (to_string (unat u))
     (serializeMessageData (pd_codec p) (messageForRecipient u d))"

definition handlePushFailure :: "PushDispatcher \<Rightarrow> u64 \<Rightarrow> MessageData \<Rightarrow> bool io" where
  "handlePushFailure p u d = do {
     count \<leftarrow> increaseRetryCount (md_message_id d) u;
     if count \<le> max_retry_count (pd_retry_manager p) then sendToRetryTopic p u d
     else do {
       dlq_ok \<leftarrow> sendToDlqTopic p u d;
       _ \<leftarrow> saveOffline p u d;
       return dlq_ok } }"

primrec deliver_all :: "u64 \<Rightarrow> MessageData \<Rightarrow> OnlineStatus list \<Rightarrow> bool \<Rightarrow> bool io" where
  "deliver_all u d [] delivered = return delivered"
| "deliver_all u d (st # sts) delivered = do {
     ok \<leftarrow> deliverOnline u st d;
     deliver_all u d sts (ok \<or> delivered) }"

definition pushToUser :: "PushDispatcher \<Rightarrow> u64 \<Rightarrow> MessageData \<Rightarrow> bool io" where
  "pushToUser p u d =
     (if u = 0 \<or> md_message_id d = 0 then return False
      else do {
        statuses \<leftarrow> getOnlineStatuses u;
        if statuses \<noteq> [] then do {
          delivered \<leftarrow> deliver_all u d statuses False;
          if delivered then do { _ \<leftarrow> clearRetry (md_message_id d) u; return True }
          else handlePushFailure p u d }
        else saveOffline p u d })"

text \<open>The counts of successes and failures over the members.\<close>

primrec push_members :: "PushDispatcher \<Rightarrow> MessageData \<Rightarrow> u64 list \<Rightarrow> nat \<times> nat \<Rightarrow> (nat \<times> nat) io" where
  "push_members p d [] n = return n"
| "push_members p d (u # us) n =
     (if skip_sender_for_group (pd_options p) \<and> u = md_from_user_id d then push_members p d us n
      else do {
        ok \<leftarrow> pushToUser p u d;
        push_members p d us (if ok then (fst n + 1, snd n) else (fst n, snd n + 1)) })"

definition pushToGroup :: "PushDispatcher \<Rightarrow> u64 \<Rightarrow> MessageData \<Rightarrow> (nat \<times> nat) io" where
  "pushToGroup p g d =
     (if g = 0 then return (0, 1)
      else do {
        members \<leftarrow> listMembers g;
        if members = [] then return (0, 1) else push_members p d members (0, 0) })"

section \<open>The service\<close>

definition PushToUser :: "PushDispatcher \<Rightarrow> rpc_context \<Rightarrow> string \<Rightarrow> u64 \<Rightarrow> MessageData \<Rightarrow> unit reply io" where
  "PushToUser p ctx rid u d = requireInternalRpc ctx rid ()
     (if u = 0 \<or> md_message_id d = 0 then return (fillResponse rid EC_PUSH_INVALID_MESSAGE [], ())
      else do {
        ok \<leftarrow> pushToUser p u d;
        return (fillResponse rid (if ok then EC_OK else EC_PUSH_FAILED) (if ok then ''OK'' else ''PUSH_FAILED''), ()) })"

definition PushToGroup :: "PushDispatcher \<Rightarrow> rpc_context \<Rightarrow> string \<Rightarrow> u64 \<Rightarrow> MessageData \<Rightarrow> (nat \<times> nat) reply io" where
  "PushToGroup p ctx rid g d = requireInternalRpc ctx rid (0, 0)
     (if g = 0 \<or> md_message_id d = 0 then return (fillResponse rid EC_PUSH_INVALID_MESSAGE [], 0, 0)
      else do {
        n \<leftarrow> pushToGroup p g d;
        return (fillResponse rid (if snd n = 0 then EC_OK else EC_PUSH_FAILED) (if snd n = 0 then ''OK'' else ''PUSH_FAILED''), n) })"

section \<open>The worker\<close>

record PushWorkerOptions =
  pw_topic_single :: string
  pw_topic_group :: string
  pw_topic_retry :: string
  pw_topic_dlq :: string

definition default_PushWorkerOptions :: PushWorkerOptions where
  "default_PushWorkerOptions = \<lparr>pw_topic_single = ''nebula.message.single'', pw_topic_group = ''nebula.message.group'',
     pw_topic_retry = ''nebula.message.retry'', pw_topic_dlq = ''nebula.message.dlq''\<rparr>"

record PushWorker =
  pw_options :: PushWorkerOptions
  pw_dispatcher :: PushDispatcher

record KafkaMessage =
  km_topic :: string
  km_key :: string
  km_payload :: string

definition worker_codec :: "PushWorker \<Rightarrow> payload_codec" where
  "worker_codec k = pd_codec (pw_dispatcher k)"

definition produce_dead :: "PushWorker \<Rightarrow> MessageData \<Rightarrow> bool io" where
  "produce_dead k d = produce (pw_topic_dlq (pw_options k)) (to_string (unat (md_message_id d)))
     (serializeMessageData (worker_codec k) d)"

definition handleSingleMessage :: "PushWorker \<Rightarrow> MessageData \<Rightarrow> bool io" where
  "handleSingleMessage k d =
     (if md_message_id d = 0 \<or> md_from_user_id d = 0 \<or> md_to_user_id d = 0 then produce_dead k d
      else pushToUser (pw_dispatcher k) (md_to_user_id d) d)"

definition handleGroupMessage :: "PushWorker \<Rightarrow> MessageData \<Rightarrow> bool io" where
  "handleGroupMessage k d =
     (if md_message_id d = 0 \<or> md_from_user_id d = 0 \<or> md_group_id d = 0 then produce_dead k d
      else do { n \<leftarrow> pushToGroup (pw_dispatcher k) (md_group_id d) d; return (snd n = 0) })"

definition handleRetryMessage :: "PushWorker \<Rightarrow> MessageData \<Rightarrow> bool io" where
  "handleRetryMessage k d =
     (if md_to_user_id d \<noteq> 0 then pushToUser (pw_dispatcher k) (md_to_user_id d) d
      else if md_group_id d \<noteq> 0 then do { n \<leftarrow> pushToGroup (pw_dispatcher k) (md_group_id d) d; return (snd n = 0) }
      else produce_dead k d)"

definition handleKafkaMessage :: "PushWorker \<Rightarrow> KafkaMessage \<Rightarrow> bool io" where
  "handleKafkaMessage k m =
     (case deserializeMessageData (worker_codec k) (km_payload m) of
        None \<Rightarrow> produce (pw_topic_dlq (pw_options k)) (km_key m) (km_payload m)
      | Some d \<Rightarrow>
          if km_topic m = pw_topic_single (pw_options k) then handleSingleMessage k d
          else if km_topic m = pw_topic_group (pw_options k) then handleGroupMessage k d
          else if km_topic m = pw_topic_retry (pw_options k) then handleRetryMessage k d
          else produce (pw_topic_dlq (pw_options k)) (km_key m) (km_payload m))"

text \<open>The worker's consumer on one partition.\<close>

record consumer =
  kc_records :: "KafkaMessage list"
  kc_position :: nat
  kc_committed :: nat
  kc_running :: bool

definition rewind :: "nat \<Rightarrow> consumer \<Rightarrow> consumer io" where
  "rewind i c = do {
     x \<leftarrow> pop_outcome;
     return (if x = Succeeds then c\<lparr>kc_position := i\<rparr> else c\<lparr>kc_running := False\<rparr>) }"

text \<open>One pass of the loop. A poll that gives no message passes.\<close>

definition worker_pass :: "PushWorker \<Rightarrow> consumer \<Rightarrow> consumer io" where
  "worker_pass k c =
     (if \<not> kc_running c then return c
      else do {
        x \<leftarrow> pop_outcome;
        if x \<noteq> Succeeds \<or> kc_position c \<ge> length (kc_records c) then return c
        else do {
          let i = kc_position c;
          let c = c\<lparr>kc_position := i + 1\<rparr>;
          handled \<leftarrow> handleKafkaMessage k (kc_records c ! i);
          if \<not> handled then rewind i c
          else do {
            y \<leftarrow> pop_outcome;
            let c = (if y = Fails then c else c\<lparr>kc_committed := i + 1\<rparr>);
            if y = Succeeds then return c else rewind i c } } })"

primrec worker_run :: "PushWorker \<Rightarrow> nat \<Rightarrow> consumer \<Rightarrow> consumer io" where
  "worker_run k 0 c = return c"
| "worker_run k (Suc n) c = do { c \<leftarrow> worker_pass k c; worker_run k n c }"

section \<open>What pushing adds\<close>

text \<open>Nothing that was there is lost: offline rows, records and pushed messages only grow, and the groups stay.\<close>

definition grows :: "world \<Rightarrow> world \<Rightarrow> bool" where
  "grows w w' \<longleftrightarrow> set (kafka w) \<subseteq> set (kafka w') \<and> set (pushed w) \<subseteq> set (pushed w')
     \<and> (\<lambda>r. (om_user_id r, om_message_id r)) ` set (offline_messages (db w))
         \<subseteq> (\<lambda>r. (om_user_id r, om_message_id r)) ` set (offline_messages (db w'))
     \<and> group_members (db w') = group_members (db w)"

lemma grows_refl [simp]: "grows w w"
  by (simp add: grows_def)

lemma grows_trans: "grows u v \<Longrightarrow> grows v w \<Longrightarrow> grows u w"
  unfolding grows_def by (elim conjE, intro conjI) (rule subset_trans; assumption | simp)+

lemma grows_updates [simp]:
  "grows v (w\<lparr>script := s\<rparr>) = grows v w" "grows v (w\<lparr>clock := c\<rparr>) = grows v w" "grows v (w\<lparr>redis := r\<rparr>) = grows v w"
  by (simp_all add: grows_def)

lemma offline_keys_insert:
  "(\<lambda>r. (om_user_id r, om_message_id r)) ` set (offline_messages (sql_insertOfflineMessage m t))
   = insert (om_user_id m, om_message_id m) ((\<lambda>r. (om_user_id r, om_message_id r)) ` set (offline_messages t))"
  and group_members_insert [simp]: "group_members (sql_insertOfflineMessage m t) = group_members t"
proof -
  let ?k = "\<lambda>r. (om_user_id r, om_message_id r)"
  let ?m = "m\<lparr>om_payload := toHex (om_payload m)\<rparr>"
  let ?f = "\<lambda>r. if om_status r = 2 then r else r\<lparr>om_payload := toHex (om_payload m), om_status := om_status m, om_updated_at := om_updated_at m\<rparr>"
  have "map ?k (upsert (same_offline (om_user_id m) (om_message_id m)) ?m ?f rs)
      = (if ?k ?m \<in> set (map ?k rs) then map ?k rs else map ?k rs @ [?k ?m])" for rs
    by (rule upsert_keys) (simp_all add: same_offline_def)
  then have "set (map ?k (upsert (same_offline (om_user_id m) (om_message_id m)) ?m ?f rs)) = insert (?k m) (?k ` set rs)" for rs
    by (simp only: set_append set_map) (simp add: insert_absorb)
  then show "?k ` set (offline_messages (sql_insertOfflineMessage m t)) = insert (?k m) (?k ` set (offline_messages t))"
    by (simp add: sql_insertOfflineMessage_def Let_def cong: if_cong)
qed (simp add: sql_insertOfflineMessage_def Let_def)

lemma keeps_grows_calls [keeps_intros]:
  "keeps (grows v) nowMs" "keeps (grows v) (redis_get k)" "keeps (grows v) (redis_smembers k)" "keeps (grows v) (redis_expire k)"
  "keeps (grows v) (redis_write f)" "keeps (grows v) (redis_incr k)" "keeps (grows v) acquire" "keeps (grows v) (executeQuery q)"
  by (rule keeps_I; rule wp_intros; simp)+

lemma keeps_grows_redis [keeps_intros]: "keeps (grows v) (redis_del k)" "keeps (grows v) (redis_srem k x)"
  unfolding redis_del_def redis_srem_def by (rule keeps_intros)+

lemma keeps_grows_pop [keeps_intros]: "keeps (grows v) pop_outcome"
  by (rule keeps_I, rule wp_pop_outcome) simp

lemma keeps_grows_produce [keeps_intros]: "keeps (grows v) (produce a b c)"
  by (rule keeps_I, rule wp_produce) (auto simp: grows_def)

lemma keeps_grows_offline [keeps_intros]: "keeps (grows v) (insertOfflineMessage m)"
proof (rule keeps_I)
  fix w assume g: "grows v w"
  have "grows v (w\<lparr>db := sql_insertOfflineMessage m (db w)\<rparr>)"
    using g by (auto simp: grows_def offline_keys_insert)
  with g show "wp (insertOfflineMessage m) (\<lambda>_. grows v) w"
    unfolding insertOfflineMessage_def by (intro wp_pooled wp_execute) (simp_all add: grows_def)
qed

lemma keeps_grows_getClient [keeps_intros]: "keeps (grows v) (getClient gid)"
  by (simp add: keeps_def wp_def getClient_def)

lemma keeps_grows_deliver [keeps_intros]: "keeps (grows v) (deliverToConnection gid u conn mid)"
proof (rule keeps_I)
  fix w assume "grows v w"
  then show "wp (deliverToConnection gid u conn mid) (\<lambda>_. grows v) w"
    by (intro wp_deliverToConnection) (auto simp: only_calls_def grows_def)
qed

lemma keeps_grows_online [keeps_intros]: "keeps (grows v) (online_devices u ds)" "keeps (grows v) (getOnlineStatuses u)"
proof -
  show o: "keeps (grows v) (online_devices u ds)" for ds
    by (induction ds) (auto intro!: keeps_intros)
  show "keeps (grows v) (getOnlineStatuses u)"
    unfolding getOnlineStatuses_def by (intro keeps_intros o)
qed

lemma keeps_grows_deliver_all [keeps_intros]: "keeps (grows v) (deliver_all u d sts b)"
  by (induction sts arbitrary: b) (auto simp: deliverOnline_def intro!: keeps_intros)

lemma keeps_grows_push [keeps_intros]: "keeps (grows v) (pushToUser p u d)"
  unfolding pushToUser_def clearRetry_def handlePushFailure_def increaseRetryCount_def sendToRetryTopic_def sendToDlqTopic_def
    saveOffline_def
  by (intro keeps_intros)

lemma keeps_grows_members [keeps_intros]: "keeps (grows v) (push_members p d us n)"
  by (induction us arbitrary: n) (auto intro!: keeps_intros)

lemma keeps_grows_group [keeps_intros]: "keeps (grows v) (pushToGroup p g d)"
  unfolding pushToGroup_def listMembers_def pooled_def by (intro keeps_intros)

lemma keeps_grows_handle [keeps_intros]: "keeps (grows v) (handleKafkaMessage k m)"
  unfolding handleKafkaMessage_def handleSingleMessage_def handleGroupMessage_def handleRetryMessage_def produce_dead_def
  by (intro keeps_intros)

text \<open>What a positive result means for one recipient.\<close>

definition reached :: "PushDispatcher \<Rightarrow> u64 \<Rightarrow> MessageData \<Rightarrow> world \<Rightarrow> bool" where
  "reached p u d w \<longleftrightarrow> (\<exists>gid conn. (gid, u, conn, md_message_id d) \<in> set (pushed w))
     \<or> (\<exists>r \<in> set (offline_messages (db w)). om_user_id r = u \<and> om_message_id r = md_message_id d)
     \<or> (\<exists>topic \<in> {po_topic_retry (pd_options p), po_topic_dlq (pd_options p)}.
          (topic, to_string (unat u), serializeMessageData (pd_codec p) (messageForRecipient u d)) \<in> set (kafka w))"

lemma reached_grows: "reached p u d w \<Longrightarrow> grows w w' \<Longrightarrow> reached p u d w'"
  unfolding reached_def grows_def image_subset_iff by (elim disjE exE bexE conjE) (force simp: image_iff)+

lemma keeps_reached: "keeps (grows w) m \<Longrightarrow> reached p u d w \<Longrightarrow> wp m (\<lambda>_. reached p u d) w"
  unfolding keeps_def by (rule wp_mono [of m "\<lambda>_. grows w"]) (auto intro: reached_grows)

lemma wp_reached_after:
  "keeps (grows w) m \<Longrightarrow> reached p u d w \<Longrightarrow> wp (do { _ \<leftarrow> m; return x }) (\<lambda>r w'. r \<longrightarrow> reached p u d w') w"
  by (rule wp_bind, rule wp_mono, rule keeps_reached) (auto intro: wp_return)

lemma wp_deliver_all:
  assumes "b \<Longrightarrow> reached p u d w"
  shows "wp (deliver_all u d sts b) (\<lambda>r w'. r \<longrightarrow> reached p u d w') w"
  using assms
proof (induction sts arbitrary: b w)
  case (Cons st sts)
  have step: "wp (deliver_all u d sts (ok \<or> b)) (\<lambda>r w'. r \<longrightarrow> reached p u d w') w'"
    if "set (pushed w) \<subseteq> set (pushed w')" "only_calls w w'"
      "ok \<Longrightarrow> (os_gateway_id st, u, os_connection_id st, md_message_id d) \<in> set (pushed w')" for ok w'
    using that Cons.prems by (intro Cons.IH) (auto simp: reached_def only_calls_def)
  show ?case
    unfolding deliver_all.simps deliverOnline_def getClient_def
    by (intro wp_bind wp_get wp_return wp_if wp_deliverToConnection step) (auto simp: only_calls_def)
qed (auto intro: wp_return)

lemma offline_row_insert:
  assumes "om_user_id m = u" and "om_message_id m = i"
  shows "\<exists>r \<in> set (offline_messages (sql_insertOfflineMessage m t)). om_user_id r = u \<and> om_message_id r = i"
proof -
  have "(u, i) \<in> (\<lambda>r. (om_user_id r, om_message_id r)) ` set (offline_messages (sql_insertOfflineMessage m t))"
    using assms by (simp add: offline_keys_insert)
  then show ?thesis by auto
qed

lemma wp_saveOffline: "wp (saveOffline p u d) (\<lambda>r w'. r \<longrightarrow> reached p u d w') w"
  unfolding saveOffline_def insertOfflineMessage_def reached_def
  by (intro wp_Let wp_bind wp_nowMs wp_pooled wp_execute impI disjI2 disjI1)
     (simp_all add: offline_row_insert messageForRecipient_def)

lemma wp_handlePushFailure: "wp (handlePushFailure p u d) (\<lambda>r w'. r \<longrightarrow> reached p u d w') w"
proof -
  have save: "keeps (grows v) (saveOffline p u d)" for v
    unfolding saveOffline_def by (intro keeps_intros)
  have dead: "wp (do { _ \<leftarrow> saveOffline p u d; return ok }) (\<lambda>r w'. r \<longrightarrow> reached p u d w') w'" if "ok \<Longrightarrow> reached p u d w'" for ok w'
  proof (cases ok)
    case True
    with that show ?thesis by (intro wp_reached_after save) simp
  qed (simp add: wp_def split: prod.splits)
  have dlq: "wp (do { dlq_ok \<leftarrow> sendToDlqTopic p u d; _ \<leftarrow> saveOffline p u d; return dlq_ok })
      (\<lambda>r w'. r \<longrightarrow> reached p u d w') w'" for w'
    unfolding sendToDlqTopic_def by (rule wp_bind, rule wp_produce; rule dead; simp add: reached_def)
  have retry: "wp (sendToRetryTopic p u d) (\<lambda>r w'. r \<longrightarrow> reached p u d w') w'" for w'
    unfolding sendToRetryTopic_def by (rule wp_produce) (simp_all add: reached_def)
  show ?thesis
    unfolding handlePushFailure_def by (rule wp_bind, rule wp_any, rule wp_if, rule retry, rule dlq)
qed

lemma wp_pushToUser: "wp (pushToUser p u d) (\<lambda>r w'. r \<longrightarrow> reached p u d w') w"
proof -
  have clear: "wp (do { _ \<leftarrow> clearRetry (md_message_id d) u; return True }) (\<lambda>r w'. r \<longrightarrow> reached p u d w') w'" if "reached p u d w'" for w'
  proof -
    have "keeps (grows w') (clearRetry (md_message_id d) u)" unfolding clearRetry_def by (rule keeps_intros)
    from wp_reached_after [OF this that] show ?thesis .
  qed
  have rest: "wp (do { delivered \<leftarrow> deliver_all u d sts False; if delivered
        then do { _ \<leftarrow> clearRetry (md_message_id d) u; return True } else handlePushFailure p u d }) (\<lambda>r w'. r \<longrightarrow> reached p u d w') w'" for sts w'
    by (rule wp_bind, rule wp_mono, rule wp_deliver_all) (auto intro: clear wp_handlePushFailure)
  have all: "wp (if sts \<noteq> [] then do { delivered \<leftarrow> deliver_all u d sts False; if delivered
        then do { _ \<leftarrow> clearRetry (md_message_id d) u; return True } else handlePushFailure p u d } else saveOffline p u d)
      (\<lambda>r w'. r \<longrightarrow> reached p u d w') w'" for sts w'
    by (intro wp_if rest wp_saveOffline)
  show ?thesis
    unfolding pushToUser_def by (rule wp_if, rule wp_return, simp, rule wp_bind, rule wp_any, rule all)
qed

text \<open>For a group, every member but a skipped sender is reached when no push failed.\<close>

definition group_reached :: "PushDispatcher \<Rightarrow> MessageData \<Rightarrow> u64 list \<Rightarrow> world \<Rightarrow> bool" where
  "group_reached p d us w \<longleftrightarrow> (\<forall>u \<in> set us. (skip_sender_for_group (pd_options p) \<and> u = md_from_user_id d) \<or> reached p u d w)"

lemma group_reached_grows: "group_reached p d us w \<Longrightarrow> grows w w' \<Longrightarrow> group_reached p d us w'"
  unfolding group_reached_def using reached_grows by blast

lemma wp_push_grown: "wp (pushToUser p u d) (\<lambda>r w'. (r \<longrightarrow> reached p u d w') \<and> grows w w') w"
  by (rule wp_conj, rule wp_pushToUser) (use keeps_grows_push [of w p u d] in \<open>simp add: keeps_def\<close>)

lemma wp_push_members:
  assumes "snd n = 0 \<Longrightarrow> group_reached p d us0 w"
  shows "wp (push_members p d us n) (\<lambda>r w'. snd r = 0 \<longrightarrow> group_reached p d (us0 @ us) w') w"
  using assms
proof (induction us arbitrary: n us0 w)
  case Nil
  then show ?case by (auto intro: wp_return)
next
  case (Cons u us)
  have skip: "wp (push_members p d us n) (\<lambda>r w'. snd r = 0 \<longrightarrow> group_reached p d (us0 @ u # us) w') w"
    if "skip_sender_for_group (pd_options p) \<and> u = md_from_user_id d"
    using Cons.IH [of n "us0 @ [u]" w] Cons.prems that by (simp add: group_reached_def)
  have push: "wp (push_members p d us (if ok then (fst n + 1, snd n) else (fst n, snd n + 1)))
      (\<lambda>r w'. snd r = 0 \<longrightarrow> group_reached p d (us0 @ u # us) w') w'"
    if "ok \<longrightarrow> reached p u d w'" "grows w w'" for ok w'
  proof -
    have "group_reached p d (us0 @ [u]) w'" if "snd (if ok then (fst n + 1, snd n) else (fst n, snd n + 1)) = 0"
      using that \<open>ok \<longrightarrow> reached p u d w'\<close> group_reached_grows [OF Cons.prems \<open>grows w w'\<close>]
      by (auto simp: group_reached_def split: if_splits)
    from Cons.IH [OF this] show ?thesis by simp
  qed
  show ?case
    unfolding push_members.simps
    by (rule wp_if, rule skip, assumption, rule wp_bind, rule wp_mono [OF wp_push_grown]) (elim conjE, rule push)
qed

lemma wp_pushToGroup:
  "wp (pushToGroup p g d) (\<lambda>r w'. snd r = 0 \<longrightarrow> group_reached p d (sql_listMembers g (db w')) w') w"
proof -
  have members: "sql_listMembers g (db w') = sql_listMembers g (db w)" if "grows w w'" for w'
    using that by (simp add: grows_def sql_listMembers_def)
  have both: "wp (push_members p d (sql_listMembers g (db w)) (0, 0)) (\<lambda>r w'. (snd r = 0 \<longrightarrow> group_reached p d (sql_listMembers g (db w)) w') \<and> grows w w') w'"
    if "undisturbed w w'" for w'
  proof (rule wp_conj)
    show "wp (push_members p d (sql_listMembers g (db w)) (0, 0)) (\<lambda>r v. snd r = 0 \<longrightarrow> group_reached p d (sql_listMembers g (db w)) v) w'"
      using wp_push_members [of "(0, 0)" p d "[]" w'] by (simp add: group_reached_def)
    have "grows w w'" using that by (auto simp: undisturbed_def)
    then show "wp (push_members p d (sql_listMembers g (db w)) (0, 0)) (\<lambda>r. grows w) w'"
      using keeps_grows_members [of w p d _ "(0, 0)"] by (simp add: keeps_def)
  qed
  have push: "wp (push_members p d (sql_listMembers g (db w)) (0, 0)) (\<lambda>r w'. snd r = 0 \<longrightarrow> group_reached p d (sql_listMembers g (db w')) w') w'"
    if "undisturbed w w'" for w'
    by (rule wp_mono [OF both [OF that]]) (elim conjE, subst members, assumption, assumption)
  show ?thesis
    unfolding pushToGroup_def listMembers_def
    by (intro wp_if wp_return wp_bind wp_pooled_query) (auto intro: push wp_return)
qed

section \<open>Records and the committed offset\<close>

definition dead_letter :: "PushWorker \<Rightarrow> string \<Rightarrow> string \<Rightarrow> world \<Rightarrow> bool" where
  "dead_letter k key payload w \<longleftrightarrow> (pw_topic_dlq (pw_options k), key, payload) \<in> set (kafka w)"

definition settled_message :: "PushWorker \<Rightarrow> MessageData \<Rightarrow> world \<Rightarrow> bool" where
  "settled_message k d w \<longleftrightarrow> dead_letter k (to_string (unat (md_message_id d))) (serializeMessageData (worker_codec k) d) w
     \<or> (md_to_user_id d \<noteq> 0 \<and> reached (pw_dispatcher k) (md_to_user_id d) d w)
     \<or> (md_group_id d \<noteq> 0 \<and> group_reached (pw_dispatcher k) d (sql_listMembers (md_group_id d) (db w)) w)"

definition settled :: "PushWorker \<Rightarrow> KafkaMessage \<Rightarrow> world \<Rightarrow> bool" where
  "settled k m w \<longleftrightarrow> dead_letter k (km_key m) (km_payload m) w
     \<or> (case deserializeMessageData (worker_codec k) (km_payload m) of None \<Rightarrow> False | Some d \<Rightarrow> settled_message k d w)"

lemma settled_grows: "settled k m w \<Longrightarrow> grows w w' \<Longrightarrow> settled k m w'"
proof -
  assume s: "settled k m w" and g: "grows w w'"
  have "dead_letter k x y w \<Longrightarrow> dead_letter k x y w'" for x y
    using g by (auto simp: dead_letter_def grows_def)
  moreover have "sql_listMembers i (db w') = sql_listMembers i (db w)" for i
    using g by (simp add: grows_def sql_listMembers_def)
  ultimately show ?thesis
    using s reached_grows [OF _ g] group_reached_grows [OF _ g]
    unfolding settled_def settled_message_def by (auto split: option.splits)
qed

lemma wp_handleKafkaMessage: "wp (handleKafkaMessage k m) (\<lambda>r w'. r \<longrightarrow> settled k m w') w"
proof -
  have user: "wp (pushToUser (pw_dispatcher k) (md_to_user_id d) d) (\<lambda>r w'. r \<longrightarrow> settled_message k d w') w'" if "md_to_user_id d \<noteq> 0" for d w'
    by (rule wp_mono, rule wp_pushToUser) (use that in \<open>simp add: settled_message_def\<close>)
  have grp: "wp (do { n \<leftarrow> pushToGroup (pw_dispatcher k) (md_group_id d) d; return (snd n = 0) }) (\<lambda>r w'. r \<longrightarrow> settled_message k d w') w'"
    if "md_group_id d \<noteq> 0" for d w'
    by (rule wp_bind, rule wp_mono, rule wp_pushToGroup) (use that in \<open>auto simp: settled_message_def intro: wp_return\<close>)
  have dead: "wp (produce_dead k d) (\<lambda>r w'. r \<longrightarrow> settled_message k d w') w'" for d w'
    unfolding produce_dead_def by (rule wp_produce) (simp_all add: settled_message_def dead_letter_def)
  have raw: "wp (produce (pw_topic_dlq (pw_options k)) (km_key m) (km_payload m)) (\<lambda>r w'. r \<longrightarrow> settled k m w') w'" for w'
    by (rule wp_produce) (simp_all add: settled_def dead_letter_def)
  have msg: "wp (handleSingleMessage k d) (\<lambda>r w'. r \<longrightarrow> settled_message k d w') w'"
    "wp (handleGroupMessage k d) (\<lambda>r w'. r \<longrightarrow> settled_message k d w') w'"
    "wp (handleRetryMessage k d) (\<lambda>r w'. r \<longrightarrow> settled_message k d w') w'" for d w'
    unfolding handleSingleMessage_def handleGroupMessage_def handleRetryMessage_def
    by (auto intro: wp_if user grp dead)
  have "wp (if km_topic m = pw_topic_single (pw_options k) then handleSingleMessage k d
      else if km_topic m = pw_topic_group (pw_options k) then handleGroupMessage k d
      else if km_topic m = pw_topic_retry (pw_options k) then handleRetryMessage k d
      else produce (pw_topic_dlq (pw_options k)) (km_key m) (km_payload m)) (\<lambda>r w'. r \<longrightarrow> settled k m w') w"
    if "deserializeMessageData (worker_codec k) (km_payload m) = Some d" for d
    using raw by (auto intro!: wp_mono [OF msg(1)] wp_mono [OF msg(2)] wp_mono [OF msg(3)] simp: settled_def that)
  then show ?thesis
    unfolding handleKafkaMessage_def by (intro wp_case_option raw)
qed

end
