(* ===== verification/Push_Properties.thy ===== *)
theory Push_Properties
  imports Push_Service Message_Properties Service_Calm
begin

text \<open>
  The worker's loop, over any number of passes: what the committed offset stands for, and that without failing
  calls every record is committed, one per pass.
\<close>

section \<open>What the committed offset stands for\<close>

definition consumer_ok :: "PushWorker \<Rightarrow> KafkaMessage list \<Rightarrow> consumer \<Rightarrow> world \<Rightarrow> bool" where
  "consumer_ok k rs c w \<longleftrightarrow> kc_records c = rs \<and> kc_committed c \<le> length rs \<and> (\<forall>i < kc_committed c. settled k (rs ! i) w)
     \<and> (kc_running c \<longrightarrow> kc_position c \<le> length rs \<and> (\<forall>i < kc_position c. settled k (rs ! i) w))"

lemma consumer_ok_grows: "consumer_ok k rs c w \<Longrightarrow> grows w w' \<Longrightarrow> consumer_ok k rs c w'"
  unfolding consumer_ok_def by (auto intro: settled_grows)

lemma wp_handle_grown: "wp (handleKafkaMessage k m) (\<lambda>r w'. (r \<longrightarrow> settled k m w') \<and> grows w w') w"
  by (rule wp_conj, rule wp_handleKafkaMessage) (use keeps_grows_handle [of w k m] in \<open>simp add: keeps_def\<close>)

lemma wp_rewind:
  assumes "\<And>s. consumer_ok k rs (c\<lparr>kc_position := i\<rparr>) (w\<lparr>script := s\<rparr>)" "\<And>s. consumer_ok k rs (c\<lparr>kc_running := False\<rparr>) (w\<lparr>script := s\<rparr>)"
  shows "wp (rewind i c) (consumer_ok k rs) w"
  unfolding rewind_def by (rule wp_bind, rule wp_pop_outcome, rule wp_return) (use assms in simp)

lemma wp_worker_pass:
  assumes ok: "consumer_ok k rs c w"
  shows "wp (worker_pass k c) (consumer_ok k rs) w"
proof -
  let ?i = "kc_position c" and ?c = "c\<lparr>kc_position := kc_position c + 1\<rparr>"
  have script: "grows w (w\<lparr>script := s\<rparr>)" for s by simp
  have commit: "wp (do { y \<leftarrow> pop_outcome; let c = (if y = Fails then ?c else ?c\<lparr>kc_committed := ?i + 1\<rparr>);
      if y = Succeeds then return c else rewind ?i c }) (consumer_ok k rs) v"
    if run: "kc_running c" "?i < length rs" and g: "grows w v" and s: "settled k (rs ! ?i) v" for v
  proof -
    have up: "settled k r (v\<lparr>script := x\<rparr>)" if "settled k r v" for r x
      using that by (rule settled_grows) simp
    have below: "settled k (rs ! j) (v\<lparr>script := x\<rparr>)" if "j < ?i + 1" for j x
    proof (rule up)
      from that show "settled k (rs ! j) v"
        using ok run s settled_grows [OF _ g] by (cases "j = ?i") (simp_all add: consumer_ok_def)
    qed
    have old: "settled k (rs ! j) (v\<lparr>script := x\<rparr>)" if "j < kc_committed c" for j x
      using ok that by (intro up settled_grows [OF _ g]) (simp add: consumer_ok_def)
    have oks: "consumer_ok k rs (?c\<lparr>kc_committed := ?i + 1\<rparr>) (v\<lparr>script := x\<rparr>)"
      "consumer_ok k rs (?c\<lparr>kc_committed := ?i + 1, kc_position := ?i\<rparr>) (v\<lparr>script := x\<rparr>)"
      "consumer_ok k rs (?c\<lparr>kc_committed := ?i + 1, kc_running := False\<rparr>) (v\<lparr>script := x\<rparr>)"
      "consumer_ok k rs (?c\<lparr>kc_position := ?i\<rparr>) (v\<lparr>script := x\<rparr>)" "consumer_ok k rs (?c\<lparr>kc_running := False\<rparr>) (v\<lparr>script := x\<rparr>)" for x
      using ok run by (simp_all add: consumer_ok_def below old)
    have "wp (rewind ?i (if y = Fails then ?c else ?c\<lparr>kc_committed := ?i + 1\<rparr>)) (consumer_ok k rs) (v\<lparr>script := x\<rparr>)" for x y
      by (cases "y = Fails") (use oks in \<open>auto intro!: wp_rewind\<close>)
    then show ?thesis
      unfolding Let_def by (intro wp_bind wp_pop_outcome wp_if wp_return) (use oks(1) in simp_all)
  qed
  have failed: "wp (rewind ?i ?c) (consumer_ok k rs) v" if "grows w v" for v
  proof (rule wp_rewind)
    fix s
    have "consumer_ok k rs c (v\<lparr>script := s\<rparr>)" by (rule consumer_ok_grows [OF ok]) (use that in simp)
    then show "consumer_ok k rs (?c\<lparr>kc_position := ?i\<rparr>) (v\<lparr>script := s\<rparr>)" "consumer_ok k rs (?c\<lparr>kc_running := False\<rparr>) (v\<lparr>script := s\<rparr>)"
      by (simp_all add: consumer_ok_def)
  qed
  show ?thesis
  proof (cases "kc_running c")
    case True
    have handle: "wp (do { handled \<leftarrow> handleKafkaMessage k (kc_records ?c ! ?i); if \<not> handled then rewind ?i ?c
        else do { y \<leftarrow> pop_outcome; let c = (if y = Fails then ?c else ?c\<lparr>kc_committed := ?i + 1\<rparr>);
          if y = Succeeds then return c else rewind ?i c } }) (consumer_ok k rs) (w\<lparr>script := s\<rparr>)" if "?i < length rs" for s
      by (rule wp_bind, rule wp_mono, rule wp_handle_grown, rule wp_if)
         (use True that ok grows_trans [OF script] failed commit in \<open>auto simp: consumer_ok_def\<close>)
    have rs: "kc_records c = rs" using ok by (simp add: consumer_ok_def)
    show ?thesis
      unfolding worker_pass_def
      by (rule wp_if, rule wp_return, rule ok, rule wp_bind, rule wp_pop_outcome, rule wp_if, rule wp_return, rule consumer_ok_grows [OF ok script],
          subst Let_def, subst Let_def, rule handle) (simp add: rs)
  qed (use ok in \<open>auto simp: worker_pass_def intro: wp_return\<close>)
qed

lemma wp_worker_run: "consumer_ok k rs c w \<Longrightarrow> wp (worker_run k n c) (consumer_ok k rs) w"
proof (induction n arbitrary: c w)
  case (Suc n)
  from Suc.IH wp_worker_pass [OF Suc.prems] show ?case
    unfolding worker_run.simps by (intro wp_bind) (rule wp_mono)
qed (auto intro: wp_return)

section \<open>Without failing calls\<close>

text \<open>A record the worker can settle: it is addressed to users with nonzero ids, or it is one for the dead letters. The
  worker keeps coming back to a record for a group without members, and to one from the retry topic with message id 0.\<close>

definition pushable_group :: "MessageData \<Rightarrow> world \<Rightarrow> bool" where
  "pushable_group d w \<longleftrightarrow> sql_listMembers (md_group_id d) (db w) \<noteq> [] \<and> 0 \<notin> set (sql_listMembers (md_group_id d) (db w))"

definition pushable :: "PushWorker \<Rightarrow> KafkaMessage \<Rightarrow> world \<Rightarrow> bool" where
  "pushable k m w \<longleftrightarrow> (case deserializeMessageData (worker_codec k) (km_payload m) of None \<Rightarrow> True
     | Some d \<Rightarrow> (km_topic m = pw_topic_group (pw_options k) \<longrightarrow> md_group_id d \<noteq> 0 \<longrightarrow> pushable_group d w)
         \<and> (km_topic m = pw_topic_retry (pw_options k) \<longrightarrow> md_to_user_id d \<noteq> 0 \<or> md_group_id d \<noteq> 0 \<longrightarrow> md_message_id d \<noteq> 0
              \<and> (md_to_user_id d = 0 \<longrightarrow> pushable_group d w)))"

lemma pushable_grows: "grows w w' \<Longrightarrow> pushable k m w' = pushable k m w"
  by (simp add: pushable_def pushable_group_def grows_def sql_listMembers_def cong: option.case_cong)

definition surely :: "bool io \<Rightarrow> bool" where
  "surely m \<longleftrightarrow> (\<forall>w. quiet w \<longrightarrow> wp m (\<lambda>r w'. r \<and> quiet w') w)"

lemma surely_quiet: "surely m \<Longrightarrow> keeps quiet m"
  unfolding surely_def keeps_def by (auto intro: wp_mono)

lemma surely_calls: "surely (produce t k p)" "surely (insertOfflineMessage m)"
  by (auto simp: surely_def wp_def quiet_def produce_def insertOfflineMessage_def calm)

lemma surely_return: "surely (return True)"
  by (simp add: surely_def wp_def)

lemma surely_bind: "keeps quiet m \<Longrightarrow> (\<And>x. surely (f x)) \<Longrightarrow> surely (m \<bind> f)"
  unfolding surely_def by (intro allI impI, rule wp_bind, rule wp_keeps, assumption, assumption) simp

lemma surely_if: "(b \<Longrightarrow> surely m) \<Longrightarrow> (\<not> b \<Longrightarrow> surely n) \<Longrightarrow> surely (if b then m else n)"
  by simp

lemma keeps_quiet_incr [keeps_intros]: "keeps quiet (redis_incr k)" "keeps quiet (redis_expire k)"
  by (auto simp: keeps_def wp_def quiet_def redis_incr_def calm split: option.splits)

lemma keeps_quiet_gateway [keeps_intros]: "keeps quiet (set_breaker gid b)" "keeps quiet (getClient gid)"
    "keeps quiet (deliverToConnection gid u conn mid)"
proof -
  show "keeps quiet (set_breaker gid b)" by (simp add: keeps_def wp_def set_breaker_def quiet_def)
  show "keeps quiet (getClient gid)" by (simp add: keeps_def wp_def getClient_def)
  show "keeps quiet (deliverToConnection gid u conn mid)"
    by (auto simp: deliverToConnection_def gateway_call_def keeps_def wp_def quiet_def set_breaker_def calm
        split: option.splits prod.splits list.splits)
qed

lemma keeps_quiet_statuses [keeps_intros]: "keeps quiet (getOnlineStatuses u)"
proof -
  have "keeps quiet (online_devices u ds)" for ds
    by (induction ds) (auto intro!: keeps_intros)
  then show ?thesis unfolding getOnlineStatuses_def by (intro keeps_intros)
qed

lemma keeps_quiet_deliver_all [keeps_intros]: "keeps quiet (deliver_all u d sts b)"
  by (induction sts arbitrary: b) (auto simp: deliverOnline_def intro!: keeps_intros)

lemma surely_saveOffline: "surely (saveOffline p u d)"
  unfolding saveOffline_def Let_def by (intro surely_bind surely_calls keeps_intros)

lemma surely_handlePushFailure: "surely (handlePushFailure p u d)"
proof -
  have dlq: "surely (do { dlq_ok \<leftarrow> sendToDlqTopic p u d; _ \<leftarrow> saveOffline p u d; return dlq_ok })"
    unfolding sendToDlqTopic_def surely_def
    by (intro allI impI wp_bind wp_mono [OF surely_calls(1) [unfolded surely_def, rule_format]] wp_keeps [OF surely_quiet [OF surely_saveOffline]] wp_return) auto
  have count: "keeps quiet (increaseRetryCount m v)" for m v
    unfolding increaseRetryCount_def by (intro keeps_intros)
  show ?thesis
    unfolding handlePushFailure_def sendToRetryTopic_def
    by (rule surely_bind, rule count, rule surely_if, rule surely_calls, rule dlq)
qed

lemma surely_pushToUser: "u \<noteq> 0 \<Longrightarrow> md_message_id d \<noteq> 0 \<Longrightarrow> surely (pushToUser p u d)"
  by (auto simp: pushToUser_def clearRetry_def intro!: surely_bind surely_return surely_handlePushFailure surely_saveOffline keeps_intros)

lemma quiet_push_members:
  assumes "0 \<notin> set us" and "md_message_id d \<noteq> 0" and "quiet w"
  shows "wp (push_members p d us n) (\<lambda>r w'. snd r = snd n \<and> quiet w') w"
  using assms(1,3)
proof (induction us arbitrary: n w)
  case (Cons u us)
  have "wp (pushToUser p u d) (\<lambda>r w'. r \<and> quiet w') w"
    using surely_pushToUser [of u d p] Cons.prems assms(2) by (simp add: surely_def)
  then have "wp (pushToUser p u d \<bind> (\<lambda>ok. push_members p d us (if ok then (fst n + 1, snd n) else (fst n, snd n + 1))))
      (\<lambda>r w'. snd r = snd n \<and> quiet w') w"
    by (rule wp_bind [OF wp_mono]) (use Cons.IH [of _ "(fst n + 1, snd n)"] Cons.prems in auto)
  then show ?case
    unfolding push_members.simps by (intro wp_if Cons.IH) (use Cons.prems in auto)
qed (auto intro: wp_return)

lemma quiet_pushToGroup:
  assumes "pushable_group d w" and "md_message_id d \<noteq> 0" and "md_group_id d \<noteq> 0" and "quiet w"
  shows "wp (do { n \<leftarrow> pushToGroup p (md_group_id d) d; return (snd n = 0) }) (\<lambda>r w'. r \<and> quiet w') w"
proof -
  let ?us = "sql_listMembers (md_group_id d) (db w)"
  have "run_state (pushToGroup p (md_group_id d) d) w = run_state (push_members p d ?us (0, 0)) w"
    using assms by (simp add: pushToGroup_def listMembers_def pushable_group_def quiet_def calm)
  then have "wp (pushToGroup p (md_group_id d) d) (\<lambda>r w'. snd r = 0 \<and> quiet w') w"
    using quiet_push_members [of ?us d w p "(0, 0)"] assms by (simp add: wp_def pushable_group_def)
  then show ?thesis
    by (rule wp_bind [OF wp_mono]) (auto intro: wp_return)
qed

lemma quiet_handle:
  assumes "pushable k m w" and "quiet w"
  shows "wp (handleKafkaMessage k m) (\<lambda>r w'. r \<and> quiet w') w"
proof -
  have dead: "wp (produce_dead k d) (\<lambda>r w'. r \<and> quiet w') w" "wp (produce t x y) (\<lambda>r w'. r \<and> quiet w') w" for d t x y
    using surely_calls(1) assms(2) by (simp_all add: produce_dead_def surely_def)
  have user: "wp (pushToUser p u d) (\<lambda>r w'. r \<and> quiet w') w" if "u \<noteq> 0" "md_message_id d \<noteq> 0" for p u d
    using surely_pushToUser [OF that] assms(2) by (simp add: surely_def)
  show ?thesis
    using assms unfolding handleKafkaMessage_def handleSingleMessage_def handleGroupMessage_def handleRetryMessage_def pushable_def
    by (intro wp_case_option wp_if) (auto intro: dead user quiet_pushToGroup)
qed

text \<open>Each pass then commits the next record.\<close>

definition caught_up :: "PushWorker \<Rightarrow> KafkaMessage list \<Rightarrow> nat \<Rightarrow> consumer \<Rightarrow> world \<Rightarrow> bool" where
  "caught_up k rs n c w \<longleftrightarrow> quiet w \<and> (\<forall>m \<in> set rs. pushable k m w)
     \<and> c = \<lparr>kc_records = rs, kc_position = n, kc_committed = n, kc_running = True\<rparr>"

lemma quiet_worker_pass:
  assumes "caught_up k rs n c w" and "n < length rs"
  shows "wp (worker_pass k c) (caught_up k rs (n + 1)) w"
proof -
  have c: "c = \<lparr>kc_records = rs, kc_position = n, kc_committed = n, kc_running = True\<rparr>" and q: "quiet w"
    and p: "\<forall>m \<in> set rs. pushable k m w" using assms(1) by (auto simp: caught_up_def)
  have "wp (handleKafkaMessage k (rs ! n)) (\<lambda>r w'. (r \<and> quiet w') \<and> (\<forall>m \<in> set rs. pushable k m w')) w"
  proof (rule wp_conj)
    show "wp (handleKafkaMessage k (rs ! n)) (\<lambda>r w'. r \<and> quiet w') w"
      using p assms(2) q by (intro quiet_handle) simp_all
    show "wp (handleKafkaMessage k (rs ! n)) (\<lambda>r w'. \<forall>m \<in> set rs. pushable k m w') w"
      by (rule wp_mono [OF wp_handle_grown]) (use p in \<open>auto simp: pushable_grows\<close>)
  qed
  then show ?thesis
    using assms(2) q by (auto simp: worker_pass_def Let_def c wp_def caught_up_def quiet_def calm split: prod.splits)
qed

lemma quiet_worker_run:
  "caught_up k rs i c w \<Longrightarrow> i + n \<le> length rs \<Longrightarrow> wp (worker_run k n c) (caught_up k rs (i + n)) w"
proof (induction n arbitrary: i c w)
  case (Suc n)
  have "wp (worker_pass k c) (caught_up k rs (i + 1)) w"
    using Suc.prems by (intro quiet_worker_pass) simp_all
  then show ?case
    unfolding worker_run.simps by (rule wp_bind [OF wp_mono]) (use Suc.IH [of "i + 1"] Suc.prems in simp)
qed (auto intro: wp_return)

section \<open>Properties\<close>

definition new_consumer :: "KafkaMessage list \<Rightarrow> consumer" where
  "new_consumer rs = \<lparr>kc_records = rs, kc_position = 0, kc_committed = 0, kc_running = True\<rparr>"

definition push_example_data :: "u64 \<Rightarrow> u64 \<Rightarrow> MessageData" where
  "push_example_data u g = (toMessageData [] (single_record (hello 1 u) 50 100))\<lparr>md_group_id := g\<rparr>"

definition push_example_worker :: PushWorker where
  "push_example_worker = \<lparr>pw_options = default_PushWorkerOptions, pw_dispatcher = \<lparr>pd_options = default_PushOptions,
     pd_retry_manager = new_PushRetryManager 3,
     pd_codec = \<lparr>serializeMessageData = md_content,
       deserializeMessageData = (\<lambda>s. if s = ''user'' then Some (push_example_data 2 0)
         else if s = ''group'' then Some (push_example_data 0 7) else None)\<rparr>\<rparr>\<rparr>"

definition push_example_records :: "KafkaMessage list" where
  "push_example_records =
     [\<lparr>km_topic = ''nebula.message.single'', km_key = ''a'', km_payload = ''user''\<rparr>,
      \<lparr>km_topic = ''nebula.message.group'', km_key = ''b'', km_payload = ''group''\<rparr>,
      \<lparr>km_topic = ''nebula.message.single'', km_key = ''c'', km_payload = ''broken''\<rparr>]"

lemma push_example_pushable: "\<forall>m \<in> set push_example_records. pushable push_example_worker m chat_world"
  by (simp add: push_example_records_def push_example_worker_def push_example_data_def pushable_def pushable_group_def worker_codec_def
      default_PushWorkerOptions_def toMessageData_def single_record_def chat_tables_def sql_listMembers_def example_member_def)

lemma push_example_run:
  assumes "run_state (worker_run push_example_worker 3 (new_consumer push_example_records)) chat_world = (c, w')"
  shows "kc_committed c = 3"
proof -
  have "caught_up push_example_worker push_example_records 0 (new_consumer push_example_records) chat_world"
    using push_example_pushable by (simp add: caught_up_def new_consumer_def quiet_def chat_world_def)
  from wp_I [OF quiet_worker_run [OF this, of 3] assms] show ?thesis
    by (simp add: caught_up_def push_example_records_def)
qed

text \<open>
  C3. The worker loses no message, whatever calls fail or lose their answers: after any number of passes over
  a partition, every record below the committed offset is settled. Settled means that the record is
  in the dead letter topic, or that its recipient, or every member of its group but the sender, has the message:
  a gateway took it, or an offline row holds it, or it is in the retry or the dead letter topic.
\<close>

theorem committed_records_are_settled:
  assumes "run_state (worker_run k n (new_consumer rs)) w = (c, w')" and "i < kc_committed c"
  shows "i < length rs \<and> settled k (rs ! i) w'"
proof -
  have "consumer_ok k rs (new_consumer rs) w" by (simp add: consumer_ok_def new_consumer_def)
  from wp_I [OF wp_worker_run [OF this] assms(1)] assms(2) show ?thesis by (simp add: consumer_ok_def)
qed

theorem committed_records_are_settled_witness:
  "settled push_example_worker (push_example_records ! 1)
     (snd (run_state (worker_run push_example_worker 3 (new_consumer push_example_records)) chat_world))"
proof -
  obtain c w' where run: "run_state (worker_run push_example_worker 3 (new_consumer push_example_records)) chat_world = (c, w')" by fastforce
  from committed_records_are_settled [OF run, of 1] push_example_run [OF run] run show ?thesis by simp
qed



end
