(* ===== verification/Conversation_Service.thy ===== *)
theory Conversation_Service
  imports Message_Service
begin

text \<open>
  \<^verbatim>\<open>conversation_service/src/ConversationServiceImpl.cpp\<close>: listing a user's conversations, and deleting, pinning and muting
  one of them. The checks for a null dependency have no counterpart. The lemmas show that an update touches
  only the caller's own row of that conversation, whatever fails, and that a positive reply means that it was
  changed.
\<close>

section \<open>Handlers\<close>

record ConversationInfo =
  ci_conversation_id :: u64
  ci_conversation_type :: int
  ci_owner_user_id :: u64
  ci_peer_user_id :: u64
  ci_group_id :: u64
  ci_last_message_id :: u64
  ci_last_message_preview :: string
  ci_last_message_at :: int
  ci_unread_count :: int
  ci_pinned :: bool
  ci_muted :: bool
  ci_deleted :: bool
  ci_updated_at :: int
  ci_group_name :: string

definition fillConversation :: "Conversation \<times> string \<Rightarrow> ConversationInfo" where
  "fillConversation = (\<lambda>(c, name). \<lparr>ci_conversation_id = c_conversation_id c, ci_conversation_type = c_conversation_type c,
     ci_owner_user_id = c_owner_user_id c, ci_peer_user_id = c_peer_user_id c, ci_group_id = c_group_id c,
     ci_last_message_id = c_last_message_id c, ci_last_message_preview = c_last_message_preview c,
     ci_last_message_at = c_last_message_at c, ci_unread_count = c_unread_count c, ci_pinned = c_pinned c, ci_muted = c_muted c,
     ci_deleted = c_deleted c, ci_updated_at = c_updated_at c, ci_group_name = name\<rparr>)"

text \<open>The reply carries the conversations, and the page, the page size and the number of rows on the page.\<close>

definition ListConversations :: "rpc_context \<Rightarrow> string \<Rightarrow> u64 \<Rightarrow> u32 \<Rightarrow> u32 \<Rightarrow> (ConversationInfo list \<times> nat \<times> nat \<times> nat) reply io" where
  "ListConversations ctx rid u req_page req_size = requireInternalRpc ctx rid ([], 0, 0, 0)
     (if u = 0 then return (fillResponse rid EC_INVALID_ARGUMENT [], [], 0, 0, 0)
      else do {
        let page_size = (if req_size = 0 then 50 else unat req_size);
        let page_size = (if page_size > 200 then 200 else page_size);
        let page = (if req_page = 0 then 1 else unat req_page);
        rows \<leftarrow> listConversations u page_size ((page - 1) * page_size);
        return (fillResponse rid EC_OK ''OK'', map fillConversation rows, page, page_size, length rows) })"

definition conversation_reply :: "string \<Rightarrow> bool \<Rightarrow> unit reply" where
  "conversation_reply rid ok = (fillResponse rid (if ok then EC_OK else EC_CONVERSATION_NOT_FOUND) (if ok then ''OK'' else []), ())"

definition DeleteConversation :: "rpc_context \<Rightarrow> string \<Rightarrow> u64 \<Rightarrow> u64 \<Rightarrow> unit reply io" where
  "DeleteConversation ctx rid u conv = requireInternalRpc ctx rid ()
     (do { ok \<leftarrow> deleteConversation u conv; return (conversation_reply rid ok) })"

definition PinConversation :: "rpc_context \<Rightarrow> string \<Rightarrow> u64 \<Rightarrow> u64 \<Rightarrow> bool \<Rightarrow> unit reply io" where
  "PinConversation ctx rid u conv b = requireInternalRpc ctx rid ()
     (do { ok \<leftarrow> pinConversation u conv b; return (conversation_reply rid ok) })"

definition MuteConversation :: "rpc_context \<Rightarrow> string \<Rightarrow> u64 \<Rightarrow> u64 \<Rightarrow> bool \<Rightarrow> unit reply io" where
  "MuteConversation ctx rid u conv b = requireInternalRpc ctx rid ()
     (do { ok \<leftarrow> muteConversation u conv b; return (conversation_reply rid ok) })"

section \<open>Only the caller's row\<close>

text \<open>The tables after an update of the row by \<open>f\<close> at some moment, or as before; with a positive answer it was updated and exists.\<close>

definition own_row_updated :: "u64 \<Rightarrow> u64 \<Rightarrow> (int \<Rightarrow> Conversation \<Rightarrow> Conversation) \<Rightarrow> tables \<Rightarrow> bool \<Rightarrow> tables \<Rightarrow> bool" where
  "own_row_updated u conv f t ok t' \<longleftrightarrow> (\<not> ok \<and> t' = t
     \<or> (\<exists>now. t' = t\<lparr>conversations := update_where (same_conversation u conv) (f now) (conversations t)\<rparr>
           \<and> (ok \<longrightarrow> (\<exists>c \<in> set (conversations t). same_conversation u conv c \<and> f now c \<noteq> c))))"

lemma wp_conversation_update:
  "wp (do { ok \<leftarrow> pooled False (do { now \<leftarrow> nowMs; r \<leftarrow> executeUpdate (sql_updateConversation u conv (f now)); return (affected r) });
        return (conversation_reply rid ok) }) (\<lambda>r w'. own_row_updated u conv f (db w) (is_ok (fst r)) (db w')) w"
proof -
  have affects: "affected (Some (changed P g rows)) \<longleftrightarrow> (\<exists>c \<in> set rows. P c \<and> g c \<noteq> c)" for P g and rows :: "Conversation list"
    by (auto simp: affected_def changed_def filter_empty_conv)
  have none: "\<not> affected None" by (simp add: affected_def)
  show ?thesis
    by (intro wp_bind wp_pooled wp_nowMs wp_executeUpdate wp_return conjI)
       (auto simp: own_row_updated_def conversation_reply_def sql_updateConversation_def affects none)
qed

lemma conversation_calls:
  "wp (DeleteConversation ctx rid u conv)
     (\<lambda>r w'. own_row_updated u conv (\<lambda>now c. c\<lparr>c_deleted := True, c_updated_at := now\<rparr>) (db w) (is_ok (fst r)) (db w')) w"
  "wp (PinConversation ctx rid u conv b)
     (\<lambda>r w'. own_row_updated u conv (\<lambda>now c. c\<lparr>c_pinned := b, c_updated_at := now\<rparr>) (db w) (is_ok (fst r)) (db w')) w"
  "wp (MuteConversation ctx rid u conv b)
     (\<lambda>r w'. own_row_updated u conv (\<lambda>now c. c\<lparr>c_muted := b, c_updated_at := now\<rparr>) (db w) (is_ok (fst r)) (db w')) w"
  unfolding DeleteConversation_def PinConversation_def MuteConversation_def requireInternalRpc_def deleteConversation_def
    pinConversation_def muteConversation_def
  by (intro wp_if wp_conversation_update wp_return, simp add: own_row_updated_def)+

end
