(* ===== verification/Auth.thy ===== *)
theory Auth
  imports Message_Store
begin

text \<open>
  \<^verbatim>\<open>common/auth\<close>: \<^verbatim>\<open>PasswordHasher\<close> and \<^verbatim>\<open>TokenManager\<close>. The digests of OpenSSL are arguments: \<open>None\<close> is a
  call that failed. Random bytes come from the world's supply; a draw of another size than requested
  counts as a failed \<^verbatim>\<open>RAND_bytes\<close>.

  The main result is that checking a password against a stored hash compares the derived keys, however
  the hash is encoded and however the comparison is done.
\<close>

section \<open>External functions\<close>

record crypto =
  sha256 :: "string \<Rightarrow> string option"
  pbkdf2 :: "string \<Rightarrow> string \<Rightarrow> int \<Rightarrow> nat \<Rightarrow> string option"

definition random_bytes :: "nat \<Rightarrow> string option io" where
  "random_bytes n = do {
     x \<leftarrow> pop_outcome;
     d \<leftarrow> random_token;
     return (if x = Succeeds \<and> length d = n then Some d else None) }"

section \<open>Passwords\<close>

definition kIterations :: int where "kIterations = 100000"

definition kSaltBytes :: nat where "kSaltBytes = 16"

definition kHashBytes :: nat where "kHashBytes = 32"

definition kAlgorithm :: string where "kAlgorithm = ''pbkdf2_sha256''"

definition generateSalt :: "nat \<Rightarrow> string io" where
  "generateSalt n = do { d \<leftarrow> random_bytes n; return (case d of None \<Rightarrow> [] | Some salt \<Rightarrow> salt) }"

definition pbkdf2Sha256 :: "crypto \<Rightarrow> string \<Rightarrow> string \<Rightarrow> int \<Rightarrow> nat \<Rightarrow> string" where
  "pbkdf2Sha256 c password salt iterations n = (case pbkdf2 c password salt iterations n of None \<Rightarrow> [] | Some out \<Rightarrow> out)"

definition encode_hash :: "string \<Rightarrow> string \<Rightarrow> string" where
  "encode_hash salt hash = kAlgorithm @ ''$'' @ to_string (nat kIterations) @ ''$'' @ toHex salt @ ''$'' @ toHex hash"

definition hashPassword :: "crypto \<Rightarrow> string \<Rightarrow> string io" where
  "hashPassword c password =
     (if password = [] then return []
      else do {
        salt \<leftarrow> generateSalt kSaltBytes;
        if salt = [] then return []
        else let hash = pbkdf2Sha256 c password salt kIterations kHashBytes
             in if hash = [] then return [] else return (encode_hash salt hash) })"

text \<open>The parts between the separators, as the loop over \<^verbatim>\<open>find\<close> collects them.\<close>

primrec split_on :: "char \<Rightarrow> string \<Rightarrow> string list" where
  "split_on sep [] = [[]]"
| "split_on sep (x # xs) = (if x = sep then [] # split_on sep xs
     else case split_on sep xs of [] \<Rightarrow> [[x]] | p # ps \<Rightarrow> (x # p) # ps)"

text \<open>\<^verbatim>\<open>iss >> std::hex >> value\<close> on two characters: leading white space and a sign are accepted, the digits
  end at the first other character, and \<^verbatim>\<open>0x\<close> alone is no number. A negative value wraps around.\<close>

definition extract_hex :: "char \<Rightarrow> char \<Rightarrow> int option" where
  "extract_hex a b =
     (if isspace a then if hexValue b \<ge> 0 then Some (hexValue b) else None
      else if a = CHR ''+'' then if hexValue b \<ge> 0 then Some (hexValue b) else None
      else if a = CHR ''-'' then if hexValue b \<ge> 0 then Some ((- hexValue b) mod 2 ^ 32) else None
      else if hexValue a < 0 then None
      else if hexValue b \<ge> 0 then Some (hexValue a * 16 + hexValue b)
      else if a = CHR ''0'' \<and> b \<in> {CHR ''x'', CHR ''X''} then None
      else Some (hexValue a))"

fun password_fromHex_pairs :: "string \<Rightarrow> string option" where
  "password_fromHex_pairs (a # b # rest) =
     (case extract_hex a b of None \<Rightarrow> None
      | Some v \<Rightarrow> map_option (\<lambda>ds. char_of (nat v) # ds) (password_fromHex_pairs rest))"
| "password_fromHex_pairs _ = Some []"

definition password_fromHex :: "string \<Rightarrow> string" where
  "password_fromHex hex = (if length hex mod 2 \<noteq> 0 then []
     else case password_fromHex_pairs hex of None \<Rightarrow> [] | Some ds \<Rightarrow> ds)"

text \<open>The comparison that looks at every byte.\<close>

primrec differences :: "(char \<times> char) list \<Rightarrow> byte \<Rightarrow> byte" where
  "differences [] d = d"
| "differences (x # xs) d = differences xs (d OR (of_char (fst x) XOR of_char (snd x)))"

definition verifyPassword :: "crypto \<Rightarrow> string \<Rightarrow> string \<Rightarrow> bool" where
  "verifyPassword c password encoded_hash =
     (if password = [] \<or> encoded_hash = [] then False
      else let parts = split_on CHR ''$'' encoded_hash
      in if length parts \<noteq> 4 \<or> parts ! 0 \<noteq> kAlgorithm then False
      else case stoi (parts ! 1) of None \<Rightarrow> False
      | Some (iterations, _) \<Rightarrow>
          if iterations \<le> 0 then False
          else let salt = password_fromHex (parts ! 2); expected = password_fromHex (parts ! 3)
          in if salt = [] \<or> expected = [] then False
          else let actual = pbkdf2Sha256 c password salt iterations (length expected)
          in if length actual \<noteq> length expected then False
          else differences (zip actual expected) 0 = 0)"

section \<open>Tokens\<close>

record TokenManager =
  ttl_seconds :: int

definition new_TokenManager :: "int \<Rightarrow> TokenManager" where
  "new_TokenManager ttl = \<lparr>ttl_seconds = (if ttl > 0 then ttl else 7 * 24 * 3600)\<rparr>"

definition randomHex :: "nat \<Rightarrow> string io" where
  "randomHex n = do { d \<leftarrow> random_bytes n; return (case d of None \<Rightarrow> [] | Some bs \<Rightarrow> toHex bs) }"

definition generateToken :: "u64 \<Rightarrow> string io" where
  "generateToken user = randomHex 32"

definition sha256Hex :: "crypto \<Rightarrow> string \<Rightarrow> string" where
  "sha256Hex c input = (case sha256 c input of None \<Rightarrow> [] | Some digest \<Rightarrow> toHex digest)"

definition tokenKey :: "crypto \<Rightarrow> string \<Rightarrow> string" where
  "tokenKey c token = ''nebula:token:'' @ sha256Hex c token"

definition tokenHash :: "crypto \<Rightarrow> string \<Rightarrow> string" where
  "tokenHash c token = sha256Hex c token"

definition ttlSeconds :: "TokenManager \<Rightarrow> int" where
  "ttlSeconds tm = ttl_seconds tm"

definition expireAtMs :: "TokenManager \<Rightarrow> int io" where
  "expireAtMs tm = do { now \<leftarrow> nowMs; return (now + ttl_seconds tm * 1000) }"

section \<open>The comparison\<close>

lemma differences_0: "differences xs d = 0 \<longleftrightarrow> d = 0 \<and> (\<forall>(a, b) \<in> set xs. (of_char a :: byte) = of_char b)"
proof (induction xs arbitrary: d)
  case (Cons x xs)
  have "(d OR e = 0) = (d = 0 \<and> e = 0)" for e :: byte
    by (metis or.left_idem or.right_neutral or.commute)
  moreover have "((a :: byte) XOR b = 0) = (a = b)" for a b
    by (metis xor_self_eq bit.xor_left_self xor.right_neutral)
  ultimately show ?case using Cons by (auto split: prod.splits)
qed simp

lemma of_char_byte_inject: "(of_char a :: byte) = of_char b \<longleftrightarrow> a = b"
proof
  assume "(of_char a :: byte) = of_char b"
  then have "unat (of_char a :: byte) = unat (of_char b :: byte)" by simp
  moreover have "unat (of_char x :: byte) = of_char x" for x
  proof -
    have "(of_char x :: byte) = of_nat (of_char x)" by (rule of_nat_of_char [symmetric])
    then show ?thesis using nat_of_char_less_256 [of x] by (simp only: unat_of_nat) (simp add: take_bit_nat_eq_self)
  qed
  ultimately have "(of_char a :: nat) = of_char b" by simp
  then show "a = b" by simp
qed simp

lemma differences_eq: "length xs = length ys \<Longrightarrow> differences (zip xs ys) 0 = 0 \<longleftrightarrow> xs = ys"
  by (simp add: differences_0 of_char_byte_inject list_eq_iff_zip_eq split: prod.splits)

section \<open>Encoded hashes\<close>

lemma split_on_append: "sep \<notin> set xs \<Longrightarrow> split_on sep (xs @ sep # ys) = xs # split_on sep ys"
  by (induction xs) auto

lemma split_on_last: "sep \<notin> set xs \<Longrightarrow> split_on sep xs = [xs]"
  by (induction xs) auto

lemma hex_digit_no_sign: "n < 16 \<Longrightarrow> \<not> isspace (hex_digits ! n) \<and> hex_digits ! n \<notin> {CHR ''+'', CHR ''-'', CHR ''$''}"
proof -
  have "\<forall>n < 16. \<not> isspace (hex_digits ! n) \<and> hex_digits ! n \<notin> {CHR ''+'', CHR ''-'', CHR ''$''}"
    by code_simp
  then show "n < 16 \<Longrightarrow> ?thesis" by simp
qed

lemma of_char_div_16: "of_char a div 16 < (16 :: nat)"
  using nat_of_char_less_256 [of a] by (simp only: less_mult_imp_div_less)

lemma toHex_no_separator: "CHR ''$'' \<notin> set (toHex bs)"
proof (induction bs)
  case (Cons a bs)
  then show ?case
    using hex_digit_no_sign [OF of_char_div_16, of a] hex_digit_no_sign [of "of_char a mod 16"] by (auto simp: toHex_def)
qed (simp add: toHex_def)

lemma extract_hex_digits: "m < 16 \<Longrightarrow> n < 16 \<Longrightarrow> extract_hex (hex_digits ! m) (hex_digits ! n) = Some (int (m * 16 + n))"
  using hex_digit_no_sign [of m] by (auto simp: extract_hex_def hexValue_digit)

lemma password_fromHex_toHex: "password_fromHex (toHex bs) = bs"
proof -
  have "password_fromHex_pairs (toHex bs) = Some bs"
  proof (induction bs)
    case (Cons a bs)
    then show ?case
      by (simp add: toHex_def extract_hex_digits of_char_div_16 del: of_nat_add of_nat_mult)
  qed (simp add: toHex_def)
  moreover have "length (toHex bs) = 2 * length bs"
    by (induction bs) (simp_all add: toHex_def)
  ultimately show ?thesis by (simp add: password_fromHex_def)
qed

lemma split_encode_hash:
  "split_on CHR ''$'' (encode_hash salt hash) = [kAlgorithm, to_string (nat kIterations), toHex salt, toHex hash]"
proof -
  have "CHR ''$'' \<notin> set kAlgorithm" "CHR ''$'' \<notin> set (to_string n)" for n
    using to_string_digits [of "CHR ''$''" n] by (auto simp: kAlgorithm_def isdigit_def)
  then show ?thesis
    by (simp add: encode_hash_def split_on_append split_on_last toHex_no_separator)
qed

lemma verify_encoded:
  assumes "\<And>p s i n out. pbkdf2 c p s i n = Some out \<Longrightarrow> length out = n"
    and "salt \<noteq> []" and "pbkdf2 c p salt kIterations kHashBytes = Some hash"
  shows "verifyPassword c q (encode_hash salt hash) \<longleftrightarrow> q \<noteq> [] \<and> pbkdf2 c q salt kIterations kHashBytes = Some hash"
proof -
  have n: "length hash = kHashBytes" "hash \<noteq> []" using assms(1) [OF assms(3)] by (auto simp: kHashBytes_def)
  have i: "stoi (to_string (nat kIterations)) = Some (kIterations, length (to_string (nat kIterations)))" "\<not> kIterations \<le> 0"
    by (simp_all add: stoi_def kIterations_def)
  have e: "encode_hash salt hash \<noteq> []" by (simp add: encode_hash_def kAlgorithm_def)
  show ?thesis
    using assms(1,2) n i e
    by (auto simp: verifyPassword_def split_encode_hash password_fromHex_toHex pbkdf2Sha256_def differences_eq Let_def
        split: option.splits)
qed

text \<open>
  C40. Checking a password against the hash that was made for another one is the comparison of the two
  derived keys: the text coding of salt and key and the comparison over all bytes neither reject the
  right password nor accept one with a different key.
\<close>

theorem verifyPassword_iff:
  assumes "\<And>p s i n out. pbkdf2 c p s i n = Some out \<Longrightarrow> length out = n"
    and "run_state (hashPassword c p) w = (h, w')" and "h \<noteq> []" and "random w = salt # rest"
  shows "verifyPassword c q h \<longleftrightarrow>
     q \<noteq> [] \<and> pbkdf2 c q salt kIterations kHashBytes = pbkdf2 c p salt kIterations kHashBytes"
proof -
  obtain x w1 where pop: "run_state pop_outcome w = (x, w1)" by fastforce
  then have "random w1 = salt # rest"
    using assms(4) by (auto simp: pop_outcome_def pop_def State_Monad.bind_def State_Monad.get_def State_Monad.set_def
        State_Monad.return_def split: list.splits)
  with assms(2,3) pop obtain hash where "salt \<noteq> []" "pbkdf2 c p salt kIterations kHashBytes = Some hash" "h = encode_hash salt hash"
    by (auto simp: hashPassword_def generateSalt_def random_bytes_def random_token_def pop_def State_Monad.bind_def
        State_Monad.get_def State_Monad.set_def State_Monad.return_def pbkdf2Sha256_def Let_def split: if_splits option.splits)
  then show ?thesis using verify_encoded [OF assms(1)] by simp
qed

definition example_crypto :: crypto where
  "example_crypto = \<lparr>sha256 = (\<lambda>s. Some (rev s)), pbkdf2 = (\<lambda>p s i n. Some (take n (p @ s @ replicate n CHR ''x'')))\<rparr>"

definition salt_world :: world where
  "salt_world = \<lparr>db = empty_tables, tx = None, seqs = \<lparr>user_seq = 0, request_seq = 0, group_seq = 0, outbox_seq = 0\<rparr>,
     redis = \<lparr>kv = (\<lambda>_. None), smembers_of = (\<lambda>_. [])\<rparr>, kafka = [], script = [], clock = [],
     random = [''0123456789abcdef''], ids = [], gateways = (\<lambda>_. None), pushed = []\<rparr>"

lemma example_hash: "fst (run_state (hashPassword example_crypto ''secret'') salt_world) \<noteq> []"
  by (simp add: hashPassword_def generateSalt_def random_bytes_def pop_outcome_def random_token_def pop_def salt_world_def
      State_Monad.bind_def State_Monad.get_def State_Monad.set_def State_Monad.return_def example_crypto_def
      pbkdf2Sha256_def encode_hash_def kAlgorithm_def kSaltBytes_def kHashBytes_def)

theorem verifyPassword_iff_witness:
  "verifyPassword example_crypto ''secret'' (fst (run_state (hashPassword example_crypto ''secret'') salt_world))
   \<and> \<not> verifyPassword example_crypto ''Secret'' (fst (run_state (hashPassword example_crypto ''secret'') salt_world))"
proof -
  have len: "length out = n" if "pbkdf2 example_crypto p s i n = Some out" for p s i n out
    using that by (auto simp: example_crypto_def)
  note iff = verifyPassword_iff [where c = example_crypto and p = "''secret''" and w = salt_world and rest = "[]"
      and salt = "''0123456789abcdef''", OF len surjective_pairing example_hash]
  show ?thesis
    using iff [where q = "''secret''"] iff [where q = "''Secret''"]
    by (simp add: salt_world_def) (simp add: example_crypto_def kHashBytes_def)
qed

end
