(* ===== verification/User_Service.thy ===== *)
theory User_Service
  imports Relation_Service Auth
begin

text \<open>
  \<^verbatim>\<open>user_service/src/UserServiceImpl\<close>: accounts, logins and tokens. A token is a key of Redis that holds the
  id of its user; its expiry is not modelled. The collation of the user name and device id columns, the
  digests and the settings are arguments. The checks for null dependencies have no counterpart; log lines
  and metrics are left out.
\<close>

section \<open>The service and its requests\<close>

record UserServiceImpl =
  us_crypto :: crypto
  us_collation :: "string \<Rightarrow> string"
  us_token_manager :: TokenManager
  password_min_length :: int

definition new_UserServiceImpl :: "crypto \<Rightarrow> (string \<Rightarrow> string) \<Rightarrow> TokenManager \<Rightarrow> int \<Rightarrow> UserServiceImpl" where
  "new_UserServiceImpl c coll tm n = \<lparr>us_crypto = c, us_collation = coll, us_token_manager = tm,
     password_min_length = (if n > 0 then n else 6)\<rparr>"

record RegisterRequest =
  rg_request_id :: string
  rg_username :: string
  rg_password :: string
  rg_nickname :: string

record LoginRequest =
  lg_request_id :: string
  lg_username :: string
  lg_password :: string
  lg_device_id :: string
  lg_platform :: string
  lg_device_name :: string

record RefreshTokenRequest =
  rt_request_id :: string
  rt_token :: string
  rt_device_id :: string

definition kMaxUsernameLength :: nat where "kMaxUsernameLength = 64"

definition kMaxPasswordLength :: nat where "kMaxPasswordLength = 256"

definition kMaxNicknameLength :: nat where "kMaxNicknameLength = 64"

definition kMaxDeviceIdLength :: nat where "kMaxDeviceIdLength = 128"

definition kMaxPlatformLength :: nat where "kMaxPlatformLength = 32"

definition kMaxDeviceNameLength :: nat where "kMaxDeviceNameLength = 128"

definition kMaxTokenLength :: nat where "kMaxTokenLength = 256"

definition fillUserInfo :: "User \<Rightarrow> UserInfo" where
  "fillUserInfo u = \<lparr>ui_user_id = user_id u, ui_username = username u, ui_nickname = nickname u, ui_avatar = avatar u,
     ui_created_at = user_created_at u\<rparr>"

section \<open>Accounts\<close>

text \<open>The reply carries the new user's id.\<close>

definition Register :: "UserServiceImpl \<Rightarrow> rpc_context \<Rightarrow> RegisterRequest \<Rightarrow> u64 reply io" where
  "Register s ctx q = (let rid = rg_request_id q in requireInternalRpc ctx rid 0
     (if rg_username q = [] then return (fillResponse rid EC_USERNAME_EMPTY [], 0)
      else if rg_password q = [] then return (fillResponse rid EC_PASSWORD_EMPTY [], 0)
      else if int (length (rg_password q)) < password_min_length s then return (fillResponse rid EC_PASSWORD_TOO_SHORT [], 0)
      else if length (rg_username q) > kMaxUsernameLength \<or> length (rg_password q) > kMaxPasswordLength
           \<or> length (rg_nickname q) > kMaxNicknameLength
      then return (fillResponse rid EC_INVALID_ARGUMENT ''registration field exceeds size limit'', 0)
      else do {
        known \<leftarrow> getUserByUsername (us_collation s) (rg_username q);
        if known \<noteq> None then return (fillResponse rid EC_USER_ALREADY_EXISTS [], 0)
        else do {
          hash \<leftarrow> hashPassword (us_crypto s) (rg_password q);
          if hash = [] then return (fillResponse rid EC_INTERNAL_ERROR [], 0)
          else do {
            now \<leftarrow> nowMs;
            r \<leftarrow> createUser (us_collation s) \<lparr>user_id = 0, username = rg_username q, password_hash = hash,
                   nickname = rg_nickname q, avatar = [], user_created_at = now, user_updated_at = now\<rparr>;
            case r of None \<Rightarrow> do {
                taken \<leftarrow> getUserByUsername (us_collation s) (rg_username q);
                return (fillResponse rid (if taken \<noteq> None then EC_USER_ALREADY_EXISTS else EC_DB_ERROR) [], 0) }
            | Some i \<Rightarrow> return (fillResponse rid EC_OK ''OK'', i) } } }))"

definition GetUserInfo :: "rpc_context \<Rightarrow> string \<Rightarrow> u64 \<Rightarrow> UserInfo option reply io" where
  "GetUserInfo ctx rid uid = requireInternalRpc ctx rid None
     (if uid = 0 then return (fillResponse rid EC_INVALID_ARGUMENT [], None)
      else do {
        u \<leftarrow> getUserById uid;
        case u of None \<Rightarrow> return (fillResponse rid EC_USER_NOT_FOUND [], None)
        | Some u \<Rightarrow> return (fillResponse rid EC_OK ''OK'', Some (fillUserInfo u)) })"

definition GetUserByUsername :: "UserServiceImpl \<Rightarrow> rpc_context \<Rightarrow> string \<Rightarrow> string \<Rightarrow> UserInfo option reply io" where
  "GetUserByUsername s ctx rid name = requireInternalRpc ctx rid None
     (if name = [] then return (fillResponse rid EC_USERNAME_EMPTY [], None)
      else if length name > kMaxUsernameLength
      then return (fillResponse rid EC_INVALID_ARGUMENT ''username exceeds size limit'', None)
      else do {
        u \<leftarrow> getUserByUsername (us_collation s) name;
        case u of None \<Rightarrow> return (fillResponse rid EC_USER_NOT_FOUND [], None)
        | Some u \<Rightarrow> return (fillResponse rid EC_OK ''OK'', Some (fillUserInfo u)) })"

section \<open>Tokens\<close>

definition token_of_hash :: "string \<Rightarrow> string" where
  "token_of_hash h = ''nebula:token:'' @ h"

text \<open>What a login does with the device it names: the token the device had before is deleted, and the
  device's row gets the new one. The result is \<open>False\<close> when the row could not be written.\<close>

definition login_device :: "UserServiceImpl \<Rightarrow> LoginRequest \<Rightarrow> User \<Rightarrow> string \<Rightarrow> bool io" where
  "login_device s q u token =
     (if lg_device_id q = [] then return True
      else do {
        now \<leftarrow> nowMs;
        let token_hash = tokenHash (us_crypto s) token;
        existing \<leftarrow> getDevice (us_collation s) (user_id u) (lg_device_id q);
        _ \<leftarrow> (case existing of None \<Rightarrow> return False
          | Some d \<Rightarrow> if d_token_hash d \<noteq> [] \<and> d_token_hash d \<noteq> token_hash
                      then redis_del (token_of_hash (d_token_hash d)) else return False);
        ok \<leftarrow> upsertDevice (us_collation s) \<lparr>d_user_id = user_id u, d_device_id = lg_device_id q, d_platform = lg_platform q,
                d_device_name = lg_device_name q, d_token_hash = token_hash, d_last_login_at = now, d_last_active_at = now,
                d_created_at = now, d_updated_at = now\<rparr>;
        if \<not> ok then do { _ \<leftarrow> redis_del (tokenKey (us_crypto s) token); return False }
        else return True })"

text \<open>The reply carries the user's id, the token and its expiry time.\<close>

definition Login :: "UserServiceImpl \<Rightarrow> rpc_context \<Rightarrow> LoginRequest \<Rightarrow> (u64 \<times> string \<times> int) reply io" where
  "Login s ctx q = (let rid = lg_request_id q in requireInternalRpc ctx rid (0, [], 0)
     (if lg_username q = [] then return (fillResponse rid EC_USERNAME_EMPTY [], 0, [], 0)
      else if lg_password q = [] then return (fillResponse rid EC_PASSWORD_EMPTY [], 0, [], 0)
      else if length (lg_username q) > kMaxUsernameLength \<or> length (lg_password q) > kMaxPasswordLength
           \<or> length (lg_device_id q) > kMaxDeviceIdLength \<or> length (lg_platform q) > kMaxPlatformLength
           \<or> length (lg_device_name q) > kMaxDeviceNameLength
      then return (fillResponse rid EC_INVALID_ARGUMENT ''login field exceeds size limit'', 0, [], 0)
      else do {
        r \<leftarrow> getUserByUsername (us_collation s) (lg_username q);
        case r of None \<Rightarrow> return (fillResponse rid EC_AUTH_FAILED ''auth failed'', 0, [], 0)
        | Some u \<Rightarrow>
            if \<not> verifyPassword (us_crypto s) (lg_password q) (password_hash u)
            then return (fillResponse rid EC_AUTH_FAILED ''auth failed'', 0, [], 0)
            else do {
              token \<leftarrow> generateToken (user_id u);
              if token = [] then return (fillResponse rid EC_INTERNAL_ERROR [], 0, [], 0)
              else do {
                ok \<leftarrow> redis_setEx (tokenKey (us_crypto s) token) (to_string (unat (user_id u)));
                if \<not> ok then return (fillResponse rid EC_REDIS_ERROR [], 0, [], 0)
                else do {
                  ok \<leftarrow> login_device s q u token;
                  if \<not> ok then return (fillResponse rid EC_DB_ERROR ''device metadata persist failed'', 0, [], 0)
                  else do {
                    expire \<leftarrow> expireAtMs (us_token_manager s);
                    return (fillResponse rid EC_OK ''OK'', user_id u, token, expire) } } } } }))"

text \<open>The reply carries whether the token is valid and its user.\<close>

definition ValidateToken :: "UserServiceImpl \<Rightarrow> rpc_context \<Rightarrow> string \<Rightarrow> string \<Rightarrow> (bool \<times> u64) reply io" where
  "ValidateToken s ctx rid token = requireInternalRpc ctx rid (False, 0)
     (if token = [] \<or> length token > kMaxTokenLength then return (fillResponse rid EC_TOKEN_INVALID [], False, 0)
      else do {
        v \<leftarrow> redis_get (tokenKey (us_crypto s) token);
        case v of None \<Rightarrow> return (fillResponse rid EC_OK ''OK'', False, 0)
        | Some v \<Rightarrow> (case stoull v of
              None \<Rightarrow> return (fillResponse rid EC_TOKEN_INVALID [], False, 0)
            | Some (i, _) \<Rightarrow> return (fillResponse rid EC_OK ''OK'', True, of_nat i)) })"

text \<open>What a refresh does with the device: the hash of the token the device had before, or \<open>None\<close> when the
  row could not be written.\<close>

definition refresh_device :: "UserServiceImpl \<Rightarrow> RefreshTokenRequest \<Rightarrow> u64 \<Rightarrow> string \<Rightarrow> string option io" where
  "refresh_device s q uid new_token =
     (if rt_device_id q = [] then return (Some [])
      else do {
        r \<leftarrow> getDevice (us_collation s) uid (rt_device_id q);
        case r of None \<Rightarrow> return (Some [])
        | Some d \<Rightarrow> do {
            now \<leftarrow> nowMs;
            ok \<leftarrow> upsertDevice (us_collation s) (d\<lparr>d_token_hash := tokenHash (us_crypto s) new_token, d_last_active_at := now,
                    d_updated_at := now\<rparr>);
            if \<not> ok then do { _ \<leftarrow> redis_del (tokenKey (us_crypto s) new_token); return None }
            else return (Some (d_token_hash d)) } })"

definition RefreshToken :: "UserServiceImpl \<Rightarrow> rpc_context \<Rightarrow> RefreshTokenRequest \<Rightarrow> (u64 \<times> string \<times> int) reply io" where
  "RefreshToken s ctx q = (let rid = rt_request_id q in requireInternalRpc ctx rid (0, [], 0)
     (if rt_token q = [] \<or> length (rt_token q) > kMaxTokenLength \<or> length (rt_device_id q) > kMaxDeviceIdLength
      then return (fillResponse rid EC_TOKEN_INVALID [], 0, [], 0)
      else do {
        v \<leftarrow> redis_get (tokenKey (us_crypto s) (rt_token q));
        case v of None \<Rightarrow> return (fillResponse rid EC_TOKEN_REFRESH_FAILED [], 0, [], 0)
        | Some v \<Rightarrow> (case stoull v of
              None \<Rightarrow> return (fillResponse rid EC_TOKEN_INVALID [], 0, [], 0)
            | Some (i, _) \<Rightarrow> do {
                let uid = of_nat i;
                new_token \<leftarrow> generateToken uid;
                ok \<leftarrow> (if new_token = [] then return False
                      else redis_setEx (tokenKey (us_crypto s) new_token) (to_string (unat uid)));
                if \<not> ok then return (fillResponse rid EC_TOKEN_REFRESH_FAILED [], 0, [], 0)
                else do {
                  previous \<leftarrow> refresh_device s q uid new_token;
                  case previous of None \<Rightarrow> return (fillResponse rid EC_TOKEN_REFRESH_FAILED [], 0, [], 0)
                  | Some h \<Rightarrow> do {
                      _ \<leftarrow> (if h \<noteq> [] \<and> h \<noteq> tokenHash (us_crypto s) new_token then redis_del (token_of_hash h) else return False);
                      _ \<leftarrow> redis_del (tokenKey (us_crypto s) (rt_token q));
                      expire \<leftarrow> expireAtMs (us_token_manager s);
                      return (fillResponse rid EC_OK ''OK'', uid, new_token, expire) } } }) }))"

end
