(* ===== verification/Device_Service.thy ===== *)
theory Device_Service
  imports User_Service Online_Status Service_Calm
begin

text \<open>
  \<^verbatim>\<open>device_service/src/DeviceServiceImpl\<close>: a user's devices, and revoking them. The checks for null
  dependencies have no counterpart; log lines and metrics are left out.

  A login returns a token only for the right password, and stores it for the device; a revoked or replaced
  token is not valid any more.
\<close>

section \<open>Operations\<close>

record DeviceInfo =
  di_user_id :: u64
  di_device_id :: string
  di_platform :: string
  di_device_name :: string
  di_last_login_at :: int
  di_last_active_at :: int
  di_online :: bool

definition fillDevice :: "UserDevice \<Rightarrow> bool \<Rightarrow> DeviceInfo" where
  "fillDevice d online = \<lparr>di_user_id = d_user_id d, di_device_id = d_device_id d, di_platform = d_platform d,
     di_device_name = d_device_name d, di_last_login_at = d_last_login_at d, di_last_active_at = d_last_active_at d,
     di_online = online\<rparr>"

text \<open>The gateway and connection of a device that is online.\<close>

definition isOnline :: "u64 \<Rightarrow> string \<Rightarrow> (string \<times> string) option io" where
  "isOnline u d =
     (if u = 0 \<or> d = [] then return None
      else do {
        gateway \<leftarrow> redis_get (onlineKey u d);
        conn \<leftarrow> redis_get (connKey u d);
        if gateway = None \<or> conn = None then do { _ \<leftarrow> forget_device u d; return None }
        else return (Some (the gateway, the conn)) })"

definition revokeDevice :: "(string \<Rightarrow> string) \<Rightarrow> u64 \<Rightarrow> string \<Rightarrow> string \<Rightarrow> bool io" where
  "revokeDevice coll u d token_hash = do {
     online \<leftarrow> isOnline u d;
     live_kick_ok \<leftarrow> (case online of None \<Rightarrow> return True
       | Some (gid, conn) \<Rightarrow> do {
           client \<leftarrow> getClient gid;
           if \<not> client then return False else kickConnection gid });
     _ \<leftarrow> (if token_hash \<noteq> [] then redis_del (token_of_hash token_hash) else return False);
     _ \<leftarrow> forget_device u d;
     now \<leftarrow> nowMs;
     device_ok \<leftarrow> clearDeviceToken coll u d now;
     return (device_ok \<and> live_kick_ok) }"

primrec device_infos :: "UserDevice list \<Rightarrow> DeviceInfo list io" where
  "device_infos [] = return []"
| "device_infos (d # ds) = do {
     online \<leftarrow> isOnline (d_user_id d) (d_device_id d);
     rest \<leftarrow> device_infos ds;
     return (fillDevice d (online \<noteq> None) # rest) }"

definition ListDevices :: "rpc_context \<Rightarrow> string \<Rightarrow> u64 \<Rightarrow> DeviceInfo list reply io" where
  "ListDevices ctx rid uid = requireInternalRpc ctx rid []
     (if uid = 0 then return (fillResponse rid EC_INVALID_ARGUMENT [], [])
      else do {
        u \<leftarrow> getUserById uid;
        if u = None then return (fillResponse rid EC_USER_NOT_FOUND [], [])
        else do {
          ds \<leftarrow> listDevices uid;
          infos \<leftarrow> device_infos ds;
          return (fillResponse rid EC_OK ''OK'', infos) } })"

definition KickDevice :: "(string \<Rightarrow> string) \<Rightarrow> rpc_context \<Rightarrow> string \<Rightarrow> u64 \<Rightarrow> string \<Rightarrow> unit reply io" where
  "KickDevice coll ctx rid uid did = requireInternalRpc ctx rid ()
     (if uid = 0 \<or> did = [] then return (fillResponse rid EC_INVALID_ARGUMENT [], ())
      else do {
        u \<leftarrow> getUserById uid;
        if u = None then return (fillResponse rid EC_USER_NOT_FOUND [], ())
        else do {
          d \<leftarrow> getDevice coll uid did;
          case d of None \<Rightarrow> return (fillResponse rid EC_DEVICE_NOT_FOUND [], ())
          | Some d \<Rightarrow> do {
              ok \<leftarrow> revokeDevice coll uid did (d_token_hash d);
              if \<not> ok then return (fillResponse rid EC_SERVICE_UNAVAILABLE ''device connection revoke failed'', ())
              else return (fillResponse rid EC_OK ''OK'', ()) } } })"

primrec revoke_all :: "(string \<Rightarrow> string) \<Rightarrow> u64 \<Rightarrow> UserDevice list \<Rightarrow> bool \<Rightarrow> bool io" where
  "revoke_all coll uid [] ok = return ok"
| "revoke_all coll uid (d # ds) ok = do {
     r \<leftarrow> revokeDevice coll uid (d_device_id d) (d_token_hash d);
     revoke_all coll uid ds (r \<and> ok) }"

definition KickAllDevices :: "(string \<Rightarrow> string) \<Rightarrow> rpc_context \<Rightarrow> string \<Rightarrow> u64 \<Rightarrow> unit reply io" where
  "KickAllDevices coll ctx rid uid = requireInternalRpc ctx rid ()
     (if uid = 0 then return (fillResponse rid EC_INVALID_ARGUMENT [], ())
      else do {
        u \<leftarrow> getUserById uid;
        if u = None then return (fillResponse rid EC_USER_NOT_FOUND [], ())
        else do {
          ds \<leftarrow> listDevices uid;
          ok \<leftarrow> revoke_all coll uid ds True;
          if \<not> ok then return (fillResponse rid EC_SERVICE_UNAVAILABLE ''one or more device connections failed to revoke'', ())
          else return (fillResponse rid EC_OK ''OK'', ()) } })"

section \<open>Logins\<close>

lemma wp_redis_del:
  "\<lbrakk>\<And>r s. Q r (w\<lparr>script := s\<rparr>); \<And>r s. Q r (w\<lparr>script := s, redis := (redis w)\<lparr>kv := (kv (redis w))(k := None),
      smembers_of := (smembers_of (redis w))(k := [])\<rparr>\<rparr>)\<rbrakk> \<Longrightarrow> wp (redis_del k) Q w"
  unfolding redis_del_def by (rule wp_redis_write) auto

lemma wp_getUserByUsername:
  assumes "\<And>r w'. undisturbed w w' \<Longrightarrow> (\<And>u. r = Some u \<Longrightarrow> u \<in> set (users (db w)) \<and> coll (username u) = coll name) \<Longrightarrow> Q r w'"
  shows "wp (getUserByUsername coll name) Q w"
  unfolding getUserByUsername_def
  by (intro wp_pooled_query assms) (auto dest: select_one_Some [OF sym])

lemma wp_getDevice:
  assumes "\<And>r w'. undisturbed w w' \<Longrightarrow> Q r w'"
  shows "wp (getDevice coll u d) Q w"
  unfolding getDevice_def
  by (intro wp_if wp_return wp_pooled_query assms) auto

lemma wp_randomHex: "(\<And>t s c. Q t (w\<lparr>script := s, random := c\<rparr>)) \<Longrightarrow> wp (randomHex n) Q w"
  unfolding randomHex_def random_bytes_def
  by (intro wp_bind wp_pop_outcome wp_random_token wp_return) auto

definition has_device :: "(string \<Rightarrow> string) \<Rightarrow> u64 \<Rightarrow> string \<Rightarrow> string \<Rightarrow> tables \<Rightarrow> bool" where
  "has_device coll u d h t \<longleftrightarrow> list_ex (\<lambda>r. same_device coll u d r \<and> d_token_hash r = h) (user_devices t)"

lemma list_ex_updated:
  "list_ex P rs \<Longrightarrow> (\<And>r. P r \<Longrightarrow> R (f r)) \<Longrightarrow> list_ex R (update_where P f rs)"
  by (induction rs) auto

lemma has_device_upsert:
  "d_user_id d = u \<Longrightarrow> d_device_id d = i \<Longrightarrow> d_token_hash d = h \<Longrightarrow> has_device coll u i h (sql_upsertDevice coll d t)"
  by (auto simp: has_device_def sql_upsertDevice_def upsert_def intro: list_ex_updated) (auto simp: same_device_def intro: list_ex_updated)

lemma wp_upsertDevice:
  assumes "\<And>r w'. redis w' = redis w \<Longrightarrow> (r \<Longrightarrow> has_device coll (d_user_id d) (d_device_id d) (d_token_hash d) (db w')) \<Longrightarrow> Q r w'"
  shows "wp (upsertDevice coll d) Q w"
  unfolding upsertDevice_def
  by (intro wp_if wp_return wp_pooled wp_bind wp_nowMs wp_Let wp_execute assms) (auto intro!: has_device_upsert)

lemma wp_login_device:
  assumes "kv (redis w) (tokenKey (us_crypto s) tok) = v"
    and "\<And>r w'. (r \<Longrightarrow> kv (redis w') (tokenKey (us_crypto s) tok) = v \<and>
        (lg_device_id q = [] \<or> has_device (us_collation s) (user_id u) (lg_device_id q) (tokenHash (us_crypto s) tok) (db w'))) \<Longrightarrow> Q r w'"
  shows "wp (login_device s q u tok) Q w"
proof -
  have k: "tokenKey (us_crypto s) tok \<noteq> token_of_hash h" if "h \<noteq> tokenHash (us_crypto s) tok" for h
    using that by (simp add: tokenKey_def token_of_hash_def tokenHash_def)
  show ?thesis
    unfolding login_device_def
    by (intro wp_if wp_return wp_bind wp_nowMs wp_Let wp_getDevice wp_case_option wp_redis_del wp_upsertDevice assms(2))
       (use assms(1) k in \<open>auto simp: undisturbed_def\<close>)
qed

definition logged_in :: "UserServiceImpl \<Rightarrow> LoginRequest \<Rightarrow> tables \<Rightarrow> u64 \<Rightarrow> string \<Rightarrow> world \<Rightarrow> bool" where
  "logged_in s q t u tok w' \<longleftrightarrow> (\<exists>r \<in> set (users t). us_collation s (username r) = us_collation s (lg_username q)
     \<and> verifyPassword (us_crypto s) (lg_password q) (password_hash r) \<and> user_id r = u)
     \<and> kv (redis w') (tokenKey (us_crypto s) tok) = Some (to_string (unat u))
     \<and> (lg_device_id q = [] \<or> has_device (us_collation s) u (lg_device_id q) (tokenHash (us_crypto s) tok) (db w'))"

lemma logged_inI:
  "r \<in> set (users t) \<Longrightarrow> us_collation s (username r) = us_collation s (lg_username q) \<Longrightarrow>
   verifyPassword (us_crypto s) (lg_password q) (password_hash r) \<Longrightarrow>
   kv (redis w') (tokenKey (us_crypto s) tok) = Some (to_string (unat (user_id r))) \<Longrightarrow>
   lg_device_id q = [] \<or> has_device (us_collation s) (user_id r) (lg_device_id q) (tokenHash (us_crypto s) tok) (db w') \<Longrightarrow>
   logged_in s q t (user_id r) tok w'"
  unfolding logged_in_def by blast

lemma wp_Login:
  "wp (Login s ctx q) (\<lambda>r w'. case r of (c, u, tok, e) \<Rightarrow>
      if is_ok c then tok \<noteq> [] \<and> logged_in s q (db w) u tok w' else u = 0 \<and> tok = []) w"
  unfolding Login_def requireInternalRpc_def Let_def generateToken_def redis_setEx_def expireAtMs_def
  by (intro wp_if wp_return wp_bind wp_getUserByUsername wp_case_option wp_randomHex wp_redis_write
        wp_login_device [where v = "Some (to_string (unat (user_id u)))" for u] wp_nowMs)
     (auto simp: undisturbed_def intro: logged_inI)

end
