(* ===== verification/Gateway_Router.thy ===== *)
theory Gateway_Router
  imports Packet_Protocol WebSocket_Frame Rate_Limit Connection_Manager Device_Service
begin

text \<open>
  \<^verbatim>\<open>common/gateway/GatewayRouter\<close> with \<^verbatim>\<open>common/gateway/GatewayPacketHelper\<close>, \<^verbatim>\<open>common/async/RpcExecutor\<close> and the
  queue of \<^verbatim>\<open>common/thread/ThreadPool\<close>: what a packet of a client leads to. A request that needs a backend is
  queued for a thread of the executor, which calls the service and, for a login, the online keys in Redis; its
  result is queued for the connection's event loop, where the callback runs. Between these points connections
  come and go. The backends are the handlers of the service theories, run on the world; the coding of protocol
  buffers, the peer's address and the text of a failed call are arguments. Log lines, metrics, trace spans and
  the checks for null dependencies have no counterpart.
\<close>

section \<open>Requests and results\<close>

record ResumeSessionRequest =
  rs_request_id :: string
  rs_token :: string
  rs_device_id :: string
  rs_platform :: string
  rs_device_name :: string

record AckMessageRequest =
  ak_request_id :: string
  ak_user_id :: u64
  ak_message_id :: u64

record PullOfflineMessagesRequest =
  pl_request_id :: string
  pl_user_id :: u64
  pl_page_size :: nat

datatype rpc_request =
    Rpc_register RegisterRequest
  | Rpc_login LoginRequest
  | Rpc_resume ResumeSessionRequest
  | Rpc_single SendRequest
  | Rpc_group SendRequest
  | Rpc_ack AckMessageRequest
  | Rpc_pull PullOfflineMessagesRequest

primrec rpc_request_id :: "rpc_request \<Rightarrow> string" where
  "rpc_request_id (Rpc_register q) = rg_request_id q"
| "rpc_request_id (Rpc_login q) = lg_request_id q"
| "rpc_request_id (Rpc_resume q) = rs_request_id q"
| "rpc_request_id (Rpc_single q) = sr_request_id q"
| "rpc_request_id (Rpc_group q) = sr_request_id q"
| "rpc_request_id (Rpc_ack q) = ak_request_id q"
| "rpc_request_id (Rpc_pull q) = pl_request_id q"

text \<open>The messages that are sent to clients.\<close>

datatype client_message =
    Msg_common CommonResponse
  | Msg_register CommonResponse u64
  | Msg_login CommonResponse u64 string int
  | Msg_resume CommonResponse u64
  | Msg_sent CommonResponse u64 int
  | Msg_pulled CommonResponse "MessageData list"
  | Msg_push MessageData

definition empty_response :: CommonResponse where
  "empty_response = \<lparr>rsp_code = 0, rsp_message = [], rsp_request_id = []\<rparr>"

record LoginResult =
  lr_response :: CommonResponse
  lr_user_id :: u64
  lr_token :: string
  lr_expire_at :: int
  lr_rpc_ok :: bool
  lr_online_ok :: bool

definition empty_LoginResult :: LoginResult where
  "empty_LoginResult = \<lparr>lr_response = empty_response, lr_user_id = 0, lr_token = [], lr_expire_at = 0,
     lr_rpc_ok = True, lr_online_ok = True\<rparr>"

record ResumeResult =
  rr_response :: CommonResponse
  rr_user_id :: u64
  rr_rpc_ok :: bool
  rr_online_ok :: bool

definition empty_ResumeResult :: ResumeResult where
  "empty_ResumeResult = \<lparr>rr_response = empty_response, rr_user_id = 0, rr_rpc_ok = True, rr_online_ok = False\<rparr>"

datatype rpc_result = Res_login LoginResult | Res_resume ResumeResult | Res_plain MessageType client_message

text \<open>The value-initialised result that goes with an error of the executor.\<close>

primrec empty_result :: "rpc_request \<Rightarrow> rpc_result" where
  "empty_result (Rpc_register q) = Res_plain REGISTER_RESP (Msg_register empty_response 0)"
| "empty_result (Rpc_login q) = Res_login empty_LoginResult"
| "empty_result (Rpc_resume q) = Res_resume empty_ResumeResult"
| "empty_result (Rpc_single q) = Res_plain SEND_SINGLE_MSG_RESP (Msg_sent empty_response 0 0)"
| "empty_result (Rpc_group q) = Res_plain SEND_GROUP_MSG_RESP (Msg_sent empty_response 0 0)"
| "empty_result (Rpc_ack q) = Res_plain ACK_RESP (Msg_common empty_response)"
| "empty_result (Rpc_pull q) = Res_plain PULL_OFFLINE_MSG_RESP (Msg_pulled empty_response [])"

section \<open>State\<close>

text \<open>What the gateway is given: the coding of messages, the digest of the WebSocket handshake, the peer of a connection, the capacity of the executor's
  queue, the two services and the context of a call with a request id.\<close>

record gateway_env =
  serialize :: "client_message \<Rightarrow> bytes"
  parseRegister :: "bytes \<Rightarrow> RegisterRequest option"
  parseLogin :: "bytes \<Rightarrow> LoginRequest option"
  parseResume :: "bytes \<Rightarrow> bool \<times> ResumeSessionRequest"
  parseSingle :: "bytes \<Rightarrow> SendRequest option"
  parseGroup :: "bytes \<Rightarrow> SendRequest option"
  parseAck :: "bytes \<Rightarrow> AckMessageRequest option"
  parsePull :: "bytes \<Rightarrow> PullOfflineMessagesRequest option"
  accept_digest :: "string \<Rightarrow> string"
  peer_ip :: "handle \<Rightarrow> string"
  max_queue_size :: nat
  user_service :: UserServiceImpl
  message_options :: MessageServiceOptions
  message_codec :: payload_codec
  call_context :: "string \<Rightarrow> rpc_context"

datatype online_task = Refresh_online u64 string string | Set_offline u64 string string

record rpc_task =
  task_connection :: string
  task_sequence :: "32 word"
  task_request :: rpc_request

record gateway =
  gw_conns :: ConnectionManager
  gw_breakers :: breakers
  gw_limiter :: RateLimiter
  gw_connected :: "handle list"
  gw_closing :: "handle list"
  gw_ids :: "(handle \<times> string) list"
  gw_websocket :: "(handle \<times> bool) list"
  gw_input :: "handle \<Rightarrow> Buffer"
  gw_packet_limiter :: RateLimiter
  gw_sent :: "(handle \<times> bytes) list"
  gw_tasks :: "rpc_task list"
  gw_done :: "(rpc_task \<times> rpc_result \<times> bool) list"
  gw_online :: "online_task list"
  gw_aborted :: bool
  gw_world :: world

text \<open>The clocks as one packet or callback sees them: milliseconds, and the readings of a rate limiter.\<close>

record readings =
  at_ms :: int
  at_ns :: "int \<times> int \<times> int"

section \<open>Sending\<close>

definition conn_send :: "handle \<Rightarrow> bytes \<Rightarrow> gateway \<Rightarrow> gateway" where
  "conn_send h bs g = (if h \<in> set (gw_connected g) then g\<lparr>gw_sent := gw_sent g @ [(h, bs)]\<rparr> else g)"

definition forceClose :: "handle \<Rightarrow> gateway \<Rightarrow> gateway" where
  "forceClose h g = (if h \<in> set (gw_connected g)
     then g\<lparr>gw_connected := removeAll h (gw_connected g), gw_closing := gw_closing g @ [h]\<rparr> else g)"

text \<open>The packet sender that the server installs. An exception of the codec is not caught by anyone.\<close>

definition sendPacket :: "handle \<Rightarrow> Packet \<Rightarrow> gateway \<Rightarrow> gateway" where
  "sendPacket h p g = (case encode p of
       Inl _ \<Rightarrow> g\<lparr>gw_aborted := True\<rparr>
     | Inr bs \<Rightarrow> conn_send h (if map_of (gw_websocket g) h = Some True then encodeBinary bs else bs) g)"

definition makeResponse :: "gateway_env \<Rightarrow> MessageType \<Rightarrow> 32 word \<Rightarrow> client_message \<Rightarrow> Packet" where
  "makeResponse e t seq m = \<lparr>packet_type = t, sequence_id = seq, body = serialize e m\<rparr>"

definition makeErrorResponse :: "gateway_env \<Rightarrow> 32 word \<Rightarrow> ErrorCode \<Rightarrow> string \<Rightarrow> string \<Rightarrow> Packet" where
  "makeErrorResponse e seq code msg rid =
     makeResponse e ERROR_RESP seq (Msg_common \<lparr>rsp_code = code, rsp_message = msg, rsp_request_id = rid\<rparr>)"

definition makePushMessage :: "gateway_env \<Rightarrow> 32 word \<Rightarrow> MessageData \<Rightarrow> Packet" where
  "makePushMessage e seq d = makeResponse e PUSH_MSG seq (Msg_push d)"

definition sendError :: "gateway_env \<Rightarrow> handle \<Rightarrow> 32 word \<Rightarrow> ErrorCode \<Rightarrow> string \<Rightarrow> string \<Rightarrow> gateway \<Rightarrow> gateway" where
  "sendError e h seq code msg rid = sendPacket h (makeErrorResponse e seq code msg rid)"

text \<open>\<^verbatim>\<open>GatewayOnlineManager\<close> hands its asynchronous updates to one thread with a bounded queue.\<close>

definition submitOnlineTask :: "online_task \<Rightarrow> gateway \<Rightarrow> gateway" where
  "submitOnlineTask x g = (if length (gw_online g) \<ge> 10000 then g else g\<lparr>gw_online := gw_online g @ [x]\<rparr>)"

definition refreshOnlineAsync :: "u64 \<Rightarrow> string \<Rightarrow> string \<Rightarrow> gateway \<Rightarrow> gateway" where
  "refreshOnlineAsync u d cid = submitOnlineTask (Refresh_online u d cid)"

definition setOfflineAsync :: "u64 \<Rightarrow> string \<Rightarrow> string \<Rightarrow> gateway \<Rightarrow> gateway" where
  "setOfflineAsync u d cid = submitOnlineTask (Set_offline u d cid)"

section \<open>Packets\<close>

definition requireAuth :: "gateway_env \<Rightarrow> handle \<Rightarrow> string \<Rightarrow> 32 word \<Rightarrow> (ConnectionContext \<Rightarrow> gateway \<Rightarrow> gateway) \<Rightarrow> gateway \<Rightarrow> gateway" where
  "requireAuth e h cid seq k g = (case getContext cid (gw_conns g) of
       None \<Rightarrow> sendError e h seq EC_GATEWAY_NOT_AUTHENTICATED ''not authenticated'' [] g
     | Some ctx \<Rightarrow> if \<not> authenticated ctx then sendError e h seq EC_GATEWAY_NOT_AUTHENTICATED ''not authenticated'' [] g
         else k ctx g)"

text \<open>Asking the rate limiter and a circuit breaker, with the error reply if they refuse.\<close>

definition limit_rate :: "(RateLimiter \<Rightarrow> bool \<times> RateLimiter) \<Rightarrow> (gateway \<Rightarrow> gateway) \<Rightarrow> (gateway \<Rightarrow> gateway) \<Rightarrow> gateway \<Rightarrow> gateway" where
  "limit_rate ask refused k g = (case ask (gw_limiter g) of (ok, l) \<Rightarrow> (if ok then k else refused) (g\<lparr>gw_limiter := l\<rparr>))"

definition ask_breaker :: "string \<Rightarrow> int \<Rightarrow> (gateway \<Rightarrow> gateway) \<Rightarrow> (gateway \<Rightarrow> gateway) \<Rightarrow> gateway \<Rightarrow> gateway" where
  "ask_breaker name now refused k g = (case manager_allowRequest name now (gw_breakers g) of
     (ok, b) \<Rightarrow> (if ok then k else refused) (g\<lparr>gw_breakers := b\<rparr>))"

text \<open>\<^verbatim>\<open>RpcExecutor::submit\<close>: a full queue becomes a callback with an error.\<close>

definition submit :: "gateway_env \<Rightarrow> string \<Rightarrow> 32 word \<Rightarrow> rpc_request \<Rightarrow> gateway \<Rightarrow> gateway" where
  "submit e cid seq q g =
     (let task = \<lparr>task_connection = cid, task_sequence = seq, task_request = q\<rparr> in
      if max_queue_size e > 0 \<and> length (gw_tasks g) \<ge> max_queue_size e
      then g\<lparr>gw_done := gw_done g @ [(task, empty_result q, True)]\<rparr>
      else g\<lparr>gw_tasks := gw_tasks g @ [task]\<rparr>)"

definition handleRegister :: "gateway_env \<Rightarrow> readings \<Rightarrow> handle \<Rightarrow> string \<Rightarrow> Packet \<Rightarrow> gateway \<Rightarrow> gateway" where
  "handleRegister e t h cid p = (let seq = sequence_id p in
     case parseRegister e (body p) of
       None \<Rightarrow> sendError e h seq EC_GATEWAY_INVALID_PACKET ''bad register body'' []
     | Some req \<Rightarrow>
         limit_rate (allowLogin (peer_ip e h) (at_ns t)) (sendError e h seq EC_RATE_LIMITED ''register rate limited'' (rg_request_id req))
          (ask_breaker ''user_service'' (at_ms t) (sendError e h seq EC_CIRCUIT_OPEN ''user service circuit open'' (rg_request_id req))
            (submit e cid seq (Rpc_register req))))"

definition handleLogin :: "gateway_env \<Rightarrow> readings \<Rightarrow> handle \<Rightarrow> string \<Rightarrow> Packet \<Rightarrow> gateway \<Rightarrow> gateway" where
  "handleLogin e t h cid p = (let seq = sequence_id p in
     case parseLogin e (body p) of
       None \<Rightarrow> sendError e h seq EC_GATEWAY_INVALID_PACKET ''bad login body'' []
     | Some req \<Rightarrow>
         limit_rate (allowLogin (peer_ip e h) (at_ns t)) (sendError e h seq EC_RATE_LIMITED ''login rate limited'' (lg_request_id req))
          (ask_breaker ''user_service'' (at_ms t) (sendError e h seq EC_CIRCUIT_OPEN ''user service circuit open'' (lg_request_id req))
            (submit e cid seq (Rpc_login req))))"

definition handleResumeSession :: "gateway_env \<Rightarrow> readings \<Rightarrow> handle \<Rightarrow> string \<Rightarrow> Packet \<Rightarrow> gateway \<Rightarrow> gateway" where
  "handleResumeSession e t h cid p = (let seq = sequence_id p; (parsed, req) = parseResume e (body p) in
     if \<not> parsed \<or> rs_token req = [] \<or> rs_device_id req = []
     then sendError e h seq EC_GATEWAY_INVALID_PACKET ''invalid resume session request'' (rs_request_id req)
     else limit_rate (allowLogin (peer_ip e h) (at_ns t)) (sendError e h seq EC_RATE_LIMITED ''session resume rate limited'' (rs_request_id req))
          (ask_breaker ''user_service'' (at_ms t) (sendError e h seq EC_SERVICE_UNAVAILABLE ''user service unavailable'' (rs_request_id req))
            (submit e cid seq (Rpc_resume req))))"

definition handleHeartbeat :: "gateway_env \<Rightarrow> handle \<Rightarrow> string \<Rightarrow> Packet \<Rightarrow> gateway \<Rightarrow> gateway" where
  "handleHeartbeat e h cid p g =
     (let g1 = (case getContext cid (gw_conns g) of None \<Rightarrow> g
            | Some ctx \<Rightarrow> if authenticated ctx then refreshOnlineAsync (ctx_user_id ctx) (device_id ctx) cid g else g)
      in sendPacket h (makeResponse e HEARTBEAT_RESP (sequence_id p) (Msg_common \<lparr>rsp_code = 0, rsp_message = ''OK'', rsp_request_id = []\<rparr>)) g1)"

definition handleSendSingleMessage :: "gateway_env \<Rightarrow> readings \<Rightarrow> handle \<Rightarrow> string \<Rightarrow> Packet \<Rightarrow> gateway \<Rightarrow> gateway" where
  "handleSendSingleMessage e t h cid p = (let seq = sequence_id p in
     requireAuth e h cid seq (\<lambda>auth. case parseSingle e (body p) of
         None \<Rightarrow> sendError e h seq EC_GATEWAY_INVALID_PACKET ''bad single body'' []
       | Some req0 \<Rightarrow>
           let req = (if sr_from_user_id req0 = 0 then req0\<lparr>sr_from_user_id := ctx_user_id auth\<rparr> else req0) in
           if sr_from_user_id req \<noteq> ctx_user_id auth
           then sendError e h seq EC_GATEWAY_PERMISSION_DENIED ''permission denied'' (sr_request_id req)
           else limit_rate (allowMessage (ctx_user_id auth) (at_ns t)) (sendError e h seq EC_RATE_LIMITED ''message rate limited'' (sr_request_id req))
                 (ask_breaker ''message_service'' (at_ms t)
                   (sendError e h seq EC_CIRCUIT_OPEN ''message service circuit open'' (sr_request_id req))
                   (submit e cid seq (Rpc_single req)))))"

definition handleSendGroupMessage :: "gateway_env \<Rightarrow> readings \<Rightarrow> handle \<Rightarrow> string \<Rightarrow> Packet \<Rightarrow> gateway \<Rightarrow> gateway" where
  "handleSendGroupMessage e t h cid p = (let seq = sequence_id p in
     requireAuth e h cid seq (\<lambda>auth. case parseGroup e (body p) of
         None \<Rightarrow> sendError e h seq EC_GATEWAY_INVALID_PACKET ''bad group body'' []
       | Some req0 \<Rightarrow>
           let req = (if sr_from_user_id req0 = 0 then req0\<lparr>sr_from_user_id := ctx_user_id auth\<rparr> else req0) in
           if sr_from_user_id req \<noteq> ctx_user_id auth
           then sendError e h seq EC_GATEWAY_PERMISSION_DENIED ''permission denied'' (sr_request_id req)
           else limit_rate (allowMessage (ctx_user_id auth) (at_ns t)) (sendError e h seq EC_RATE_LIMITED ''message rate limited'' (sr_request_id req))
                 (ask_breaker ''message_service'' (at_ms t)
                   (sendError e h seq EC_CIRCUIT_OPEN ''message service circuit open'' (sr_request_id req))
                   (submit e cid seq (Rpc_group req)))))"

definition handleAck :: "gateway_env \<Rightarrow> readings \<Rightarrow> handle \<Rightarrow> string \<Rightarrow> Packet \<Rightarrow> gateway \<Rightarrow> gateway" where
  "handleAck e t h cid p = (let seq = sequence_id p in
     requireAuth e h cid seq (\<lambda>auth. case parseAck e (body p) of
         None \<Rightarrow> sendError e h seq EC_GATEWAY_INVALID_PACKET ''bad ack body'' []
       | Some req0 \<Rightarrow>
           let req = (if ak_user_id req0 = 0 then req0\<lparr>ak_user_id := ctx_user_id auth\<rparr> else req0) in
           if ak_user_id req \<noteq> ctx_user_id auth
           then sendError e h seq EC_GATEWAY_PERMISSION_DENIED ''permission denied'' (ak_request_id req)
           else ask_breaker ''message_service'' (at_ms t)
                  (sendError e h seq EC_CIRCUIT_OPEN ''message service circuit open'' (ak_request_id req))
                  (submit e cid seq (Rpc_ack req))))"

definition handlePullOfflineMessages :: "gateway_env \<Rightarrow> readings \<Rightarrow> handle \<Rightarrow> string \<Rightarrow> Packet \<Rightarrow> gateway \<Rightarrow> gateway" where
  "handlePullOfflineMessages e t h cid p = (let seq = sequence_id p in
     requireAuth e h cid seq (\<lambda>auth. case parsePull e (body p) of
         None \<Rightarrow> sendError e h seq EC_GATEWAY_INVALID_PACKET ''bad pull body'' []
       | Some req0 \<Rightarrow>
           let req = (if pl_user_id req0 = 0 then req0\<lparr>pl_user_id := ctx_user_id auth\<rparr> else req0) in
           if pl_user_id req \<noteq> ctx_user_id auth
           then sendError e h seq EC_GATEWAY_PERMISSION_DENIED ''permission denied'' (pl_request_id req)
           else ask_breaker ''message_service'' (at_ms t)
                  (sendError e h seq EC_CIRCUIT_OPEN ''message service circuit open'' (pl_request_id req))
                  (submit e cid seq (Rpc_pull req))))"

definition handlePacket :: "gateway_env \<Rightarrow> readings \<Rightarrow> handle \<Rightarrow> string \<Rightarrow> Packet \<Rightarrow> gateway \<Rightarrow> gateway" where
  "handlePacket e t h cid p g =
     (let g1 = g\<lparr>gw_conns := snd (updateActiveTime cid (at_ms t) (gw_conns g))\<rparr> in
      case packet_type p of
        REGISTER_REQ \<Rightarrow> handleRegister e t h cid p g1
      | LOGIN_REQ \<Rightarrow> handleLogin e t h cid p g1
      | RESUME_SESSION_REQ \<Rightarrow> handleResumeSession e t h cid p g1
      | HEARTBEAT_REQ \<Rightarrow> handleHeartbeat e h cid p g1
      | SEND_SINGLE_MSG_REQ \<Rightarrow> handleSendSingleMessage e t h cid p g1
      | SEND_GROUP_MSG_REQ \<Rightarrow> handleSendGroupMessage e t h cid p g1
      | ACK_REQ \<Rightarrow> handleAck e t h cid p g1
      | PULL_OFFLINE_MSG_REQ \<Rightarrow> handlePullOfflineMessages e t h cid p g1
      | _ \<Rightarrow> sendError e h (sequence_id p) EC_GATEWAY_INVALID_PACKET ''unsupported packet'' [] g1)"

section \<open>Tasks of the executor\<close>

text \<open>One call of a backend: it may fail before or after the handler ran.\<close>

definition backend_call :: "'a io \<Rightarrow> 'a option io" where
  "backend_call m = do {
     x \<leftarrow> pop_outcome;
     if x = Fails then return None
     else do { r \<leftarrow> m; return (if x = Succeeds then Some r else None) } }"

definition rpc_failed :: "string \<Rightarrow> string \<Rightarrow> CommonResponse" where
  "rpc_failed err rid = \<lparr>rsp_code = EC_GATEWAY_BACKEND_RPC_FAILED, rsp_message = err, rsp_request_id = rid\<rparr>"

definition login_device_id :: "string \<Rightarrow> LoginRequest \<Rightarrow> string" where
  "login_device_id cid q = (if lg_device_id q = [] then cid else lg_device_id q)"

definition run_login :: "gateway_env \<Rightarrow> string \<Rightarrow> string \<Rightarrow> string \<Rightarrow> LoginRequest \<Rightarrow> (bool \<times> LoginResult) io" where
  "run_login e gid err cid q = do {
     r \<leftarrow> backend_call (Login (user_service e) (call_context e (lg_request_id q)) q);
     case r of
       None \<Rightarrow> return (False, empty_LoginResult\<lparr>lr_rpc_ok := False, lr_response := rpc_failed err (lg_request_id q)\<rparr>)
     | Some (resp, u, tok, expire) \<Rightarrow> do {
         let result = empty_LoginResult\<lparr>lr_response := resp, lr_user_id := u, lr_token := tok, lr_expire_at := expire\<rparr>;
         if rsp_code resp \<noteq> 0 then return (True, result)
         else do {
           ok \<leftarrow> gateway_setOnline gid u (login_device_id cid q) cid;
           return (True, if ok then result
             else result\<lparr>lr_online_ok := False, lr_response := resp\<lparr>rsp_code := EC_GATEWAY_ONLINE_STATE_FAILED,
                          rsp_message := ''online state failed''\<rparr>\<rparr>) } } }"

definition run_resume :: "gateway_env \<Rightarrow> string \<Rightarrow> string \<Rightarrow> string \<Rightarrow> ResumeSessionRequest \<Rightarrow> (bool \<times> ResumeResult) io" where
  "run_resume e gid err cid q = do {
     r \<leftarrow> backend_call (ValidateToken (user_service e) (call_context e (rs_request_id q)) (rs_request_id q) (rs_token q));
     case r of
       None \<Rightarrow> return (False, empty_ResumeResult\<lparr>rr_rpc_ok := False, rr_response := rpc_failed err (rs_request_id q)\<rparr>)
     | Some (resp, valid, u) \<Rightarrow>
         if rsp_code resp \<noteq> 0 \<or> \<not> valid \<or> u = 0
         then return (True, empty_ResumeResult\<lparr>rr_response := resp\<lparr>rsp_request_id := rs_request_id q\<rparr>\<rparr>)
         else do {
           ok \<leftarrow> gateway_setOnline gid u (rs_device_id q) cid;
           return (True, empty_ResumeResult\<lparr>rr_user_id := u, rr_online_ok := ok, rr_response :=
             \<lparr>rsp_code = (if ok then EC_OK else EC_GATEWAY_ONLINE_STATE_FAILED),
              rsp_message = (if ok then ''OK'' else ''online state failed''), rsp_request_id = rs_request_id q\<rparr>\<rparr>) } }"

text \<open>The other requests: the reply, or the error in a default one.\<close>

definition run_plain :: "string \<Rightarrow> string \<Rightarrow> (CommonResponse \<Rightarrow> 'a \<Rightarrow> client_message) \<Rightarrow> 'a \<Rightarrow> 'a reply io \<Rightarrow> (bool \<times> client_message) io" where
  "run_plain err rid msg none m = do {
     r \<leftarrow> backend_call m;
     return (case r of None \<Rightarrow> (False, msg (rpc_failed err rid) none) | Some (resp, x) \<Rightarrow> (True, msg resp x)) }"

primrec run_request :: "gateway_env \<Rightarrow> string \<Rightarrow> string \<Rightarrow> string \<Rightarrow> rpc_request \<Rightarrow> (bool \<times> rpc_result) io" where
  "run_request e gid err cid (Rpc_register q) = do {
     (ok, m) \<leftarrow> run_plain err (rg_request_id q) Msg_register 0 (Register (user_service e) (call_context e (rg_request_id q)) q);
     return (ok, Res_plain REGISTER_RESP m) }"
| "run_request e gid err cid (Rpc_login q) = do { (ok, r) \<leftarrow> run_login e gid err cid q; return (ok, Res_login r) }"
| "run_request e gid err cid (Rpc_resume q) = do { (ok, r) \<leftarrow> run_resume e gid err cid q; return (ok, Res_resume r) }"
| "run_request e gid err cid (Rpc_single q) = do {
     (ok, m) \<leftarrow> run_plain err (sr_request_id q) (\<lambda>r (mid, now). Msg_sent r mid now) (0, 0)
       (SendSingleMessage (message_options e) (message_codec e) (call_context e (sr_request_id q)) q);
     return (ok, Res_plain SEND_SINGLE_MSG_RESP m) }"
| "run_request e gid err cid (Rpc_group q) = do {
     (ok, m) \<leftarrow> run_plain err (sr_request_id q) (\<lambda>r (mid, now). Msg_sent r mid now) (0, 0)
       (SendGroupMessage (message_options e) (message_codec e) (call_context e (sr_request_id q)) q);
     return (ok, Res_plain SEND_GROUP_MSG_RESP m) }"
| "run_request e gid err cid (Rpc_ack q) = do {
     (ok, m) \<leftarrow> run_plain err (ak_request_id q) (\<lambda>r _. Msg_common r) ()
       (AckMessage (call_context e (ak_request_id q)) (ak_request_id q) (ak_user_id q) (ak_message_id q));
     return (ok, Res_plain ACK_RESP m) }"
| "run_request e gid err cid (Rpc_pull q) = do {
     (ok, m) \<leftarrow> run_plain err (pl_request_id q) Msg_pulled []
       (PullOfflineMessages (message_options e) (message_codec e) (call_context e (pl_request_id q)) (pl_request_id q)
          (pl_user_id q) (pl_page_size q));
     return (ok, Res_plain PULL_OFFLINE_MSG_RESP m) }"

primrec breaker_of :: "rpc_request \<Rightarrow> string" where
  "breaker_of (Rpc_register q) = ''user_service''"
| "breaker_of (Rpc_login q) = ''user_service''"
| "breaker_of (Rpc_resume q) = ''user_service''"
| "breaker_of (Rpc_single q) = ''message_service''"
| "breaker_of (Rpc_group q) = ''message_service''"
| "breaker_of (Rpc_ack q) = ''message_service''"
| "breaker_of (Rpc_pull q) = ''message_service''"

text \<open>A thread of the executor runs a queued task; the callback is queued behind the others.\<close>

definition remove_nth :: "nat \<Rightarrow> 'a list \<Rightarrow> 'a list" where
  "remove_nth i xs = take i xs @ drop (Suc i) xs"

definition run_task :: "gateway_env \<Rightarrow> string \<Rightarrow> int \<Rightarrow> nat \<Rightarrow> gateway \<Rightarrow> gateway" where
  "run_task e err now i g =
     (let task = gw_tasks g ! i; q = task_request task;
          ((ok, res), w) = run_state (run_request e (gateway_id (gw_conns g)) err (task_connection task) q) (gw_world g)
      in g\<lparr>gw_tasks := remove_nth i (gw_tasks g), gw_world := w,
           gw_breakers := (if ok then manager_recordSuccess (breaker_of q) (gw_breakers g)
                           else manager_recordFailure (breaker_of q) now (gw_breakers g)),
           gw_done := gw_done g @ [(task, res, False)]\<rparr>)"

section \<open>Callbacks\<close>

definition live_conn :: "string \<Rightarrow> gateway \<Rightarrow> handle option" where
  "live_conn cid g = (case getConnection cid (gw_conns g) of None \<Rightarrow> None
     | Some h \<Rightarrow> if h \<in> set (gw_connected g) then Some h else None)"

definition bind_connection :: "string \<Rightarrow> u64 \<Rightarrow> string \<Rightarrow> string \<Rightarrow> string \<Rightarrow> int \<Rightarrow> gateway \<Rightarrow> bool \<times> gateway" where
  "bind_connection cid u tok d plat now g = (case bindUser cid u tok d plat now (gw_conns g) of
     (ok, replaced, m) \<Rightarrow> (ok, (case replaced of None \<Rightarrow> id | Some h \<Rightarrow> forceClose h) (g\<lparr>gw_conns := m\<rparr>)))"

definition login_callback :: "gateway_env \<Rightarrow> int \<Rightarrow> string \<Rightarrow> 32 word \<Rightarrow> LoginRequest \<Rightarrow> LoginResult \<Rightarrow> bool \<Rightarrow> gateway \<Rightarrow> gateway" where
  "login_callback e now cid seq q r error g =
     (let d = login_device_id cid q; good = (lr_rpc_ok r \<and> rsp_code (lr_response r) = 0 \<and> lr_online_ok r) in
      case live_conn cid g of
        None \<Rightarrow> if good then setOfflineAsync (lr_user_id r) d cid g else g
      | Some h \<Rightarrow>
          if error then sendError e h seq EC_SERVICE_UNAVAILABLE ''gateway rpc executor unavailable'' (lg_request_id q) g
          else let (bound, g1) = (if good then bind_connection cid (lr_user_id r) (lr_token r) d (lg_platform q) now g else (True, g));
                   g2 = (if bound then g1 else setOfflineAsync (lr_user_id r) d cid g1);
                   resp = (if bound then lr_response r
                           else (lr_response r)\<lparr>rsp_code := EC_GATEWAY_ONLINE_STATE_FAILED, rsp_message := ''connection binding failed''\<rparr>)
               in sendPacket h (makeResponse e LOGIN_RESP seq (Msg_login resp (lr_user_id r) (lr_token r) (lr_expire_at r))) g2)"

definition resume_callback :: "gateway_env \<Rightarrow> int \<Rightarrow> string \<Rightarrow> 32 word \<Rightarrow> ResumeSessionRequest \<Rightarrow> ResumeResult \<Rightarrow> bool \<Rightarrow> gateway \<Rightarrow> gateway" where
  "resume_callback e now cid seq q r error g =
     (let d = rs_device_id q in
      case live_conn cid g of
        None \<Rightarrow> if rr_user_id r \<noteq> 0 \<and> rr_online_ok r then setOfflineAsync (rr_user_id r) d cid g else g
      | Some h \<Rightarrow>
          if error then sendError e h seq EC_SERVICE_UNAVAILABLE ''gateway rpc executor unavailable'' (rs_request_id q) g
          else let (bound, g1) = (if rr_rpc_ok r \<and> rsp_code (rr_response r) = 0 \<and> rr_online_ok r
                                  then bind_connection cid (rr_user_id r) (rs_token q) d (rs_platform q) now g else (True, g));
                   g2 = (if bound then g1 else setOfflineAsync (rr_user_id r) d cid g1);
                   resp = (if bound then rr_response r
                           else (rr_response r)\<lparr>rsp_code := EC_GATEWAY_ONLINE_STATE_FAILED, rsp_message := ''connection binding failed''\<rparr>)
               in sendPacket h (makeResponse e RESUME_SESSION_RESP seq (Msg_resume resp (rr_user_id r))) g2)"

definition plain_callback :: "gateway_env \<Rightarrow> string \<Rightarrow> 32 word \<Rightarrow> string \<Rightarrow> MessageType \<Rightarrow> client_message \<Rightarrow> bool \<Rightarrow> gateway \<Rightarrow> gateway" where
  "plain_callback e cid seq rid t m error g =
     (case live_conn cid g of
        None \<Rightarrow> g
      | Some h \<Rightarrow>
          if error then sendError e h seq EC_SERVICE_UNAVAILABLE ''gateway rpc executor unavailable'' rid g
          else sendPacket h (makeResponse e t seq m) g)"

text \<open>The event loop runs a queued callback. A result of another kind than its request does not occur.\<close>

definition run_callback :: "gateway_env \<Rightarrow> int \<Rightarrow> nat \<Rightarrow> gateway \<Rightarrow> gateway" where
  "run_callback e now i g0 =
     (case gw_done g0 ! i of (task, res, error) \<Rightarrow>
      let cid = task_connection task; seq = task_sequence task; g = g0\<lparr>gw_done := remove_nth i (gw_done g0)\<rparr> in
      case (task_request task, res) of
        (Rpc_login q, Res_login r) \<Rightarrow> login_callback e now cid seq q r error g
      | (Rpc_resume q, Res_resume r) \<Rightarrow> resume_callback e now cid seq q r error g
      | (q, Res_plain t m) \<Rightarrow> plain_callback e cid seq (rpc_request_id q) t m error g
      | _ \<Rightarrow> g)"

primrec run_online :: "online_task \<Rightarrow> bool io" where
  "run_online (Refresh_online u d cid) = refreshOnline u d cid"
| "run_online (Set_offline u d cid) = gateway_setOffline u d cid"

definition online_worker :: "gateway \<Rightarrow> gateway" where
  "online_worker g = (case gw_online g of [] \<Rightarrow> g
     | x # xs \<Rightarrow> g\<lparr>gw_online := xs, gw_world := snd (run_state (run_online x) (gw_world g))\<rparr>)"

end
