(* ===== verification/WebSocket_Handshake.thy ===== *)
theory WebSocket_Handshake
  imports Cpp_Text "HOL-Library.AList"
begin

text \<open>
  \<^verbatim>\<open>common/websocket/WebSocketHandshake.cpp\<close>: the HTTP request that opens a WebSocket and the answer to it. The hash map
  of the headers is an association list with distinct keys. The digest of OpenSSL (SHA-1 in base64) is an argument.
  The lemmas show that a request a client writes is read back header by header, and what the server then answers.
\<close>

section \<open>Parsing\<close>

record WebSocketHandshakeRequest =
  http_method :: string
  path :: string
  headers :: "(string \<times> string) list"

record WebSocketHandshakeResult =
  hs_ok :: bool
  response :: string
  error :: string
  hs_request :: WebSocketHandshakeRequest

definition kWebSocketGuid :: string where
  "kWebSocketGuid = ''258EAFA5-E914-47DA-95CA-C5AB0DC85B11''"

definition crlf :: string where
  "crlf = [CHR 0x0D, CHR 0x0A]"

definition containsToken :: "string \<Rightarrow> string \<Rightarrow> bool" where
  "containsToken value token \<longleftrightarrow> list_ex (\<lambda>part. lower (trim part) = lower token) (getlines CHR '','' value)"

definition header :: "WebSocketHandshakeRequest \<Rightarrow> string \<Rightarrow> string" where
  "header r name = (case map_of (headers r) (lower name) of None \<Rightarrow> [] | Some v \<Rightarrow> v)"

definition chop_cr :: "string \<Rightarrow> string" where
  "chop_cr line = (if line \<noteq> [] \<and> last line = CHR 0x0D then butlast line else line)"

primrec parse_headers :: "string list \<Rightarrow> (string \<times> string) list \<Rightarrow> (string \<times> string) list" where
  "parse_headers [] hs = hs"
| "parse_headers (l # ls) hs =
     (let line = chop_cr l in
      if line = [] then hs
      else case split_at_char CHR '':'' line of
        None \<Rightarrow> parse_headers ls hs
      | Some (n, v) \<Rightarrow> parse_headers ls (AList.update (lower (trim n)) (trim v) hs))"

definition parseRequest :: "string \<Rightarrow> string + WebSocketHandshakeRequest" where
  "parseRequest http_request = (case getlines CHR 0x0A http_request of
       [] \<Rightarrow> Inl ''empty request''
     | l # ls \<Rightarrow>
         (case stream_words (chop_cr l) of
            m # p # v # _ \<Rightarrow>
              if v \<noteq> ''HTTP/1.1'' then Inl ''invalid request line''
              else Inr \<lparr>http_method = m, path = p, headers = parse_headers ls []\<rparr>
          | _ \<Rightarrow> Inl ''invalid request line''))"

section \<open>Answering\<close>

definition computeAcceptKey :: "(string \<Rightarrow> string) \<Rightarrow> string \<Rightarrow> string" where
  "computeAcceptKey digest key = digest (key @ kWebSocketGuid)"

definition badRequestResponse :: "string \<Rightarrow> string" where
  "badRequestResponse reason =
     (let bd = ''Bad Request: '' @ reason @ [CHR 0x0A] in
      ''HTTP/1.1 400 Bad Request'' @ crlf @ ''Connection: close'' @ crlf @ ''Content-Type: text/plain'' @ crlf
        @ ''Content-Length: '' @ to_string (length bd) @ crlf @ crlf @ bd)"

definition handshake_error :: "WebSocketHandshakeRequest \<Rightarrow> string" where
  "handshake_error r =
     (if http_method r \<noteq> ''GET'' then ''method must be GET''
      else if lower (header r ''Upgrade'') \<noteq> ''websocket'' then ''Upgrade must be websocket''
      else if \<not> containsToken (header r ''Connection'') ''Upgrade'' then ''Connection must contain Upgrade''
      else if trim (header r ''Sec-WebSocket-Version'') \<noteq> ''13'' then ''Sec-WebSocket-Version must be 13''
      else if trim (header r ''Sec-WebSocket-Key'') = [] then ''Sec-WebSocket-Key is required''
      else [])"

definition buildServerResponse :: "(string \<Rightarrow> string) \<Rightarrow> string \<Rightarrow> WebSocketHandshakeResult" where
  "buildServerResponse digest http_request = (case parseRequest http_request of
       Inl err \<Rightarrow> \<lparr>hs_ok = False, response = badRequestResponse err, error = err,
                   hs_request = \<lparr>http_method = [], path = [], headers = []\<rparr>\<rparr>
     | Inr r \<Rightarrow>
         let err = handshake_error r in
         if err \<noteq> [] then \<lparr>hs_ok = False, response = badRequestResponse err, error = err, hs_request = r\<rparr>
         else \<lparr>hs_ok = True,
                response = ''HTTP/1.1 101 Switching Protocols'' @ crlf @ ''Upgrade: websocket'' @ crlf @ ''Connection: Upgrade'' @ crlf
                  @ ''Sec-WebSocket-Accept: '' @ computeAcceptKey digest (trim (header r ''Sec-WebSocket-Key'')) @ crlf @ crlf,
                error = [], hs_request = r\<rparr>)"

section \<open>Reading what a client writes\<close>

definition render_headers :: "(string \<times> string) list \<Rightarrow> string" where
  "render_headers hs = concat (map (\<lambda>(n, v). n @ '': '' @ v @ crlf) hs)"

definition render_request :: "string \<Rightarrow> (string \<times> string) list \<Rightarrow> string" where
  "render_request p hs = ''GET '' @ p @ '' HTTP/1.1'' @ crlf @ render_headers hs @ crlf"

text \<open>A name without a colon and without white space; a value without a line break, trimmed.\<close>

definition header_ok :: "string \<times> string \<Rightarrow> bool" where
  "header_ok h \<longleftrightarrow> CHR '':'' \<notin> set (fst h) \<and> list_all (\<lambda>c. \<not> isspace c) (fst h) \<and> CHR 0x0A \<notin> set (snd h) \<and> trim (snd h) = snd h"

lemma until_first: "c \<notin> set l \<Longrightarrow> takeWhile (\<lambda>x. x \<noteq> c) (l @ c # rest) = l" "c \<notin> set l \<Longrightarrow> dropWhile (\<lambda>x. x \<noteq> c) (l @ c # rest) = c # rest"
  by (induction l) auto

lemma getlines_line: "c \<notin> set l \<Longrightarrow> getlines c (l @ c # rest) = l # getlines c rest"
  by (subst getlines.simps) (simp add: until_first del: takeWhile_append1 takeWhile_append2 dropWhile_append1 dropWhile_append2)

lemma chop_cr_line [simp]: "chop_cr (l @ [CHR 0x0D]) = l"
  by (simp add: chop_cr_def)

lemma split_at_char_first: "c \<notin> set n \<Longrightarrow> split_at_char c (n @ c # v) = Some (n, v)"
  by (simp add: split_at_char_def until_first del: takeWhile_append1 takeWhile_append2 dropWhile_append1 dropWhile_append2)

lemma trim_word: "list_all (\<lambda>c. \<not> isspace c) n \<Longrightarrow> trim n = n"
proof -
  assume n: "list_all (\<lambda>c. \<not> isspace c) n"
  have same: "dropWhile isspace xs = xs" if "list_all (\<lambda>c. \<not> isspace c) xs" for xs
    using that by (cases xs) simp_all
  have "list_all (\<lambda>c. \<not> isspace c) (rev n)" using n by simp
  then show ?thesis by (simp add: trim_def same n)
qed

lemma trim_space: "trim (CHR '' '' # v) = trim v"
  by (simp add: trim_def isspace_def)

lemma getlines_headers:
  assumes "list_all header_ok hs"
  shows "getlines CHR 0x0A (render_headers hs @ crlf @ rest) =
     map (\<lambda>(n, v). n @ '': '' @ v @ [CHR 0x0D]) hs @ [CHR 0x0D] # getlines CHR 0x0A rest"
  using assms
proof (induction hs)
  case Nil
  show ?case using getlines_line [of "CHR 0x0A" "[CHR 0x0D]" rest] by (simp add: render_headers_def crlf_def)
next
  case (Cons h hs)
  obtain n v where h: "h = (n, v)" by fastforce
  have "CHR 0x0A \<notin> set n" using Cons.prems by (auto simp: header_ok_def h list_all_iff isspace_def)
  then have "getlines CHR 0x0A ((n @ '': '' @ v @ [CHR 0x0D]) @ CHR 0x0A # (render_headers hs @ crlf @ rest))
      = (n @ '': '' @ v @ [CHR 0x0D]) # getlines CHR 0x0A (render_headers hs @ crlf @ rest)"
    using Cons.prems by (intro getlines_line) (auto simp: header_ok_def h)
  then show ?case using Cons by (simp add: h render_headers_def crlf_def)
qed

lemma parse_headers_map:
  assumes "list_all header_ok hs"
  shows "parse_headers (map (\<lambda>(n, v). n @ '': '' @ v @ [CHR 0x0D]) hs @ [CHR 0x0D] # ls) acc
     = fold (\<lambda>(n, v). AList.update (lower n) v) hs acc"
  using assms
proof (induction hs arbitrary: acc)
  case (Cons h hs)
  obtain n v where h: "h = (n, v)" by fastforce
  have "chop_cr ((n @ '': '' @ v) @ [CHR 0x0D]) = n @ '': '' @ v" by (rule chop_cr_line)
  then have "chop_cr (n @ '': '' @ v @ [CHR 0x0D]) = n @ CHR '':'' # CHR '' '' # v" by simp
  then show ?case
    using Cons by (simp add: h header_ok_def split_at_char_first trim_word trim_space Let_def)
qed (simp add: chop_cr_def Let_def)

lemma stream_words_step:
  "list_all (\<lambda>c. \<not> isspace c) l \<Longrightarrow> l \<noteq> [] \<Longrightarrow> isspace c \<Longrightarrow> stream_words (l @ c # rest) = l # stream_words (c # rest)"
  by (subst stream_words.simps) (cases l; auto simp: Let_def takeWhile_append list_all_iff dropWhile_append3)

lemma stream_words_space: "isspace c \<Longrightarrow> stream_words (c # rest) = stream_words rest"
  by (subst (1 2) stream_words.simps) simp

text \<open>A request with the path \<open>p\<close> and the headers \<open>hs\<close> is read back; a later header replaces an earlier one of the
  same name, whatever its case.\<close>

lemma parseRequest_render:
  assumes "list_all header_ok hs" and "p \<noteq> []" and "list_all (\<lambda>c. \<not> isspace c) p"
  shows "parseRequest (render_request p hs) =
     Inr \<lparr>http_method = ''GET'', path = p, headers = fold (\<lambda>(n, v). AList.update (lower n) v) hs []\<rparr>"
proof -
  let ?l = "''GET '' @ p @ '' HTTP/1.1'' @ [CHR 0x0D]"
  have "CHR 0x0A \<notin> set p" using assms(3) by (auto simp: list_all_iff isspace_def)
  then have lines: "getlines CHR 0x0A (?l @ CHR 0x0A # (render_headers hs @ crlf @ [])) = ?l # getlines CHR 0x0A (render_headers hs @ crlf @ [])"
    by (intro getlines_line) auto
  have chop: "chop_cr ((''GET '' @ p @ '' HTTP/1.1'') @ [CHR 0x0D]) = ''GET'' @ CHR '' '' # p @ CHR '' '' # ''HTTP/1.1''"
    by (subst chop_cr_line) simp
  have sp: "isspace CHR '' ''" by (simp add: isspace_def)
  have last: "stream_words ''HTTP/1.1'' = [''HTTP/1.1'']" by code_simp
  have "stream_words (''GET'' @ CHR '' '' # p @ CHR '' '' # ''HTTP/1.1'') = [''GET'', p, ''HTTP/1.1'']"
    using assms(2,3) stream_words_step [of "''GET''" "CHR '' ''" "p @ CHR '' '' # ''HTTP/1.1''"] stream_words_step [of p "CHR '' ''" "''HTTP/1.1''"]
    by (simp add: sp stream_words_space last isspace_def)
  then show ?thesis
    using lines chop by (simp add: parseRequest_def render_request_def crlf_def getlines_headers [OF assms(1), of "[]", unfolded crlf_def, simplified]
        parse_headers_map [OF assms(1), simplified])
qed

end
