(* ===== verification/Gateway_Server.thy ===== *)
theory Gateway_Server
  imports Gateway_Router WebSocket_Handshake
begin

text \<open>
  \<^verbatim>\<open>gateway/src/GatewayServer.cpp\<close> and \<^verbatim>\<open>gateway/src/GatewayServiceImpl.cpp\<close>: connections that open and close, the bytes
  that arrive on them, as packets or as WebSocket frames, and the calls of the other services. The name of a
  connection is its handle. The loops over the received bytes end because every packet and frame has a
  header; the clock readings of the k-th packet are an argument.
\<close>

section \<open>Opening and closing\<close>

definition getConnectionIdFromConnection :: "handle \<Rightarrow> gateway \<Rightarrow> string" where
  "getConnectionIdFromConnection h g = (case map_of (gw_ids g) h of None \<Rightarrow> [] | Some cid \<Rightarrow> cid)"

definition bindConnectionIdToConnection :: "handle \<Rightarrow> string \<Rightarrow> gateway \<Rightarrow> gateway" where
  "bindConnectionIdToConnection h cid g = g\<lparr>gw_ids := AList.update h cid (gw_ids g)\<rparr>"

definition connection_opened :: "handle \<Rightarrow> string \<Rightarrow> int \<Rightarrow> gateway \<Rightarrow> gateway" where
  "connection_opened h peer now g =
     (let (cid, m) = addConnection h peer now (gw_conns g);
          g1 = bindConnectionIdToConnection h cid (g\<lparr>gw_conns := m\<rparr>)
      in g1\<lparr>gw_websocket := AList.update h False (gw_websocket g1)\<rparr>)"

definition connection_closed :: "handle \<Rightarrow> gateway \<Rightarrow> gateway" where
  "connection_closed h g =
     (let cid = getConnectionIdFromConnection h g;
          g1 = (case getContext cid (gw_conns g) of None \<Rightarrow> g
                | Some ctx \<Rightarrow> if authenticated ctx then setOfflineAsync (ctx_user_id ctx) (device_id ctx) cid g else g)
      in g1\<lparr>gw_packet_limiter := clearConnection cid (gw_packet_limiter g1), gw_conns := removeConnection cid (gw_conns g1),
            gw_ids := AList.delete h (gw_ids g1), gw_websocket := AList.delete h (gw_websocket g1)\<rparr>)"

text \<open>\<^verbatim>\<open>onConnection\<close> as \<^verbatim>\<open>TcpConnection\<close> calls it: when the connection is established, and when it was closed.\<close>

definition connect :: "handle \<Rightarrow> string \<Rightarrow> int \<Rightarrow> gateway \<Rightarrow> gateway" where
  "connect h peer now g = connection_opened h peer now
     (g\<lparr>gw_connected := h # gw_connected g, gw_input := (gw_input g)(h := new_buffer)\<rparr>)"

definition disconnect :: "handle \<Rightarrow> gateway \<Rightarrow> gateway" where
  "disconnect h g = connection_closed h
     (g\<lparr>gw_connected := removeAll h (gw_connected g), gw_closing := removeAll h (gw_closing g)\<rparr>)"

section \<open>Packets from bytes\<close>

definition server_allowPacket :: "gateway_env \<Rightarrow> readings \<Rightarrow> handle \<Rightarrow> string \<Rightarrow> 32 word \<Rightarrow> gateway \<Rightarrow> bool \<times> gateway" where
  "server_allowPacket e t h cid seq g =
     (let (ok, l) = allowPacket cid (at_ns t) (gw_packet_limiter g); g1 = g\<lparr>gw_packet_limiter := l\<rparr> in
      if ok then (True, g1) else (False, sendPacket h (makeErrorResponse e seq EC_RATE_LIMITED ''rate limited'' []) g1))"

definition invalid_packet :: "gateway_env \<Rightarrow> ProtocolError \<Rightarrow> Packet" where
  "invalid_packet e err = makeErrorResponse e 0 EC_GATEWAY_INVALID_PACKET (protocolErrorToString err) []"

lemma readable_retrieve: "retrieve n b = Some b' \<Longrightarrow> readableBytes b' = readableBytes b - n"
  by (auto simp: retrieve_def readableBytes_def retrieveAll_def split: if_splits)

lemma decode_shrinks: "decode b = Some (OK, p, b') \<Longrightarrow> readableBytes b' < readableBytes b"
  by (auto simp: decode_def retrieveAsString_def Let_def kPacketHeaderLength_def bind_eq_Some_conv
      dest!: readable_retrieve split: if_splits option.splits)

text \<open>The result of a loop: what is left in the buffer, and whether the loop was left early.\<close>

function tcp_packets :: "gateway_env \<Rightarrow> (nat \<Rightarrow> readings) \<Rightarrow> nat \<Rightarrow> handle \<Rightarrow> string \<Rightarrow> Buffer \<Rightarrow> gateway \<Rightarrow> Buffer \<times> gateway" where
  "tcp_packets e t k h cid b g =
     (if readableBytes b < kPacketHeaderLength \<or> gw_aborted g then (b, g)
      else case decode b of
        None \<Rightarrow> (b, g\<lparr>gw_aborted := True\<rparr>)
      | Some (err, p, b1) \<Rightarrow>
          if err = OK then
            (case server_allowPacket e (t k) h cid (sequence_id (the p)) g of
               (False, g1) \<Rightarrow> (retrieveAll b1, g1)
             | (True, g1) \<Rightarrow> tcp_packets e t (k + 1) h cid b1 (handlePacket e (t k) h cid (the p) g1))
          else if err = INCOMPLETE_PACKET then (b1, g)
          else (b1, (case encode (invalid_packet e err) of
                  Inl _ \<Rightarrow> g\<lparr>gw_aborted := True\<rparr>
                | Inr bs \<Rightarrow> forceClose h (conn_send h bs g))))"
  by pat_completeness auto
termination
  by (relation "measure (\<lambda>(e, t, k, h, cid, b, g). readableBytes b)") (auto dest: decode_shrinks)

text \<open>The same over the payload of a binary frame, which is dropped with whatever is left of it. The result tells
  whether the loop over the frames goes on.\<close>

function frame_packets :: "gateway_env \<Rightarrow> (nat \<Rightarrow> readings) \<Rightarrow> nat \<Rightarrow> handle \<Rightarrow> string \<Rightarrow> Buffer \<Rightarrow> gateway \<Rightarrow> bool \<times> nat \<times> gateway" where
  "frame_packets e t k h cid b g =
     (if readableBytes b < kPacketHeaderLength \<or> gw_aborted g then (True, k, g)
      else case decode b of
        None \<Rightarrow> (False, k, g\<lparr>gw_aborted := True\<rparr>)
      | Some (err, p, b1) \<Rightarrow>
          if err = OK then
            (case server_allowPacket e (t k) h cid (sequence_id (the p)) g of
               (False, g1) \<Rightarrow> (False, k, g1)
             | (True, g1) \<Rightarrow> frame_packets e t (k + 1) h cid b1 (handlePacket e (t k) h cid (the p) g1))
          else if err = INCOMPLETE_PACKET then (True, k, g)
          else (False, k, forceClose h (sendPacket h (invalid_packet e err) g)))"
  by pat_completeness auto
termination
  by (relation "measure (\<lambda>(e, t, k, h, cid, b, g). readableBytes b)") (auto dest: decode_shrinks)

definition to_bytes :: "string \<Rightarrow> bytes" where
  "to_bytes s = map of_char s"

definition of_bytes :: "bytes \<Rightarrow> string" where
  "of_bytes bs = map (\<lambda>b. char_of (unat b)) bs"

definition close_with :: "handle \<Rightarrow> bytes \<Rightarrow> gateway \<Rightarrow> gateway" where
  "close_with h bs g = forceClose h (conn_send h bs g)"

lemma ws_decode_consumes: "ws_decode d m = (FRAME_OK, fr, n) \<Longrightarrow> 0 < n"
  by (auto simp: ws_decode_def ws_check_header_def ws_payload_length_def ws_read_payload_def Let_def split: sum.splits if_splits)

lemma decodeFrame_shrinks:
  assumes "decodeFrame b = Some (st, fr, b')" and "st \<noteq> CODEC_INCOMPLETE" and "st \<noteq> CODEC_PROTOCOL_ERROR" and "readableBytes b \<noteq> 0"
  shows "readableBytes b' < readableBytes b"
  using assms ws_decode_consumes
  by (fastforce simp: decodeFrame_def dest: readable_retrieve split: prod.splits WebSocketFrameStatus.splits)

function websocket_frames :: "gateway_env \<Rightarrow> (nat \<Rightarrow> readings) \<Rightarrow> nat \<Rightarrow> handle \<Rightarrow> string \<Rightarrow> Buffer \<Rightarrow> gateway \<Rightarrow> Buffer \<times> gateway" where
  "websocket_frames e t k h cid b g =
     (if readableBytes b = 0 \<or> gw_aborted g then (b, g)
      else case decodeFrame b of
        None \<Rightarrow> (b, g\<lparr>gw_aborted := True\<rparr>)
      | Some (status, frame, b1) \<Rightarrow>
          if status = CODEC_INCOMPLETE then (b1, g)
          else if status = CODEC_PROTOCOL_ERROR then (b1, close_with h (encodeClose (to_bytes ''protocol error'')) g)
          else let f = the frame in
            if opcode f = PING then websocket_frames e t k h cid b1 (conn_send h (encodePong (payload f)) g)
            else if opcode f = PONG then websocket_frames e t k h cid b1 g
            else if opcode f = CLOSE then (b1, close_with h (encodeClose []) g)
            else if opcode f \<noteq> BINARY then (b1, close_with h (encodeClose (to_bytes ''binary frame required'')) g)
            else case append_bytes (payload f) new_buffer of
                   None \<Rightarrow> (b1, g\<lparr>gw_aborted := True\<rparr>)
                 | Some pb \<Rightarrow> (case frame_packets e t k h cid pb g of
                      (False, k1, g1) \<Rightarrow> (b1, g1)
                    | (True, k1, g1) \<Rightarrow> websocket_frames e t k1 h cid b1 g1))"
  by pat_completeness auto
termination
  by (relation "measure (\<lambda>(e, t, k, h, cid, b, g). readableBytes b)") (auto dest: decodeFrame_shrinks)

declare tcp_packets.simps [simp del] frame_packets.simps [simp del] websocket_frames.simps [simp del]

section \<open>Bytes of a connection\<close>

definition set_input :: "handle \<Rightarrow> Buffer \<times> gateway \<Rightarrow> gateway" where
  "set_input h r = (snd r)\<lparr>gw_input := (gw_input (snd r))(h := fst r)\<rparr>"

definition onTcpMessage :: "gateway_env \<Rightarrow> (nat \<Rightarrow> readings) \<Rightarrow> handle \<Rightarrow> string \<Rightarrow> gateway \<Rightarrow> gateway" where
  "onTcpMessage e t h cid g = set_input h (tcp_packets e t 0 h cid (gw_input g h) g)"

definition onWebSocketMessage :: "gateway_env \<Rightarrow> (nat \<Rightarrow> readings) \<Rightarrow> handle \<Rightarrow> string \<Rightarrow> gateway \<Rightarrow> gateway" where
  "onWebSocketMessage e t h cid g = set_input h (websocket_frames e t 0 h cid (gw_input g h) g)"

definition startsWithGet :: "Buffer \<Rightarrow> bool" where
  "startsWithGet b \<longleftrightarrow> readableBytes b \<ge> 4 \<and> of_bytes (peek 4 b) = ''GET ''"

definition find_header_end :: "string \<Rightarrow> nat option" where
  "find_header_end s = find (\<lambda>i. take 4 (drop i s) = crlf @ crlf) [0..<length s]"

definition tryHandleWebSocketHandshake :: "gateway_env \<Rightarrow> handle \<Rightarrow> gateway \<Rightarrow> bool \<times> gateway" where
  "tryHandleWebSocketHandshake e h g =
     (let b = gw_input g h; request = of_bytes (peek (readableBytes b) b) in
      case find_header_end request of
        None \<Rightarrow> (False, if length request > 8192 then close_with h (to_bytes (badRequestResponse ''header too large'')) g else g)
      | Some pos \<Rightarrow>
          let result = buildServerResponse (accept_digest e) (take (pos + 4) request);
              g1 = conn_send h (to_bytes (response result)) g
          in case retrieve (pos + 4) b of
               None \<Rightarrow> (False, g1\<lparr>gw_aborted := True\<rparr>)
             | Some b1 \<Rightarrow> let g2 = set_input h (b1, g1) in if \<not> hs_ok result then (False, forceClose h g2) else (True, g2))"

definition onMessage :: "gateway_env \<Rightarrow> (nat \<Rightarrow> readings) \<Rightarrow> handle \<Rightarrow> gateway \<Rightarrow> gateway" where
  "onMessage e t h g =
     (let cid = getConnectionIdFromConnection h g; websocket = (map_of (gw_websocket g) h = Some True) in
      if \<not> websocket \<and> startsWithGet (gw_input g h)
      then (case tryHandleWebSocketHandshake e h g of
              (False, g1) \<Rightarrow> g1
            | (True, g1) \<Rightarrow> onWebSocketMessage e t h cid (g1\<lparr>gw_websocket := AList.update h True (gw_websocket g1),
                               gw_conns := snd (markWebSocket cid True (gw_conns g1))\<rparr>))
      else if websocket then onWebSocketMessage e t h cid g
      else onTcpMessage e t h cid g)"

definition checkHeartbeatTimeout :: "int \<Rightarrow> int \<Rightarrow> gateway \<Rightarrow> gateway" where
  "checkHeartbeatTimeout now timeout_ms g =
     fold (\<lambda>cid g. case getConnection cid (gw_conns g) of None \<Rightarrow> g | Some h \<Rightarrow> forceClose h g)
       (getTimeoutConnections now timeout_ms (gw_conns g)) g"

text \<open>\<^verbatim>\<open>TcpConnection::handleRead\<close> on a connection without TLS, with the result of the system call: an error, the end of the
  stream, or bytes.\<close>

definition handleRead :: "gateway_env \<Rightarrow> (nat \<Rightarrow> readings) \<Rightarrow> handle \<Rightarrow> int + bytes \<Rightarrow> gateway \<Rightarrow> gateway" where
  "handleRead e t h r g = (case readFd r (gw_input g h) of
       (Inl _, _) \<Rightarrow> g
     | (Inr _, None) \<Rightarrow> g\<lparr>gw_aborted := True\<rparr>
     | (Inr n, Some b) \<Rightarrow> if n = 0 then disconnect h g else onMessage e t h (set_input h (b, g)))"

lemma encode_not_get:
  assumes "encode p = Inr bs"
  shows "length bs \<ge> kPacketHeaderLength" "of_bytes (take 4 bs) \<noteq> ''GET ''"
proof -
  note bs = encode_InrD(3) [OF assms]
  show "length bs \<ge> kPacketHeaderLength" by (simp add: bs kPacketHeaderLength_def length_encodeHeader)
  have "take 4 bs = be32 kProtocolMagic" by (simp add: bs encodeHeader_def default_header_def)
  also have "of_bytes (be32 kProtocolMagic) = ''NIMB''" by code_simp
  finally show "of_bytes (take 4 bs) \<noteq> ''GET ''" by simp
qed

text \<open>A packet that arrives in one piece on an idle connection is handled, and nothing of it is left.\<close>

lemma handleRead_packet:
  fixes e t h g
  defines "cid \<equiv> getConnectionIdFromConnection h g"
  defines "asked \<equiv> allowPacket cid (at_ns (t 0)) (gw_packet_limiter g)"
  assumes idle: "buffer_inv (gw_input g h)" "queue_of (gw_input g h) = []"
    and p: "encode p = Inr bs" and g: "\<not> gw_aborted g" "map_of (gw_websocket g) h \<noteq> Some True" and ok: "fst asked"
  shows "\<exists>b b'. buffer_inv b' \<and> queue_of b' = [] \<and> handleRead e t h (Inr bs) g
     = set_input h (b', handlePacket e (t 0) h cid p (g\<lparr>gw_input := (gw_input g)(h := b), gw_packet_limiter := snd asked\<rparr>))"
proof -
  obtain b where b: "readFd (Inr bs) (gw_input g h) = (Inr (length bs), Some b)" "buffer_inv b" "queue_of b = bs"
    using readFd_spec [OF idle(1)] idle(2) by auto
  obtain b' where b': "decode b = Some (OK, Some p, b')" "buffer_inv b'" "queue_of b' = []"
    using decode_stream_step [OF b(2) p, of "[]"] b(3) by auto
  have len: "readableBytes b \<ge> kPacketHeaderLength" "\<not> startsWithGet b"
    using encode_not_get [OF p] b(2,3) length_queue_of [OF b(2)] by (auto simp: startsWithGet_def peek_queue)
  have rest: "readableBytes b' < kPacketHeaderLength"
    using length_queue_of [OF b'(2)] b'(3) by (simp add: kPacketHeaderLength_def)
  let ?g = "g\<lparr>gw_input := (gw_input g)(h := b)\<rparr>" and ?l = "snd asked"
  have allow: "server_allowPacket e (t 0) h cid seq ?g = (True, ?g\<lparr>gw_packet_limiter := ?l\<rparr>)" for seq
    using ok unfolding asked_def by (cases "allowPacket cid (at_ns (t 0)) (gw_packet_limiter g)") (simp add: server_allowPacket_def Let_def)
  have "tcp_packets e t 0 h cid b ?g = (b', handlePacket e (t 0) h cid p (?g\<lparr>gw_packet_limiter := ?l\<rparr>))"
    using len rest g by (subst tcp_packets.simps) (simp add: b' allow tcp_packets.simps [of _ _ _ _ _ b'])
  then have "handleRead e t h (Inr bs) g = set_input h (b', handlePacket e (t 0) h cid p (?g\<lparr>gw_packet_limiter := ?l\<rparr>))"
    using len g encode_not_get(1) [OF p] by (auto simp: handleRead_def b set_input_def onMessage_def onTcpMessage_def cid_def getConnectionIdFromConnection_def Let_def
        kPacketHeaderLength_def)
  with b' show ?thesis by auto
qed

section \<open>Calls of the services\<close>

text \<open>\<^verbatim>\<open>None\<close> as the reply: the handler threw, and the call fails.\<close>

definition DeliverToConnection :: "gateway_env \<Rightarrow> rpc_context \<Rightarrow> string \<Rightarrow> u64 \<Rightarrow> string \<Rightarrow> MessageData \<Rightarrow> gateway
    \<Rightarrow> CommonResponse option \<times> gateway" where
  "DeliverToConnection e ctx rid u cid d g =
     (if \<not> rpc_authorized ctx then (Some (fillResponse rid EC_AUTH_FAILED ''internal rpc unauthenticated''), g)
      else if u = 0 \<or> cid = [] then (Some (fillResponse rid EC_INVALID_ARGUMENT []), g)
      else case live_conn cid g of
        None \<Rightarrow> (Some (fillResponse rid EC_GATEWAY_CONNECTION_NOT_FOUND []), g)
      | Some h \<Rightarrow>
          (case encode (makePushMessage e 0 d) of
             Inl _ \<Rightarrow> (None, g)
           | Inr bs \<Rightarrow>
               (case getContext cid (gw_conns g) of
                  None \<Rightarrow> (Some (fillResponse rid EC_GATEWAY_CONNECTION_NOT_FOUND ''connection user mismatch''), g)
                | Some c \<Rightarrow>
                    if ctx_user_id c \<noteq> u
                    then (Some (fillResponse rid EC_GATEWAY_CONNECTION_NOT_FOUND ''connection user mismatch''), g)
                    else (Some (fillResponse rid EC_OK ''OK''), conn_send h (if websocket c then encodeBinary bs else bs) g))))"

definition KickUser :: "rpc_context \<Rightarrow> string \<Rightarrow> u64 \<Rightarrow> gateway \<Rightarrow> CommonResponse \<times> gateway" where
  "KickUser ctx rid u g =
     (if \<not> rpc_authorized ctx then (fillResponse rid EC_AUTH_FAILED ''internal rpc unauthenticated'', g)
      else (fillResponse rid EC_OK ''OK'', fold forceClose (getConnectionsByUserId u (gw_conns g)) g))"

definition KickConnection :: "rpc_context \<Rightarrow> string \<Rightarrow> u64 \<Rightarrow> string \<Rightarrow> string \<Rightarrow> gateway \<Rightarrow> CommonResponse \<times> gateway" where
  "KickConnection ctx rid u cid d g =
     (if \<not> rpc_authorized ctx then (fillResponse rid EC_AUTH_FAILED ''internal rpc unauthenticated'', g)
      else if u = 0 \<or> cid = [] then (fillResponse rid EC_INVALID_ARGUMENT [], g)
      else case getContext cid (gw_conns g) of
        None \<Rightarrow> (fillResponse rid EC_GATEWAY_CONNECTION_NOT_FOUND [], g)
      | Some c \<Rightarrow>
          if ctx_user_id c \<noteq> u then (fillResponse rid EC_GATEWAY_CONNECTION_NOT_FOUND [], g)
          else if d \<noteq> [] \<and> device_id c \<noteq> d then (fillResponse rid EC_GATEWAY_CONNECTION_NOT_FOUND ''connection device mismatch'', g)
          else case live_conn cid g of
            None \<Rightarrow> (fillResponse rid EC_GATEWAY_CONNECTION_NOT_FOUND [], g)
          | Some h \<Rightarrow> (fillResponse rid EC_OK ''OK'', forceClose h g))"

text \<open>The reply carries whether the user is online, the gateway and the connection.\<close>

definition GetOnlineStatus :: "rpc_context \<Rightarrow> string \<Rightarrow> u64 \<Rightarrow> (bool \<times> string \<times> string) reply io" where
  "GetOnlineStatus ctx rid u = requireInternalRpc ctx rid (False, [], [])
     (if u = 0 then return (fillResponse rid EC_INVALID_ARGUMENT [], (False, [], []))
      else do {
        location \<leftarrow> findOnline u;
        return (fillResponse rid EC_OK ''OK'', (case location of None \<Rightarrow> (False, [], []) | Some (gid, cid, d) \<Rightarrow> (True, gid, cid))) })"

end
