(* ===== verification/Session_Properties.thy ===== *)
theory Session_Properties
  imports Device_Service Message_Properties
begin

text \<open>
  The properties of sessions across the user and the device service: what a login needs and leaves behind,
  and that a token is dead once it was refreshed or its device was kicked.
\<close>

section \<open>Tokens that were deleted\<close>

text \<open>The token behind a key of Redis is gone.\<close>

definition dead :: "string \<Rightarrow> world \<Rightarrow> bool" where
  "dead k w \<longleftrightarrow> kv (redis w) k = None"

lemma keeps_quiet_set_breaker [keeps_intros]: "keeps quiet (set_breaker g b)"
  by (simp add: keeps_def wp_def quiet_def set_breaker_def)

lemma keeps_quiet_kick: "keeps quiet (kickConnection g)" 
  unfolding kickConnection_def 
  by (auto simp: keeps_def wp_def quiet_def gateway_call_def set_breaker_def calm Let_def split: option.splits list.splits prod.splits if_splits)

lemma keeps_quiet_device [keeps_intros]:
  "keeps quiet (forget_device u d)" "keeps quiet (isOnline u d)" "keeps quiet (getClient g)" "keeps quiet (getUserById u)"
  "keeps quiet (getDevice coll u d)"
  unfolding forget_device_def isOnline_def getClient_def getUserById_def getDevice_def by (intro keeps_intros)+

lemma keeps_dead_calls [keeps_intros]:
  "keeps (dead k) nowMs" "keeps (dead k) acquire" "keeps (dead k) (execute f)"
  by (rule keeps_I; rule wp_intros; auto simp: dead_def)+

lemma keeps_dead_del [keeps_intros]: "keeps (dead k) (redis_del k')"
  by (rule keeps_I, rule wp_redis_del) (auto simp: dead_def)

lemma keeps_dead_srem [keeps_intros]: "keeps (dead k) (redis_srem s v)"
  unfolding redis_srem_def by (rule keeps_I, rule wp_redis_write) (auto simp: dead_def)

lemma keeps_dead_device [keeps_intros]:
  "keeps (dead k) (forget_device u d)" "keeps (dead k) (clearDeviceToken coll u d at)"
  unfolding forget_device_def clearDeviceToken_def pooled_def by (intro keeps_intros)+

lemma wp_del_dead: "quiet w \<Longrightarrow> (\<And>w'. dead k w' \<Longrightarrow> quiet w' \<Longrightarrow> Q True w') \<Longrightarrow> wp (redis_del k) Q w"
  by (simp add: wp_def quiet_def dead_def redis_del_def calm)

lemma wp_revokeDevice:
  assumes "quiet w" and "h \<noteq> []" and "\<And>r w'. dead (token_of_hash h) w' \<Longrightarrow> Q r w'"
  shows "wp (revokeDevice coll u d h) Q w"
proof -
  have kick: "keeps quiet (case online of None \<Rightarrow> return True | Some (gid, conn) \<Rightarrow>
      do { client \<leftarrow> getClient gid; if \<not> client then return False else kickConnection gid })" for online
    by (intro keeps_intros keeps_quiet_kick)
  have rest: "keeps (dead (token_of_hash h)) (do { _ \<leftarrow> forget_device u d; now \<leftarrow> nowMs; device_ok \<leftarrow> clearDeviceToken coll u d now;
      return (device_ok \<and> live) })" for live
    by (intro keeps_intros)
  show ?thesis
    unfolding revokeDevice_def
    by (rule wp_bind, rule wp_keeps [OF keeps_quiet_device(2) assms(1)], rule wp_bind, rule wp_keeps [OF kick], assumption,
        rule wp_bind, simp only: assms(2) if_True not_False_eq_True, rule wp_del_dead, assumption)
       (rule wp_keeps [OF rest], assumption, rule assms(3))
qed

text \<open>After a kick that was reported as done.\<close>

lemma wp_KickDevice:
  assumes "quiet w" and "select_one (same_device coll u did) (user_devices (db w)) = Some d" and "d_token_hash d \<noteq> []"
  shows "wp (KickDevice coll ctx rid u did) (\<lambda>r w'. is_ok (fst r) \<longrightarrow> dead (token_of_hash (d_token_hash d)) w') w"
proof -
  have get: "wp (getDevice coll u did) Q w'" if "quiet w'" "db w' = db w" "Q (Some d) w'" "u \<noteq> 0 \<and> did \<noteq> []" for Q w'
    using that assms(2) by (simp add: getDevice_def wp_def quiet_def calm)
  have user: "wp (getUserById u) Q w" if "\<And>x. Q x w" for Q
    using assms(1) that by (simp add: quiet_def wp_def calm)
  show ?thesis
    unfolding KickDevice_def requireInternalRpc_def
    by (intro wp_if wp_return wp_bind user get wp_case_option wp_revokeDevice) (use assms in \<open>auto intro: wp_return\<close>)
qed

lemma wp_quiet_token: "quiet w \<Longrightarrow> (\<And>t w'. quiet w' \<Longrightarrow> Q t w') \<Longrightarrow> wp (generateToken u) Q w"
  unfolding generateToken_def randomHex_def random_bytes_def by (rule wp_keeps [where I = quiet]) (intro keeps_intros)

lemma wp_refresh_device:
  assumes "quiet w" and "\<And>r w'. quiet w' \<Longrightarrow> (r \<noteq> None \<Longrightarrow> redis w' = redis w) \<Longrightarrow> Q r w'"
  shows "wp (refresh_device s q u tok) Q w"
proof -
  have q: "keeps quiet (refresh_device s q u tok)"
    unfolding refresh_device_def upsertDevice_def by (intro keeps_intros)
  have "wp (refresh_device s q u tok) (\<lambda>r w'. r \<noteq> None \<longrightarrow> redis w' = redis w) w"
    unfolding refresh_device_def
    by (intro wp_if wp_return wp_bind wp_getDevice wp_case_option wp_nowMs wp_upsertDevice wp_redis_del) (auto simp: undisturbed_def)
  from wp_conj [OF this, of "\<lambda>_. quiet"] q assms(1) have "wp (refresh_device s q u tok) (\<lambda>r w'. (r \<noteq> None \<longrightarrow> redis w' = redis w) \<and> quiet w') w"
    by (simp add: keeps_def)
  then show ?thesis by (rule wp_mono) (use assms(2) in auto)
qed

lemma token_keys: "token_of_hash (tokenHash c t) = tokenKey c t" "tokenKey c t = tokenKey c t' \<longleftrightarrow> tokenHash c t = tokenHash c t'"
  "token_of_hash h = tokenKey c t \<longleftrightarrow> h = tokenHash c t" "tokenKey c t = token_of_hash h \<longleftrightarrow> tokenHash c t = h"
  by (auto simp: token_of_hash_def tokenKey_def tokenHash_def)

lemma wp_RefreshToken:
  assumes "quiet w"
  shows "wp (RefreshToken s ctx q) (\<lambda>r w'. case r of (c, u, tok, e) \<Rightarrow> is_ok c \<longrightarrow>
      dead (tokenKey (us_crypto s) (rt_token q)) w' \<and>
      (tokenHash (us_crypto s) tok \<noteq> tokenHash (us_crypto s) (rt_token q) \<longrightarrow>
        kv (redis w') (tokenKey (us_crypto s) tok) = Some (to_string (unat u)))) w"
  unfolding RefreshToken_def requireInternalRpc_def Let_def expireAtMs_def
  by (intro wp_if wp_return wp_bind wp_quiet_redis wp_quiet_token wp_refresh_device wp_case_option wp_case_prod wp_nowMs)
     (use assms in \<open>auto simp: quiet_def dead_def token_keys\<close>)
lemma wp_ValidateToken:
  "dead (tokenKey (us_crypto s) tok) w \<Longrightarrow> wp (ValidateToken s ctx rid tok) (\<lambda>r w'. snd r = (False, 0)) w"
  unfolding ValidateToken_def requireInternalRpc_def
  by (intro wp_if wp_return wp_bind wp_redis_get wp_case_option wp_case_prod) (auto simp: dead_def)

section \<open>Properties\<close>

text \<open>
  C38. A login needs the password. Under every fault pattern, a positive reply names a user whose name
  matches under the collation and against whose stored hash the password was verified; the token it
  returns is stored for this user, and for the device the request names the row with the token's hash.
  An error reply carries no user and no token.
\<close>

theorem login_needs_password:
  assumes "run_state (Login s ctx q) w = ((c, u, tok, e), w')"
  shows "(is_ok c \<longrightarrow> tok \<noteq> []
       \<and> (\<exists>r \<in> set (users (db w)). us_collation s (username r) = us_collation s (lg_username q)
            \<and> verifyPassword (us_crypto s) (lg_password q) (password_hash r) \<and> user_id r = u)
       \<and> kv (redis w') (tokenKey (us_crypto s) tok) = Some (to_string (unat u))
       \<and> (lg_device_id q = [] \<or> (\<exists>d \<in> set (user_devices (db w')). same_device (us_collation s) u (lg_device_id q) d
            \<and> d_token_hash d = tokenHash (us_crypto s) tok)))
     \<and> (\<not> is_ok c \<longrightarrow> u = 0 \<and> tok = [])"
  using wp_I [OF wp_Login assms] by (auto simp: logged_in_def has_device_def list_ex_iff split: if_splits)

text \<open>A service and a user whose password is \<open>secret\<close>.\<close>

definition example_service :: UserServiceImpl where
  "example_service = new_UserServiceImpl example_crypto lower (new_TokenManager 60) 6"

definition example_login :: "string \<Rightarrow> LoginRequest" where
  "example_login pw = \<lparr>lg_request_id = ''r'', lg_username = ''Ada'', lg_password = pw, lg_device_id = ''phone'',
     lg_platform = ''p'', lg_device_name = ''n''\<rparr>"

definition account_world :: world where
  "account_world = chat_world\<lparr>db := empty_tables\<lparr>users := [\<lparr>user_id = 8, username = ''ada'',
       password_hash = ''pbkdf2_sha256$1$61$73'', nickname = [], avatar = [], user_created_at = 0, user_updated_at = 0\<rparr>]\<rparr>,
     random := [replicate 32 CHR ''k'', replicate 32 CHR ''l'']\<rparr>"

lemma example_login_ok: "is_ok (fst (fst (run_state (Login example_service caller (example_login ''secret'')) account_world)))"
  by code_simp

theorem login_needs_password_witness:
  "fst (snd (fst (run_state (Login example_service caller (example_login ''secret'')) account_world))) = 8
   \<and> \<not> is_ok (fst (fst (run_state (Login example_service caller (example_login ''guess'')) account_world)))"
proof -
  obtain c u tok e w' where run: "run_state (Login example_service caller (example_login ''secret'')) account_world = ((c, u, tok, e), w')"
    by (metis surj_pair)
  obtain c' u' tok' e' w'' where run': "run_state (Login example_service caller (example_login ''guess'')) account_world = ((c', u', tok', e'), w'')"
    by (metis surj_pair)
  have no: "\<not> verifyPassword example_crypto ''guess'' ''pbkdf2_sha256$1$61$73''" by code_simp
  show ?thesis
    using login_needs_password [OF run] login_needs_password [OF run'] example_login_ok no
    by (auto simp: run run') (auto simp: account_world_def example_service_def new_UserServiceImpl_def example_login_def)
qed


definition session_world :: world where
  "session_world = account_world\<lparr>redis := \<lparr>kv = (\<lambda>_. None)(tokenKey example_crypto ''old'' := Some ''8''), smembers_of = (\<lambda>_. [])\<rparr>,
     db := (db account_world)\<lparr>user_devices := [\<lparr>d_user_id = 8, d_device_id = ''phone'', d_platform = [], d_device_name = [],
       d_token_hash = tokenHash example_crypto ''old'', d_last_login_at = 1, d_last_active_at = 1, d_created_at = 1,
       d_updated_at = 1\<rparr>]\<rparr>\<rparr>"

abbreviation refresh_old :: "(u64 \<times> string \<times> int) reply io" where
  "refresh_old \<equiv> RefreshToken example_service caller \<lparr>rt_request_id = ''r'', rt_token = ''old'', rt_device_id = []\<rparr>"

lemma session_runs:
  "script session_world = []" "is_ok (fst (fst (run_state refresh_old session_world)))"
  "is_ok (fst (fst (run_state (KickDevice lower caller ''r'' 8 ''phone'') session_world)))"
  "map_option d_token_hash (select_one (same_device lower 8 ''phone'') (user_devices (db session_world)))
     = Some (tokenHash example_crypto ''old'')"
  "tokenHash example_crypto ''old'' \<noteq> []"
  "snd (fst (run_state (ValidateToken example_service caller ''r'' ''old'') session_world)) = (True, 8)"
  by code_simp+


text \<open>
  With failures there is no such guarantee. The results of the deletions are not looked at: the two calls
  report success while the old token stays valid, and after the kick the row does not hold the token's hash
  any more, so that kicking the device again cannot delete it either.
\<close>

lemma refresh_can_leave_the_old_token:
  "let (r, w1) = run_state refresh_old (session_world\<lparr>script := [Succeeds, Succeeds, Succeeds, Fails]\<rparr>)
   in is_ok (fst r) \<and> snd (fst (run_state (ValidateToken example_service caller ''r'' ''old'') w1)) = (True, 8)"
  by code_simp

lemma kick_can_leave_the_token:
  "let (r, w1) = run_state (KickDevice lower caller ''r'' 8 ''phone'') (session_world\<lparr>script := replicate 9 Succeeds @ [Fails]\<rparr>)
   in is_ok (fst r) \<and> map d_token_hash (user_devices (db w1)) = [[]]
      \<and> snd (fst (run_state (ValidateToken example_service caller ''r'' ''old'') w1)) = (True, 8)"
  by code_simp

end
