(* ===== verification/Gateway_Properties.thy ===== *)
theory Gateway_Properties
  imports Gateway_Server Session_Properties
begin

text \<open>
  The gateway as a step relation: connections open and close, bytes arrive, threads of the executor run tasks on
  the world, callbacks run, and other processes change the world, in every order. The main result ties the
  gateway to the user service: in whose name a connection speaks was proved for that connection by a password or
  a token.
\<close>

section \<open>Steps\<close>

text \<open>The run of a task is recorded with its connection and the world it ran in.\<close>

datatype gateway_event = Ev_ran string rpc_request world

inductive gateway_step :: "gateway_env \<Rightarrow> gateway \<Rightarrow> gateway_event list \<Rightarrow> gateway \<Rightarrow> bool" for e where
  opens: "h \<notin> set (gw_connected g) \<Longrightarrow> h \<notin> set (gw_closing g) \<Longrightarrow> gateway_step e g [] (connect h peer now g)"
| reads: "h \<in> set (gw_connected g) \<union> set (gw_closing g) \<Longrightarrow> gateway_step e g [] (handleRead e t h r g)"
| closes: "h \<in> set (gw_closing g) \<Longrightarrow> gateway_step e g [] (disconnect h g)"
| runs: "i < length (gw_tasks g) \<Longrightarrow> gateway_step e g
    [Ev_ran (task_connection (gw_tasks g ! i)) (task_request (gw_tasks g ! i)) (gw_world g)] (run_task e err now i g)"
| calls_back: "i < length (gw_done g) \<Longrightarrow> gateway_step e g [] (run_callback e now i g)"
| updates_online: "gateway_step e g [] (online_worker g)"
| times_out: "gateway_step e g [] (checkHeartbeatTimeout now timeout_ms g)"
| delivers: "gateway_step e g [] (snd (DeliverToConnection e ctx rid u cid d g))"
| kicks_user: "gateway_step e g [] (snd (KickUser ctx rid u g))"
| kicks_connection: "gateway_step e g [] (snd (KickConnection ctx rid u cid did g))"
| others: "gateway_step e g [] (g\<lparr>gw_world := w\<rparr>)"

text \<open>The history has the latest event first. After an uncaught exception nothing happens any more.\<close>

inductive gateway_run :: "gateway_env \<Rightarrow> gateway \<Rightarrow> gateway_event list \<Rightarrow> gateway \<Rightarrow> bool" for e g0 where
  start: "gateway_run e g0 [] g0"
| step: "gateway_run e g0 tr g \<Longrightarrow> \<not> gw_aborted g \<Longrightarrow> gateway_step e g ev g' \<Longrightarrow> gateway_run e g0 (ev @ tr) g'"

definition new_gateway :: "string \<Rightarrow> RateLimitConfig \<Rightarrow> world \<Rightarrow> gateway" where
  "new_gateway gid cfg w = \<lparr>gw_conns = new_ConnectionManager gid, gw_breakers = (\<lambda>_. None), gw_limiter = new_RateLimiter cfg,
     gw_connected = [], gw_closing = [], gw_ids = [], gw_websocket = [], gw_input = (\<lambda>_. new_buffer),
     gw_packet_limiter = new_RateLimiter cfg, gw_sent = [], gw_tasks = [], gw_done = [], gw_online = [], gw_aborted = False,
     gw_world = w\<rparr>"

section \<open>Who speaks on a connection\<close>

text \<open>A request proves that its client is the user: with the password of a user of that name, or with a token
  that Redis has for the user.\<close>

primrec proves :: "UserServiceImpl \<Rightarrow> rpc_request \<Rightarrow> world \<Rightarrow> u64 \<Rightarrow> bool" where
  "proves s (Rpc_login q) w u \<longleftrightarrow> (\<exists>r \<in> set (users (db w)). us_collation s (username r) = us_collation s (lg_username q)
     \<and> verifyPassword (us_crypto s) (lg_password q) (password_hash r) \<and> user_id r = u)"
| "proves s (Rpc_resume q) w u \<longleftrightarrow> (\<exists>v n m. kv (redis w) (tokenKey (us_crypto s) (rs_token q)) = Some v
     \<and> stoull v = Some (n, m) \<and> of_nat n = u)"
| "proves s (Rpc_register q) w u \<longleftrightarrow> False"
| "proves s (Rpc_single q) w u \<longleftrightarrow> False"
| "proves s (Rpc_group q) w u \<longleftrightarrow> False"
| "proves s (Rpc_ack q) w u \<longleftrightarrow> False"
| "proves s (Rpc_pull q) w u \<longleftrightarrow> False"

text \<open>In whose name a request speaks.\<close>

primrec speaks_for :: "rpc_request \<Rightarrow> u64 option" where
  "speaks_for (Rpc_register q) = None"
| "speaks_for (Rpc_login q) = None"
| "speaks_for (Rpc_resume q) = None"
| "speaks_for (Rpc_single q) = Some (sr_from_user_id q)"
| "speaks_for (Rpc_group q) = Some (sr_from_user_id q)"
| "speaks_for (Rpc_ack q) = Some (ak_user_id q)"
| "speaks_for (Rpc_pull q) = Some (pl_user_id q)"

definition proven :: "gateway_env \<Rightarrow> gateway_event list \<Rightarrow> string \<Rightarrow> u64 \<Rightarrow> bool" where
  "proven e tr cid u \<longleftrightarrow> (\<exists>q w. Ev_ran cid q w \<in> set tr \<and> proves (user_service e) q w u)"

text \<open>The user a result would bind the connection to.\<close>

fun binds :: "rpc_result \<Rightarrow> u64 option" where
  "binds (Res_login r) = (if lr_rpc_ok r \<and> rsp_code (lr_response r) = 0 \<and> lr_online_ok r then Some (lr_user_id r) else None)"
| "binds (Res_resume r) = (if rr_rpc_ok r \<and> rsp_code (rr_response r) = 0 \<and> rr_online_ok r then Some (rr_user_id r) else None)"
| "binds (Res_plain t m) = None"

definition bound_context :: "ConnectionContext \<Rightarrow> bool" where
  "bound_context ctx \<longleftrightarrow> authenticated ctx \<or> ctx_user_id ctx \<noteq> 0"

definition secure :: "gateway_env \<Rightarrow> gateway_event list \<Rightarrow> gateway \<Rightarrow> bool" where
  "secure e tr g \<longleftrightarrow>
     (\<forall>cid ctx. getContext cid (gw_conns g) = Some ctx \<longrightarrow> bound_context ctx \<longrightarrow> proven e tr cid (ctx_user_id ctx))
     \<and> (\<forall>task \<in> set (gw_tasks g). \<forall>u. speaks_for (task_request task) = Some u \<longrightarrow> proven e tr (task_connection task) u)
     \<and> (\<forall>(task, res, err) \<in> set (gw_done g). \<forall>u. \<not> err \<longrightarrow> binds res = Some u \<longrightarrow> proven e tr (task_connection task) u)"

lemma secure_same:
  "secure e tr g \<Longrightarrow> gw_conns g' = gw_conns g \<Longrightarrow> gw_tasks g' = gw_tasks g \<Longrightarrow> gw_done g' = gw_done g \<Longrightarrow> secure e tr g'"
  by (simp add: secure_def)

lemma secure_more: "secure e tr g \<Longrightarrow> secure e (ev @ tr) g"
  by (auto simp: secure_def proven_def) blast+

section \<open>Steps that do not touch it\<close>

lemma core_updates [simp]:
  "gw_conns (conn_send h bs g) = gw_conns g" "gw_tasks (conn_send h bs g) = gw_tasks g" "gw_done (conn_send h bs g) = gw_done g"
  "gw_conns (forceClose h g) = gw_conns g" "gw_tasks (forceClose h g) = gw_tasks g" "gw_done (forceClose h g) = gw_done g"
  "gw_conns (sendPacket h p g) = gw_conns g" "gw_tasks (sendPacket h p g) = gw_tasks g" "gw_done (sendPacket h p g) = gw_done g"
  "gw_conns (submitOnlineTask x g) = gw_conns g" "gw_tasks (submitOnlineTask x g) = gw_tasks g" "gw_done (submitOnlineTask x g) = gw_done g"
  by (auto simp: conn_send_def forceClose_def sendPacket_def submitOnlineTask_def split: sum.splits)

lemma secure_sendPacket [simp]: "secure e tr g \<Longrightarrow> secure e tr (sendPacket h p g)"
  by (rule secure_same) simp_all

lemma secure_sendError [simp]: "secure e tr g \<Longrightarrow> secure e tr (sendError e' h seq code m rid g)"
  by (simp add: sendError_def)

lemma secure_forceClose [simp]: "secure e tr g \<Longrightarrow> secure e tr (forceClose h g)" "secure e tr g \<Longrightarrow> secure e tr (conn_send h bs g)"
  by (rule secure_same; simp)+

lemma secure_fold: "(\<And>x g. secure e tr g \<Longrightarrow> secure e tr (f x g)) \<Longrightarrow> secure e tr g \<Longrightarrow> secure e tr (fold f xs g)"
  by (induction xs arbitrary: g) simp_all

lemma secure_online [simp]: "secure e tr g \<Longrightarrow> secure e tr (submitOnlineTask x g)"
  by (rule secure_same) simp_all

lemma secure_fields [simp]:
  "secure e tr (g\<lparr>gw_limiter := l\<rparr>) = secure e tr g" "secure e tr (g\<lparr>gw_breakers := b\<rparr>) = secure e tr g"
  "secure e tr (g\<lparr>gw_packet_limiter := l\<rparr>) = secure e tr g" "secure e tr (g\<lparr>gw_input := i\<rparr>) = secure e tr g"
  "secure e tr (g\<lparr>gw_aborted := a\<rparr>) = secure e tr g" "secure e tr (g\<lparr>gw_world := w\<rparr>) = secure e tr g"
  "secure e tr (g\<lparr>gw_ids := is\<rparr>) = secure e tr g" "secure e tr (g\<lparr>gw_websocket := ws\<rparr>) = secure e tr g"
  "secure e tr (g\<lparr>gw_connected := cs\<rparr>) = secure e tr g" "secure e tr (g\<lparr>gw_closing := cs\<rparr>) = secure e tr g"
  "secure e tr (g\<lparr>gw_online := xs\<rparr>) = secure e tr g"
  by (simp_all add: secure_def)

section \<open>Packets\<close>

lemma secure_limit [intro]:
  "secure e tr g \<Longrightarrow> (\<And>g. secure e tr g \<Longrightarrow> secure e tr (refused g)) \<Longrightarrow> (\<And>g. secure e tr g \<Longrightarrow> secure e tr (k g))
   \<Longrightarrow> secure e tr (limit_rate ask refused k g)"
  by (simp add: limit_rate_def split: prod.splits)

lemma secure_breaker [intro]:
  "secure e tr g \<Longrightarrow> (\<And>g. secure e tr g \<Longrightarrow> secure e tr (refused g)) \<Longrightarrow> (\<And>g. secure e tr g \<Longrightarrow> secure e tr (k g))
   \<Longrightarrow> secure e tr (ask_breaker name now refused k g)"
  by (simp add: ask_breaker_def split: prod.splits)

lemma secure_context:
  "secure e tr g \<Longrightarrow> getContext cid (gw_conns g) = Some ctx \<Longrightarrow> bound_context ctx \<Longrightarrow> proven e tr cid (ctx_user_id ctx)"
  by (simp add: secure_def)

lemma secure_conns:
  "secure e tr g \<Longrightarrow> (\<And>cid ctx. getContext cid m = Some ctx \<Longrightarrow> bound_context ctx \<Longrightarrow> proven e tr cid (ctx_user_id ctx))
   \<Longrightarrow> secure e tr (g\<lparr>gw_conns := m\<rparr>)"
  by (simp add: secure_def)

lemma secure_auth [intro]:
  "secure e tr g \<Longrightarrow> (\<And>ctx. proven e tr cid (ctx_user_id ctx) \<Longrightarrow> secure e tr (k ctx g)) \<Longrightarrow> secure e tr (requireAuth e' h cid seq k g)"
  by (auto simp: requireAuth_def bound_context_def dest!: secure_context split: option.splits)

lemma binds_empty [simp]: "binds (empty_result q) = Some u \<longleftrightarrow> (\<exists>l. q = Rpc_login l) \<and> u = 0"
  by (cases q) (auto simp: empty_LoginResult_def empty_ResumeResult_def empty_response_def)

lemma secure_submit [intro]:
  "secure e tr g \<Longrightarrow> (\<And>u. speaks_for q = Some u \<Longrightarrow> proven e tr cid u) \<Longrightarrow> secure e tr (submit e' cid seq q g)"
  by (auto simp: secure_def submit_def Let_def)

lemma updateActiveTime_context:
  "getContext c (snd (updateActiveTime cid now m)) = Some ctx \<Longrightarrow>
   \<exists>old. getContext c m = Some old \<and> bound_context ctx = bound_context old \<and> ctx_user_id ctx = ctx_user_id old"
  by (auto simp: bound_context_def updateActiveTime_def getContext_def store_simps split: option.splits if_splits)

lemma secure_active: "secure e tr g \<Longrightarrow> secure e tr (g\<lparr>gw_conns := snd (updateActiveTime cid now (gw_conns g))\<rparr>)"
  by (rule secure_conns) (auto dest!: updateActiveTime_context intro: secure_context)

lemmas packet_handlers = handleRegister_def handleLogin_def handleResumeSession_def handleSendSingleMessage_def
  handleSendGroupMessage_def handleAck_def handlePullOfflineMessages_def

lemma secure_plain_packets:
  assumes "secure e tr g"
  shows "secure e tr (handleRegister e' t h cid p g)" "secure e tr (handleLogin e' t h cid p g)"
    "secure e tr (handleResumeSession e' t h cid p g)" "secure e tr (handleHeartbeat e' h cid p g)"
  using assms
  by (auto simp: packet_handlers handleHeartbeat_def refreshOnlineAsync_def Let_def split: option.splits prod.splits
      intro!: secure_limit secure_breaker secure_submit)

lemma secure_auth_packets:
  assumes "secure e tr g"
  shows "secure e tr (handleSendSingleMessage e' t h cid p g)" "secure e tr (handleSendGroupMessage e' t h cid p g)"
    "secure e tr (handleAck e' t h cid p g)" "secure e tr (handlePullOfflineMessages e' t h cid p g)"
  using assms
  by (auto simp: packet_handlers Let_def split: option.splits intro!: secure_auth secure_limit secure_breaker secure_submit)

lemma secure_handlePacket: "secure e tr g \<Longrightarrow> secure e tr (handlePacket e' t h cid p g)"
  unfolding handlePacket_def Let_def
  by (cases "packet_type p") (simp_all add: secure_active secure_plain_packets secure_auth_packets)

section \<open>Bytes, connections and calls\<close>

lemma secure_allowPacket: "secure e tr g \<Longrightarrow> server_allowPacket e' t h cid seq g = (ok, g') \<Longrightarrow> secure e tr g'"
  by (auto simp: server_allowPacket_def Let_def split: prod.splits if_splits)

text \<open>One round of the loops over packets.\<close>

lemma secure_round:
  assumes "secure e tr g" and "server_allowPacket e' t h cid seq g = (ok, g1)"
  shows "secure e tr g1" "secure e tr (handlePacket e' t h cid p g1)"
  using secure_allowPacket [OF assms] by (simp_all add: secure_handlePacket)

lemma secure_tcp_packets: "secure e tr g \<Longrightarrow> secure e tr (snd (tcp_packets e' t k h cid b g))"
proof (induction "readableBytes b" arbitrary: k b g rule: less_induct)
  case less
  have "secure e tr (snd (tcp_packets e' t (k + 1) h cid b1 (handlePacket e' (t k) h cid (the p) g1)))"
    if "decode b = Some (OK, p, b1)" "server_allowPacket e' (t k) h cid (sequence_id (the p)) g = (ok, g1)" for p b1 ok g1
    by (rule less.hyps [OF decode_shrinks [OF that(1)] secure_round(2) [OF less.prems that(2)]])
  then show ?case
    using less.prems by (subst tcp_packets.simps) (auto dest: secure_allowPacket split: option.splits prod.splits bool.splits sum.splits)
qed

lemma secure_frame_packets: "secure e tr g \<Longrightarrow> secure e tr (snd (snd (frame_packets e' t k h cid b g)))"
proof (induction "readableBytes b" arbitrary: k b g rule: less_induct)
  case less
  have "secure e tr (snd (snd (frame_packets e' t (k + 1) h cid b1 (handlePacket e' (t k) h cid (the p) g1))))"
    if "decode b = Some (OK, p, b1)" "server_allowPacket e' (t k) h cid (sequence_id (the p)) g = (ok, g1)" for p b1 ok g1
    by (rule less.hyps [OF decode_shrinks [OF that(1)] secure_round(2) [OF less.prems that(2)]])
  then show ?case
    using less.prems by (subst frame_packets.simps) (auto dest: secure_allowPacket split: option.splits prod.splits bool.splits sum.splits)
qed

lemma secure_websocket_frames: "secure e tr g \<Longrightarrow> secure e tr (snd (websocket_frames e' t k h cid b g))"
proof (induction "readableBytes b" arbitrary: k b g rule: less_induct)
  case less
  have next_frame: "secure e tr (snd (websocket_frames e' t k1 h cid b1 g1))"
    if "decodeFrame b = Some (st, f, b1)" "st \<noteq> CODEC_INCOMPLETE" "st \<noteq> CODEC_PROTOCOL_ERROR" "readableBytes b \<noteq> 0" "secure e tr g1" for st f b1 k1 g1
    by (rule less.hyps [OF decodeFrame_shrinks [OF that(1-4)] that(5)])
  have packets: "secure e tr g1" if "frame_packets e' t k h cid pb g = (ok, k1, g1)" for pb ok k1 g1
    using secure_frame_packets [OF less.prems, of e' t k h cid pb] that by simp
  show ?case
    using less.prems
    by (subst websocket_frames.simps)
       (auto simp: close_with_def Let_def intro!: next_frame intro: packets split: option.splits prod.splits bool.splits)
qed

lemma markWebSocket_context:
  "getContext c (snd (markWebSocket cid b m)) = Some ctx \<Longrightarrow>
   \<exists>old. getContext c m = Some old \<and> bound_context ctx = bound_context old \<and> ctx_user_id ctx = ctx_user_id old"
  by (auto simp: bound_context_def markWebSocket_def getContext_def store_simps split: option.splits if_splits)

lemma addConnection_context:
  "addConnection h p now m = (cid, m') \<Longrightarrow> getContext c m' = Some ctx \<Longrightarrow> bound_context ctx \<Longrightarrow> getContext c m = Some ctx"
  by (auto simp: bound_context_def addConnection_def generateConnectionId_def new_ConnectionContext_def getContext_def Let_def store_simps split: if_splits)

lemma removeConnection_context: "getContext c (removeConnection cid m) = Some ctx \<Longrightarrow> getContext c m = Some ctx"
  by (auto simp: removeConnection_def getContext_def Let_def store_simps split: if_splits)

lemma bindUser_context:
  "bindUser cid u tok d plat now m = (ok, r, m') \<Longrightarrow> getContext c m' = Some ctx \<Longrightarrow>
   getContext c m = Some ctx \<or> (c = cid \<and> ctx_user_id ctx = u)"
  by (auto simp: bindUser_def getContext_def Let_def store_simps split: if_splits option.splits)

lemma secure_mark: "secure e tr g \<Longrightarrow> secure e tr (g\<lparr>gw_conns := snd (markWebSocket cid b (gw_conns g))\<rparr>)"
  by (rule secure_conns) (auto dest!: markWebSocket_context intro: secure_context)

lemma secure_connect: "secure e tr g \<Longrightarrow> secure e tr (connect h peer now g)"
proof -
  assume s: "secure e tr g"
  have "secure e tr (g\<lparr>gw_conns := m\<rparr>)" if "addConnection h peer now (gw_conns g) = (cid, m)" for cid m
    by (rule secure_conns [OF s]) (auto dest: addConnection_context [OF that] intro: secure_context [OF s])
  then show ?thesis
    by (auto simp: connect_def connection_opened_def bindConnectionIdToConnection_def secure_def Let_def split: prod.splits)
qed

lemma secure_disconnect: "secure e tr g \<Longrightarrow> secure e tr (disconnect h g)"
proof -
  have rm: "secure e tr (g\<lparr>gw_conns := removeConnection cid (gw_conns g)\<rparr>)" if "secure e tr g" for cid g
    by (rule secure_conns [OF that]) (auto dest: removeConnection_context intro: secure_context [OF that])
  have closed: "secure e tr (connection_closed h g)" if "secure e tr g" for g
  proof -
    let ?cid = "getConnectionIdFromConnection h g"
    let ?g = "case getContext ?cid (gw_conns g) of None \<Rightarrow> g
      | Some ctx \<Rightarrow> if authenticated ctx then setOfflineAsync (ctx_user_id ctx) (device_id ctx) ?cid g else g"
    have "secure e tr ?g" using that by (simp add: setOfflineAsync_def split: option.splits)
    from rm [OF this, of ?cid] show ?thesis by (simp add: connection_closed_def Let_def secure_def)
  qed
  assume "secure e tr g"
  then show ?thesis by (simp add: disconnect_def closed)
qed

lemma secure_onMessage: "secure e tr g \<Longrightarrow> secure e tr (onMessage e' t h g)"
proof -
  have ws: "secure e tr (onWebSocketMessage e' t h cid g)" if "secure e tr g" for cid g
    using secure_websocket_frames [OF that] by (simp add: onWebSocketMessage_def set_input_def)
  have tcp: "secure e tr (onTcpMessage e' t h cid g)" if "secure e tr g" for cid g
    using secure_tcp_packets [OF that] by (simp add: onTcpMessage_def set_input_def)
  have shake: "secure e tr g'" if "tryHandleWebSocketHandshake e' h g = (ok, g')" "secure e tr g" for ok g g'
    using that by (auto simp: tryHandleWebSocketHandshake_def close_with_def set_input_def Let_def split: option.splits if_splits)
  have mark: "secure e tr (g\<lparr>gw_websocket := x, gw_conns := snd (markWebSocket cid b (gw_conns g))\<rparr>)" if "secure e tr g" for x cid b g
    using secure_mark [of e tr "g\<lparr>gw_websocket := x\<rparr>"] that by simp
  assume "secure e tr g"
  then show ?thesis
    by (auto simp: onMessage_def Let_def intro: ws tcp mark shake split: prod.splits bool.splits)
qed

lemma secure_handleRead: "secure e tr g \<Longrightarrow> secure e tr (handleRead e' t h r g)"
  by (auto simp: handleRead_def set_input_def secure_disconnect intro: secure_onMessage split: prod.splits sum.splits option.splits)

lemma secure_calls:
  assumes "secure e tr g"
  shows "secure e tr (checkHeartbeatTimeout now timeout_ms g)" "secure e tr (snd (DeliverToConnection e' ctx rid u cid d g))"
    "secure e tr (snd (KickUser ctx rid u g))" "secure e tr (snd (KickConnection ctx rid u cid did g))" "secure e tr (online_worker g)"
  using assms
  by (auto simp: checkHeartbeatTimeout_def DeliverToConnection_def KickUser_def KickConnection_def online_worker_def
      intro!: secure_fold split: option.splits sum.splits list.splits)

section \<open>Tasks and callbacks\<close>

lemma wp_backend_call:
  assumes "\<And>s. wp m (\<lambda>r w'. Q None w' \<and> Q (Some r) w') (w\<lparr>script := s\<rparr>)" "\<And>s. Q None (w\<lparr>script := s\<rparr>)"
  shows "wp (backend_call m) Q w"
proof -
  have ran: "wp (do { r \<leftarrow> m; return (if x = Succeeds then Some r else None) }) Q (w\<lparr>script := s\<rparr>)" for x s
    by (rule wp_bind, rule wp_mono [OF assms(1)]) (auto intro: wp_return)
  show ?thesis
    unfolding backend_call_def by (rule wp_bind, rule wp_pop_outcome, rule wp_if, rule wp_return, rule assms(2), rule ran)
qed

lemma wp_any_result: "(\<And>x w'. Q (f x) w') \<Longrightarrow> wp (do { x \<leftarrow> m; return (f x) }) Q w"
  by (rule wp_bind, rule wp_any, rule wp_return)

lemma wp_run_login:
  "wp (run_login e gid err cid q) (\<lambda>r w'. \<forall>u. binds (Res_login (snd r)) = Some u \<longrightarrow> proves (user_service e) (Rpc_login q) w u) w"
proof -
  let ?Q = "\<lambda>r w'. \<forall>resp u tok x. r = Some (resp, u, tok, x) \<longrightarrow> is_ok resp \<longrightarrow> proves (user_service e) (Rpc_login q) w u"
  have call: "wp (backend_call (Login (user_service e) ctx q)) ?Q w" for ctx
    by (rule wp_backend_call, rule wp_mono [OF wp_Login]) (auto simp: logged_in_def split: prod.splits)
  show ?thesis
    unfolding run_login_def Let_def
    by (rule wp_bind, rule wp_mono [OF call])
       (auto intro!: wp_case_option wp_case_prod wp_if wp_return wp_any_result simp: empty_LoginResult_def rpc_failed_def split: if_splits)
qed

lemma wp_run_resume:
  "wp (run_resume e gid err cid q) (\<lambda>r w'. \<forall>u. binds (Res_resume (snd r)) = Some u \<longrightarrow> proves (user_service e) (Rpc_resume q) w u) w"
proof -
  let ?Q = "\<lambda>r w'. \<forall>resp u. r = Some (resp, True, u) \<longrightarrow> proves (user_service e) (Rpc_resume q) w u"
  have check: "wp (ValidateToken (user_service e) ctx rid (rs_token q)) (\<lambda>r w'. \<forall>resp u. r = (resp, True, u) \<longrightarrow> proves (user_service e) (Rpc_resume q) w u)
      (w\<lparr>script := s\<rparr>)" for ctx rid s
    unfolding ValidateToken_def requireInternalRpc_def
    by (intro wp_if wp_return wp_bind wp_redis_get wp_case_option wp_case_prod) auto
  have call: "wp (backend_call (ValidateToken (user_service e) ctx rid (rs_token q))) ?Q w" for ctx rid
    by (rule wp_backend_call, rule wp_mono [OF check]) auto
  show ?thesis
    unfolding run_resume_def Let_def
    by (rule wp_bind, rule wp_mono [OF call])
       (auto intro!: wp_case_option wp_case_prod wp_if wp_return wp_any_result simp: empty_ResumeResult_def split: if_splits)
qed

lemma wp_run_request:
  "wp (run_request e gid err cid q) (\<lambda>r w'. \<forall>u. binds (snd r) = Some u \<longrightarrow> proves (user_service e) q w u) w"
proof -
  have plain: "wp (do { (ok, m) \<leftarrow> n; return (ok, Res_plain t m) }) (\<lambda>r w'. \<forall>u. binds (snd r) = Some u \<longrightarrow> P u) w" for n t P
    by (rule wp_bind, rule wp_any, rule wp_case_prod, rule wp_return) simp
  show ?thesis
  proof (cases q)
    case (Rpc_login l)
    show ?thesis
      unfolding Rpc_login run_request.simps by (rule wp_bind, rule wp_mono [OF wp_run_login]) (auto intro!: wp_case_prod wp_return split: if_splits)
  next
    case (Rpc_resume l)
    show ?thesis
      unfolding Rpc_resume run_request.simps by (rule wp_bind, rule wp_mono [OF wp_run_resume]) (auto intro!: wp_case_prod wp_return split: if_splits)
  qed (simp_all only: run_request.simps plain)
qed

lemma set_remove_nth: "set (remove_nth i xs) \<subseteq> set xs"
  by (auto simp: remove_nth_def dest: in_set_takeD in_set_dropD)

lemma secure_run_task:
  assumes "secure e tr g" and "i < length (gw_tasks g)"
  shows "secure e (Ev_ran (task_connection (gw_tasks g ! i)) (task_request (gw_tasks g ! i)) (gw_world g) # tr) (run_task e err now i g)"
    (is "secure e (?ev # tr) _")
proof -
  let ?t = "gw_tasks g ! i"
  obtain ok res w where run: "run_state (run_request e (gateway_id (gw_conns g)) err (task_connection ?t) (task_request ?t)) (gw_world g) = ((ok, res), w)"
    by (metis surj_pair)
  have "proves (user_service e) (task_request ?t) (gw_world g) u" if "binds res = Some u" for u
    using wp_I [OF wp_run_request run] that by simp
  then have new: "proven e (?ev # tr) (task_connection ?t) u" if "binds res = Some u" for u
    using that by (auto simp: proven_def)
  have "secure e (?ev # tr) g" using secure_more [OF assms(1), of "[?ev]"] by simp
  then show ?thesis
    using new set_remove_nth [of i "gw_tasks g"] by (auto simp: secure_def run_task_def Let_def run)
qed

lemma secure_bind:
  assumes "secure e tr g" and "proven e tr cid u" and "bind_connection cid u tok d plat now g = (ok, g')"
  shows "secure e tr g'"
proof -
  obtain b r m where b: "bindUser cid u tok d plat now (gw_conns g) = (b, r, m)" by (metis surj_pair)
  have "secure e tr (g\<lparr>gw_conns := m\<rparr>)"
    by (rule secure_conns [OF assms(1)]) (use assms(2) in \<open>auto dest!: bindUser_context [OF b] intro: secure_context [OF assms(1)]\<close>)
  then show ?thesis using assms(3) b by (auto simp: bind_connection_def split: option.splits)
qed

lemma secure_login_callback:
  assumes "secure e tr g" and "\<And>u. \<not> failed \<Longrightarrow> binds (Res_login r) = Some u \<Longrightarrow> proven e tr cid u"
  shows "secure e tr (login_callback e' now cid seq q r failed g)"
  using assms secure_bind [OF assms(1)]
  by (auto simp: login_callback_def setOfflineAsync_def Let_def split: option.splits prod.splits if_splits)

lemma secure_resume_callback:
  assumes "secure e tr g" and "\<And>u. \<not> failed \<Longrightarrow> binds (Res_resume r) = Some u \<Longrightarrow> proven e tr cid u"
  shows "secure e tr (resume_callback e' now cid seq q r failed g)"
  using assms secure_bind [OF assms(1)]
  by (auto simp: resume_callback_def setOfflineAsync_def Let_def split: option.splits prod.splits if_splits)

lemma secure_callback:
  assumes "secure e tr g" and "i < length (gw_done g)"
  shows "secure e tr (run_callback e' now i g)"
proof -
  obtain task res failed where d: "gw_done g ! i = (task, res, failed)" by (metis surj_pair)
  with assms have "(task, res, failed) \<in> set (gw_done g)" by (metis nth_mem)
  then have p: "proven e tr (task_connection task) u" if "\<not> failed" "binds res = Some u" for u
    using assms(1) that by (auto simp: secure_def)
  have rest: "secure e tr (g\<lparr>gw_done := remove_nth i (gw_done g)\<rparr>)"
    using assms(1) subset_iff [THEN iffD1, OF set_remove_nth [of i "gw_done g"]] unfolding secure_def by (fastforce simp: gateway.simps)
  show ?thesis
    using rest p
    by (cases "task_request task"; cases res)
       (auto simp: run_callback_def d Let_def plain_callback_def split: option.splits intro!: secure_login_callback secure_resume_callback)
qed

section \<open>Every run\<close>

text \<open>Each request that was run in somebody's name came after the proof.\<close>

definition in_order :: "gateway_env \<Rightarrow> gateway_event list \<Rightarrow> bool" where
  "in_order e tr \<longleftrightarrow> (\<forall>later cid q v earlier u. tr = later @ Ev_ran cid q v # earlier \<and> speaks_for q = Some u \<longrightarrow> proven e earlier cid u)"

lemma in_order_Cons:
  "in_order e tr \<Longrightarrow> (\<And>u. speaks_for q = Some u \<Longrightarrow> proven e tr cid u) \<Longrightarrow> in_order e (Ev_ran cid q v # tr)"
  unfolding in_order_def by (auto simp: Cons_eq_append_conv)

lemma secure_step: "gateway_step e g ev g' \<Longrightarrow> secure e tr g \<Longrightarrow> secure e (ev @ tr) g'"
  by (induction rule: gateway_step.induct)
     (simp_all add: secure_connect secure_handleRead secure_disconnect secure_run_task secure_callback secure_calls)

lemma in_order_step: "gateway_step e g ev g' \<Longrightarrow> secure e tr g \<Longrightarrow> in_order e tr \<Longrightarrow> in_order e (ev @ tr)"
proof (induction rule: gateway_step.induct)
  case (runs i g err now)
  then show ?case by (auto simp: secure_def intro!: in_order_Cons)
qed simp_all

lemma secure_new: "secure e [] (new_gateway gid cfg w)"
  by (simp add: secure_def new_gateway_def new_ConnectionManager_def getContext_def)

lemma gateway_run_secure: "gateway_run e (new_gateway gid cfg w) tr g \<Longrightarrow> secure e tr g \<and> in_order e tr"
proof (induction rule: gateway_run.induct)
  case start
  show ?case by (simp add: secure_new in_order_def)
next
  case (step tr g ev g')
  then show ?case using secure_step in_order_step by blast
qed

text \<open>
  C2. The gateway lets nobody speak or listen as somebody else. In every run, with connections, packets, threads,
  callbacks and other processes interleaved in every order: a connection is bound to a user only after a
  request on this very connection proved the user, by the password of a user of that name or by a token that
  Redis had for the user; every message, acknowledgement and pull that is handed to the message service names
  a user proved before on its connection; and a message for a user is delivered only to such a connection.
\<close>

theorem gateway_speaks_for_proven_users:
  assumes "gateway_run e (new_gateway gid cfg w) tr g"
  shows "(\<forall>cid ctx. getContext cid (gw_conns g) = Some ctx \<and> authenticated ctx \<longrightarrow> proven e tr cid (ctx_user_id ctx))
     \<and> (\<forall>later cid q v earlier u. tr = later @ Ev_ran cid q v # earlier \<and> speaks_for q = Some u \<longrightarrow> proven e earlier cid u)
     \<and> (\<forall>ctx rid u cid d r. fst (DeliverToConnection e ctx rid u cid d g) = Some r \<and> is_ok r \<longrightarrow> proven e tr cid u)"
proof -
  from gateway_run_secure [OF assms] have s: "secure e tr g" and o: "in_order e tr" by auto
  have "proven e tr cid u" if "fst (DeliverToConnection e ctx rid u cid d g) = Some r" "is_ok r" for ctx rid u cid d r
    using that secure_context [OF s, of cid]
    by (auto simp: DeliverToConnection_def bound_context_def split: if_splits option.splits sum.splits)
  with o secure_context [OF s] show ?thesis
    unfolding in_order_def bound_context_def by blast
qed

text \<open>A client logs in as \<open>Ada\<close> and sends a message.\<close>

definition example_env :: gateway_env where
  "example_env = \<lparr>serialize = (\<lambda>_. []), parseRegister = (\<lambda>_. None), parseLogin = (\<lambda>_. Some (example_login ''secret'')),
     parseResume = (\<lambda>_. (False, \<lparr>rs_request_id = [], rs_token = [], rs_device_id = [], rs_platform = [], rs_device_name = []\<rparr>)),
     parseSingle = (\<lambda>_. Some (hello 0 2)), parseGroup = (\<lambda>_. None), parseAck = (\<lambda>_. None), parsePull = (\<lambda>_. None),
     accept_digest = rev, peer_ip = (\<lambda>_. ''ip''), max_queue_size = 0, user_service = example_service,
     message_options = default_MessageServiceOptions, message_codec = plain_codec, call_context = (\<lambda>_. caller)\<rparr>"

definition example_readings :: "nat \<Rightarrow> readings" where
  "example_readings k = \<lparr>at_ms = 1, at_ns = (1, 1, 1)\<rparr>"

definition example_gateway :: gateway where
  "example_gateway = new_gateway ''g'' (default_RateLimitConfig\<lparr>enabled := False\<rparr>) account_world"

definition example_bytes :: "MessageType \<Rightarrow> bytes" where
  "example_bytes t = encodeHeader (default_header\<lparr>header_type := messageTypeCode t, header_sequence_id := 1\<rparr>)"

lemma example_bytes_encode:
  "t \<noteq> UNKNOWN \<Longrightarrow> encode \<lparr>packet_type = t, sequence_id = 1, body = []\<rparr> = Inr (example_bytes t)"
  by (simp add: encode_def example_bytes_def isValidMessageType_def wire_simps default_header_def)

definition example_opened :: gateway where
  "example_opened = connect 1 ''peer'' 0 example_gateway"

lemma to_string_one: "to_string 1 = ''1''" "to_string (Suc 0) = ''1''"
  by code_simp+

text \<open>What the steps read of the gateway.\<close>

definition example_at :: "gateway \<Rightarrow> ConnectionContext \<Rightarrow> world \<Rightarrow> bool" where
  "example_at g ctx w \<longleftrightarrow> gw_ids g = [(1, ''g-conn-1'')] \<and> gw_websocket g = [(1, False)] \<and> gw_connected g = [1]
     \<and> buffer_inv (gw_input g 1) \<and> queue_of (gw_input g 1) = [] \<and> \<not> gw_aborted g
     \<and> connections (gw_conns g) = [(''g-conn-1'', 1)] \<and> gateway_id (gw_conns g) = ''g'' \<and> contexts (gw_conns g) = [(''g-conn-1'', ctx)]
     \<and> user_device_to_connection (gw_conns g) = (if authenticated ctx then [(8, [(''phone'', ''g-conn-1'')])] else [])
     \<and> gw_world g = w \<and> \<not> enabled (rl_config (gw_packet_limiter g)) \<and> \<not> enabled (rl_config (gw_limiter g))
     \<and> (\<forall>n. gw_breakers g n = None \<or> gw_breakers g n = Some (new_CircuitBreaker 5 30000))"

lemma example_opened_at:
  "example_at example_opened (new_ConnectionContext\<lparr>connection_id := ''g-conn-1'', peer_addr := ''peer''\<rparr>) account_world"
  "gw_tasks example_opened = []" "gw_done example_opened = []"
  by (simp_all add: example_at_def example_opened_def example_gateway_def connect_def connection_opened_def new_gateway_def addConnection_def
      generateConnectionId_def new_ConnectionManager_def bindConnectionIdToConnection_def to_string_one new_ConnectionContext_def
      new_RateLimiter_def default_RateLimitConfig_def buffer_inv_new)

lemma example_read:
  assumes "example_at g ctx w" and "t \<noteq> UNKNOWN"
  shows "\<exists>b b'. buffer_inv b' \<and> queue_of b' = [] \<and>
    handleRead example_env example_readings 1 (Inr (example_bytes t)) g = set_input 1 (b', handlePacket example_env (example_readings 0) 1 ''g-conn-1''
       \<lparr>packet_type = t, sequence_id = 1, body = []\<rparr> (g\<lparr>gw_input := (gw_input g)(1 := b), gw_packet_limiter := gw_packet_limiter g\<rparr>))"
proof -
  from assms obtain b b' where b: "buffer_inv b'" "queue_of b' = []"
    "handleRead example_env example_readings 1 (Inr (example_bytes t)) g = set_input 1 (b', handlePacket example_env (example_readings 0) 1
       (getConnectionIdFromConnection 1 g) \<lparr>packet_type = t, sequence_id = 1, body = []\<rparr>
       (g\<lparr>gw_input := (gw_input g)(1 := b), gw_packet_limiter := snd (allowPacket (getConnectionIdFromConnection 1 g) (at_ns (example_readings 0)) (gw_packet_limiter g))\<rparr>))"
    using handleRead_packet [of g 1 "\<lparr>packet_type = t, sequence_id = 1, body = []\<rparr>" "example_bytes t" example_readings example_env]
      example_bytes_encode [OF assms(2)]
    by (auto simp: example_at_def allowPacket_def)
  have "getConnectionIdFromConnection 1 g = ''g-conn-1''" "snd (allowPacket c x (gw_packet_limiter g)) = gw_packet_limiter g" for c x
    using assms(1) by (simp_all add: example_at_def getConnectionIdFromConnection_def allowPacket_def)
  with b show ?thesis by (intro exI [of _ b] exI [of _ b']) simp
qed

definition example_task :: "rpc_request \<Rightarrow> rpc_task" where
  "example_task q = \<lparr>task_connection = ''g-conn-1'', task_sequence = 1, task_request = q\<rparr>"

lemma breaker_fresh: "b = None \<or> b = Some (new_CircuitBreaker 5 30000) \<Longrightarrow> m n = b \<Longrightarrow>
    manager_allowRequest n now m = (True, m(n \<mapsto> new_CircuitBreaker 5 30000))"
  by (auto simp: manager_allowRequest_def getBreaker_def allowRequest_def new_CircuitBreaker_def Let_def)

lemma example_login_packet:
  assumes "example_at g ctx w" "gw_tasks g = []" "gw_done g = []"
  defines "g' \<equiv> handleRead example_env example_readings 1 (Inr (example_bytes LOGIN_REQ)) g"
  shows "example_at g' (ctx\<lparr>last_active_ms := 1\<rparr>) w" "gw_tasks g' = [example_task (Rpc_login (example_login ''secret''))]" "gw_done g' = []"
proof -
  obtain b b' where b: "buffer_inv b'" "queue_of b' = []"
    "g' = set_input 1 (b', handlePacket example_env (example_readings 0) 1 ''g-conn-1''
       \<lparr>packet_type = LOGIN_REQ, sequence_id = 1, body = []\<rparr> (g\<lparr>gw_input := (gw_input g)(1 := b), gw_packet_limiter := gw_packet_limiter g\<rparr>))"
    using example_read [OF assms(1), of LOGIN_REQ] unfolding g'_def by blast
  have fresh: "manager_allowRequest n now (gw_breakers g) = (True, (gw_breakers g)(n \<mapsto> new_CircuitBreaker 5 30000))" for n now
    using assms(1) by (intro breaker_fresh [OF _ refl]) (simp add: example_at_def)
  note defs = set_input_def handlePacket_def handleLogin_def limit_rate_def allowLogin_def ask_breaker_def submit_def example_env_def
    example_readings_def example_task_def updateActiveTime_def example_at_def
  show "example_at g' (ctx\<lparr>last_active_ms := 1\<rparr>) w" "gw_tasks g' = [example_task (Rpc_login (example_login ''secret''))]" "gw_done g' = []"
    using assms(1-3) by (simp_all add: b defs fresh)
qed

lemma breaker_success:
  assumes "\<forall>n. m n = None \<or> m n = Some (new_CircuitBreaker 5 30000)"
  shows "manager_recordSuccess k m n = None \<or> manager_recordSuccess k m n = Some (new_CircuitBreaker 5 30000)"
  using assms [rule_format, of k] assms [rule_format, of n]
  by (auto simp: manager_recordSuccess_def getBreaker_def recordSuccess_def new_CircuitBreaker_def Let_def split: if_splits)

abbreviation example_run_login :: "(bool \<times> LoginResult) \<times> world" where
  "example_run_login \<equiv> run_state (run_login example_env ''g'' [] ''g-conn-1'' (example_login ''secret'')) account_world"

lemma example_run_login_ok:
  "fst (fst example_run_login)" "binds (Res_login (snd (fst example_run_login))) = Some 8"
  by code_simp+

lemma example_login_task:
  assumes "example_at g ctx account_world" "gw_tasks g = [example_task (Rpc_login (example_login ''secret''))]" "gw_done g = []"
  defines "g' \<equiv> run_task example_env [] 1 0 g"
  shows "example_at g' ctx (snd example_run_login)" "gw_tasks g' = []"
    "gw_done g' = [(example_task (Rpc_login (example_login ''secret'')), Res_login (snd (fst example_run_login)), False)]"
proof -
  obtain ok r w where run: "example_run_login = ((ok, r), w)" by (metis surj_pair)
  then have "run_state (run_request example_env ''g'' [] ''g-conn-1'' (Rpc_login (example_login ''secret''))) account_world = ((True, Res_login r), w)"
    using example_run_login_ok(1) by (simp add: calm)
  then have "g' = g\<lparr>gw_tasks := [], gw_world := w, gw_breakers := manager_recordSuccess ''user_service'' (gw_breakers g),
      gw_done := [(example_task (Rpc_login (example_login ''secret'')), Res_login r, False)]\<rparr>"
    using assms(1-3) by (simp add: g'_def run_task_def example_task_def example_at_def remove_nth_def)
  then show "example_at g' ctx (snd example_run_login)" "gw_tasks g' = []"
    "gw_done g' = [(example_task (Rpc_login (example_login ''secret'')), Res_login (snd (fst example_run_login)), False)]"
    using assms(1) breaker_success by (simp_all add: run example_at_def)
qed

lemma example_login_callback:
  assumes "example_at g ctx w" "gw_tasks g = []" "\<not> authenticated ctx" "ctx_user_id ctx = 0"
    "gw_done g = [(example_task (Rpc_login (example_login ''secret'')), Res_login r, False)]" "binds (Res_login r) = Some 8"
  defines "g' \<equiv> run_callback example_env 2 0 g"
  shows "example_at g' (ctx\<lparr>ctx_user_id := 8, token := lr_token r, device_id := ''phone'', platform := ''p'', authenticated := True,
      last_active_ms := 2\<rparr>) w" "gw_tasks g' = []" "gw_done g' = []"
proof -
  have d: "login_device_id ''g-conn-1'' (example_login ''secret'') = ''phone''" "lg_platform (example_login ''secret'') = ''p''"
    by (simp_all add: login_device_id_def example_login_def)
  have enc: "encode (makeResponse example_env LOGIN_RESP 1 m) = Inr (example_bytes LOGIN_RESP)" for m
    using example_bytes_encode [of LOGIN_RESP] by (simp add: makeResponse_def example_env_def)
  have r: "lr_rpc_ok r" "rsp_code (lr_response r) = 0" "lr_online_ok r" "lr_user_id r = 8"
    using assms(6) by (simp_all split: if_splits)
  note defs = run_callback_def example_task_def login_callback_def live_conn_def getConnection_def bind_connection_def bindUser_def
    remove_nth_def sendPacket_def conn_send_def
  show "example_at g' (ctx\<lparr>ctx_user_id := 8, token := lr_token r, device_id := ''phone'', platform := ''p'', authenticated := True,
      last_active_ms := 2\<rparr>) w" "gw_tasks g' = []" "gw_done g' = []"
    using assms(1-5) by (simp_all add: g'_def defs d enc r example_at_def Let_def)
qed

lemma example_send_packet:
  assumes "example_at g ctx w" "gw_tasks g = []" "gw_done g = []" "authenticated ctx" "ctx_user_id ctx = 8"
  defines "g' \<equiv> handleRead example_env example_readings 1 (Inr (example_bytes SEND_SINGLE_MSG_REQ)) g"
  shows "\<not> gw_aborted g'" "gw_tasks g' = [example_task (Rpc_single (hello 8 2))]"
proof -
  obtain b b' where b: "buffer_inv b'" "queue_of b' = []"
    "g' = set_input 1 (b', handlePacket example_env (example_readings 0) 1 ''g-conn-1''
       \<lparr>packet_type = SEND_SINGLE_MSG_REQ, sequence_id = 1, body = []\<rparr> (g\<lparr>gw_input := (gw_input g)(1 := b), gw_packet_limiter := gw_packet_limiter g\<rparr>))"
    using example_read [OF assms(1), of SEND_SINGLE_MSG_REQ] unfolding g'_def by blast
  have fresh: "manager_allowRequest n now (gw_breakers g) = (True, (gw_breakers g)(n \<mapsto> new_CircuitBreaker 5 30000))" for n now
    using assms(1) by (intro breaker_fresh [OF _ refl]) (simp add: example_at_def)
  note defs = set_input_def handlePacket_def handleSendSingleMessage_def requireAuth_def getContext_def limit_rate_def allowMessage_def
    ask_breaker_def submit_def example_env_def example_readings_def example_task_def updateActiveTime_def example_at_def hello_def
  show "\<not> gw_aborted g'" "gw_tasks g' = [example_task (Rpc_single (hello 8 2))]"
    using assms(1-5) by (simp_all add: b defs fresh)
qed

lemma example_run:
  fixes g1 g2 g3 g4
  defines "g1 \<equiv> handleRead example_env example_readings 1 (Inr (example_bytes LOGIN_REQ)) example_opened"
    and "g2 \<equiv> run_task example_env [] 1 0 g1"
    and "g3 \<equiv> run_callback example_env 2 0 g2"
    and "g4 \<equiv> handleRead example_env example_readings 1 (Inr (example_bytes SEND_SINGLE_MSG_REQ)) g3"
  shows "gateway_run example_env example_gateway [Ev_ran ''g-conn-1'' (Rpc_single (hello 8 2)) (gw_world g4),
     Ev_ran ''g-conn-1'' (Rpc_login (example_login ''secret'')) account_world] (run_task example_env [] 3 0 g4)"
proof -
  let ?c = "new_ConnectionContext\<lparr>connection_id := ''g-conn-1'', peer_addr := ''peer'', last_active_ms := 1\<rparr>"
  have "(new_ConnectionContext\<lparr>connection_id := ''g-conn-1'', peer_addr := ''peer''\<rparr>)\<lparr>last_active_ms := 1\<rparr> = ?c" by simp
  then have g1: "example_at g1 ?c account_world" "gw_tasks g1 = [example_task (Rpc_login (example_login ''secret''))]" "gw_done g1 = []"
    using example_login_packet [OF example_opened_at] unfolding g1_def by simp_all
  note g2 = example_login_task [OF g1, folded g2_def]
  have c: "\<not> authenticated ?c" "ctx_user_id ?c = 0" by (simp_all add: new_ConnectionContext_def)
  note g3 = example_login_callback [OF g2(1,2) c g2(3) example_run_login_ok(2), folded g3_def]
  have g4: "\<not> gw_aborted g4" "gw_tasks g4 = [example_task (Rpc_single (hello 8 2))]"
    using example_send_packet [OF g3] unfolding g4_def by simp_all
  have live: "\<not> gw_aborted g" "1 \<in> set (gw_connected g)" if "example_at g x w" for g x w
    using that by (simp_all add: example_at_def)
  have r0: "gateway_run example_env example_gateway [] example_opened"
    using gateway_run.step [OF gateway_run.start, of example_gateway example_env "[]" example_opened] gateway_step.opens [of 1 example_gateway example_env "''peer''" 0]
    by (simp add: example_opened_def example_gateway_def new_gateway_def)
  have r1: "gateway_run example_env example_gateway [] g1"
    using gateway_run.step [OF r0 live(1) [OF example_opened_at(1)] gateway_step.reads] live(2) [OF example_opened_at(1)] by (simp add: g1_def)
  have r2: "gateway_run example_env example_gateway [Ev_ran ''g-conn-1'' (Rpc_login (example_login ''secret'')) account_world] g2"
    using gateway_run.step [OF r1 live(1) [OF g1(1)] gateway_step.runs [of 0 g1 example_env "[]" 1]] g1 by (simp add: g2_def example_task_def example_at_def)
  have r3: "gateway_run example_env example_gateway [Ev_ran ''g-conn-1'' (Rpc_login (example_login ''secret'')) account_world] g3"
    using gateway_run.step [OF r2 live(1) [OF g2(1)] gateway_step.calls_back [of 0 g2 example_env 2]] g2 by (simp add: g3_def)
  have r4: "gateway_run example_env example_gateway [Ev_ran ''g-conn-1'' (Rpc_login (example_login ''secret'')) account_world] g4"
    using gateway_run.step [OF r3 live(1) [OF g3(1)] gateway_step.reads] live(2) [OF g3(1)] by (simp add: g4_def)
  show ?thesis
    using gateway_run.step [OF r4 g4(1) gateway_step.runs [of 0 g4 example_env "[]" 3]] g4 by (simp add: example_task_def)
qed

theorem gateway_speaks_for_proven_users_witness:
  "proven example_env [Ev_ran ''g-conn-1'' (Rpc_login (example_login ''secret'')) account_world] ''g-conn-1'' 8"
proof -
  note run = example_run [unfolded example_gateway_def]
  show ?thesis
    by (rule gateway_speaks_for_proven_users [OF run, THEN conjunct2, THEN conjunct1, rule_format, of "[]" _ "Rpc_single (hello 8 2)"]) simp
qed

end
