(* ===== verification/Spec2Isabelle.thy ===== *)
theory Spec2Isabelle
  imports Packet_Protocol WebSocket_Frame Cpp_Text Rate_Limit Circuit_Breaker Message_Ids Connection_Manager
    Message_Recall Relation_Properties Push_Properties Conversation_Service Gateway_Properties
begin

text \<open>
  NebulaIM: a verification library for an instant messaging back end.

  The program is a set of C++ services. A gateway accepts TCP and WebSocket clients, frames and
  decodes their packets, authenticates connections and forwards requests to the user and message
  services over RPC; the relation, conversation and device services are called by other clients. The
  message service stores messages in MySQL together with an outbox of events; the outbox worker publishes
  these to Kafka, and the push worker delivers them to online users through the gateways or stores them as
  offline messages. Redis holds tokens, the devices that are online and short-lived counters.

  \<^bold>\<open>How the code is modelled.\<close> Components without outside calls are functions on records: a method takes the
  object's record and returns it updated, clock readings and system call results are arguments, a failed
  assertion is \<open>None\<close>, a thrown exception is \<open>Inl\<close>. The services are programs of the state monad over one
  \<open>world\<close> (\<^verbatim>\<open>Service_World\<close>): the tables of MySQL, an open transaction, Redis, the Kafka log, the circuit breakers
  and deliveries of the gateways, clock and random values, and a script of outcomes. Every outside call takes
  the next outcome: it succeeds, fails without effect, or takes effect while its answer is lost. A theorem
  about every world therefore covers every fault pattern. SQL statements are functions on the tables.
  Handlers run one at a time on the world; interleavings are explicit in the step relations of \<^verbatim>\<open>Outbox\<close> (several
  workers) and \<^verbatim>\<open>Gateway_Properties\<close> (connections, threads, callbacks and other processes).

  \<^bold>\<open>Theories, from the bottom up.\<close>

  \<^item> \<^verbatim>\<open>Nebula_Prelude\<close>: machine types, big-endian integers, outcomes of external calls, the collections of rules.
  \<^item> \<^verbatim>\<open>Cpp_Text\<close>: what the sources use of the C++ library on strings and numbers.
  \<^item> \<^verbatim>\<open>Net_Buffer\<close>: \<^verbatim>\<open>common/net/Buffer\<close>; it refines a byte queue for every history of operations.
  \<^item> \<^verbatim>\<open>Packet_Protocol\<close>: \<^verbatim>\<open>common/protocol\<close>; round trips of header and codec, classification of every byte queue.
  \<^item> \<^verbatim>\<open>WebSocket_Frame\<close>, \<^verbatim>\<open>WebSocket_Handshake\<close>: \<^verbatim>\<open>common/websocket\<close>; round trips of frames, partial and malformed
    input, and the opening request read back as it was written.
  \<^item> \<^verbatim>\<open>Rate_Limit\<close>: \<^verbatim>\<open>common/ratelimit\<close>; bounds on what is granted over any time, isolation of keys.
  \<^item> \<^verbatim>\<open>Circuit_Breaker\<close>: \<^verbatim>\<open>common/circuitbreaker\<close>; the state as a function of the history.
  \<^item> \<^verbatim>\<open>Message_Ids\<close>: \<^verbatim>\<open>common/message/MessageIdGenerator\<close> and \<^verbatim>\<open>ConversationId\<close>; unique and increasing ids at word width.
  \<^item> \<^verbatim>\<open>Connection_Manager\<close>: \<^verbatim>\<open>common/gateway/ConnectionManager\<close>; an invariant of its tables and the routes they implement.
  \<^item> \<^verbatim>\<open>Storage_Tables\<close>, \<^verbatim>\<open>Service_World\<close>, \<^verbatim>\<open>Service_Errors\<close>, \<^verbatim>\<open>Service_Calm\<close>: rows, the world, weakest preconditions and
    preserved invariants of programs, error codes, and runs in which no call fails.
  \<^item> \<^verbatim>\<open>Message_Store\<close>, \<^verbatim>\<open>Directory_Store\<close>, \<^verbatim>\<open>Outbox\<close>: \<^verbatim>\<open>common/dao\<close>, \<^verbatim>\<open>common/conversation\<close> and \<^verbatim>\<open>common/outbox\<close>; the worker's
    round refines a step relation in which an event belongs to one worker at a time.
  \<^item> \<^verbatim>\<open>Message_Service\<close>, \<^verbatim>\<open>Message_Invariants\<close>, \<^verbatim>\<open>Message_Properties\<close>, \<^verbatim>\<open>Message_Recall\<close>: \<^verbatim>\<open>message_service\<close>; sends
    are all or nothing, repeated sends change nothing, strangers cannot send, what every sequence of calls keeps,
    and a stored message is published or still queued. The locales \<^verbatim>\<open>message_statements\<close>, \<^verbatim>\<open>message_system\<close> and
    \<^verbatim>\<open>message_contents\<close> are the contract between an invariant and the handlers.
  \<^item> \<^verbatim>\<open>Relation_Service\<close>, \<^verbatim>\<open>Relation_Properties\<close>: \<^verbatim>\<open>relation_service\<close>; friendship comes from consent, group membership.
  \<^item> \<^verbatim>\<open>Auth\<close>, \<^verbatim>\<open>User_Service\<close>, \<^verbatim>\<open>Online_Status\<close>, \<^verbatim>\<open>Device_Service\<close>, \<^verbatim>\<open>Session_Properties\<close>: \<^verbatim>\<open>common/auth\<close>, \<^verbatim>\<open>user_service\<close>,
    \<^verbatim>\<open>common/push/OnlineStatusManager\<close>, \<^verbatim>\<open>common/gateway/GatewayOnlineManager\<close> and \<^verbatim>\<open>device_service\<close>; a login needs the
    password, and replaced or revoked tokens are dead.
  \<^item> \<^verbatim>\<open>Conversation_Service\<close>: \<^verbatim>\<open>conversation_service\<close>; updates touch the caller's own row only.
  \<^item> \<^verbatim>\<open>Push_Service\<close>, \<^verbatim>\<open>Push_Properties\<close>: \<^verbatim>\<open>common/push\<close> and \<^verbatim>\<open>push_service\<close>; every record below the committed offset
    is settled, and without failing calls every record is committed.
  \<^item> \<^verbatim>\<open>Gateway_Router\<close>, \<^verbatim>\<open>Gateway_Server\<close>, \<^verbatim>\<open>Gateway_Properties\<close>: \<^verbatim>\<open>common/gateway/GatewayRouter\<close>, \<^verbatim>\<open>common/async\<close> and
    \<^verbatim>\<open>gateway\<close>, run on the handlers of the user and message services; in every interleaving a connection speaks
    and listens only as a user who was proved on it.

  \<^bold>\<open>Bounds.\<close> No definition uses fuel. The loops over received bytes are functions with a termination proof; the
  push worker and the sequences of calls are run for any given number of passes. Clocks and counters in
  milliseconds are unbounded integers except where the code narrows them; ids, headers and lengths are words.

  \<^bold>\<open>Arguments of the model.\<close> Protocol buffer coding, the digests and key derivation of OpenSSL, how MySQL compares
  text, random values and clock readings. Doubles of the rate limiter are rationals.

  \<^bold>\<open>Not modelled.\<close> The admin service, which reports figures of the others; the event loop, sockets, timers, threads
  and TLS, which wrap system calls and whose callbacks are the steps of the gateway; the client libraries of
  MySQL, Redis and Kafka behind the calls; times to live in Redis; configuration, logging, metrics, tracing,
  health checks and service discovery; process set-up, tools, examples and benchmarks. Inside one task of the
  gateway's executor the call of the service and the update of the online keys are not interleaved with others.
\<close>

end
